theory Spec2Isabelle
  imports Complex_Main "HOL-Library.AList" "HOL-Library.Sublist" "HOL-Library.Multiset"
begin

section \<open>Python values\<close>

text \<open>
  A shallow embedding of \<^verbatim>\<open>converter.py\<close> (class \<^verbatim>\<open>YoloPageConverter\<close>).
  Exceptions are values: a function that can raise returns \<open>py_error + 'a\<close>, with
  \<open>Inl\<close> the exception. Every member of \<open>py_error\<close> is a subclass of Python's
  \<^verbatim>\<open>Exception\<close>, so \<^verbatim>\<open>except Exception\<close> and a bare \<^verbatim>\<open>except\<close> catch all of them.
\<close>

datatype py_error = FileNotFoundError | ValueError | OverflowError | TypeError | GEOSException

type_synonym point = "int \<times> int"

text \<open>
  Strings are lists of 8-bit characters: the code points 0 to 255 of Python's \<^verbatim>\<open>str\<close>.

  Decimal digits of a natural number, as \<^verbatim>\<open>str\<close> and the format \<^verbatim>\<open>04d\<close> print them. (The
  integers printed by the converter are image sizes, pixel coordinates obtained by \<^verbatim>\<open>int\<close>
  from a double, and class ids that \<^verbatim>\<open>int\<close> has read: all of them have fewer digits than
  the interpreter's limit on the conversion of integers to strings.)
\<close>

definition digit_char :: "nat \<Rightarrow> char" where
  "digit_char n = ''0123456789'' ! n"

fun digits :: "nat \<Rightarrow> string" where
  "digits n = (if n < 10 then [digit_char n] else digits (n div 10) @ [digit_char (n mod 10)])"

declare digits.simps [simp del]

definition py_str :: "int \<Rightarrow> string" where
  "py_str i = (if i < 0 then CHR ''-'' # digits (nat (- i)) else digits (nat i))"

text \<open>\<^verbatim>\<open>f"{idx:04d}"\<close>: at least four digits, padded with zeros on the left.\<close>

definition fmt04 :: "nat \<Rightarrow> string" where
  "fmt04 idx = replicate (4 - length (digits idx)) CHR ''0'' @ digits idx"

text \<open>
  \<^verbatim>\<open>int(s)\<close> on a string (Python 3.11 with its default settings). Whitespace around the
  literal is dropped: the six ASCII characters of C's \<^verbatim>\<open>isspace\<close>, and the two other
  whitespace characters below 256, U+0085 and U+00A0 (the separators U+001C to U+001F are
  whitespace for \<^verbatim>\<open>str.split\<close> but not here). The literal is an optional sign, then
  decimal digits, where single underscores may stand between digits; among the characters
  below 256 only \<^verbatim>\<open>0\<close> to \<^verbatim>\<open>9\<close> are decimal digits. Anything else raises ValueError, and so
  does a literal of more than 4300 digits (the default of \<^verbatim>\<open>sys.get_int_max_str_digits()\<close>;
  leading zeros count, the sign and the underscores do not).
\<close>

definition is_digit :: "char \<Rightarrow> bool" where
  "is_digit c = (c \<in> set ''0123456789'')"

definition digit_val :: "char \<Rightarrow> nat" where
  "digit_val c = of_char c - 48"

fun int_body :: "string \<Rightarrow> nat \<Rightarrow> nat option" where
  "int_body [] acc = Some acc"
| "int_body (c # cs) acc =
     (if is_digit c then int_body cs (10 * acc + digit_val c)
      else if c = CHR ''_'' then
        (case cs of [] \<Rightarrow> None | d # ds \<Rightarrow> if is_digit d then int_body cs acc else None)
      else None)"

definition int_literal :: "string \<Rightarrow> nat option" where
  "int_literal s = (case s of [] \<Rightarrow> None | c # cs \<Rightarrow> if is_digit c then int_body s 0 else None)"

definition int_space :: "char \<Rightarrow> bool" where
  "int_space c = (c \<in> set [CHR '' '', CHR 0x09, CHR 0x0A, CHR 0x0B, CHR 0x0C, CHR 0x0D,
                            CHR 0x85, CHR 0xA0])"

definition int_max_str_digits :: nat where
  "int_max_str_digits = 4300"

definition int_signed :: "string \<Rightarrow> (nat \<Rightarrow> int) \<Rightarrow> py_error + int" where
  "int_signed body sign =
     (case int_literal body of
        None \<Rightarrow> Inl ValueError
      | Some n \<Rightarrow>
          if length (filter is_digit body) > int_max_str_digits then Inl ValueError
          else Inr (sign n))"

definition py_int :: "string \<Rightarrow> py_error + int" where
  "py_int s =
     (case rev (dropWhile int_space (rev (dropWhile int_space s))) of
        [] \<Rightarrow> Inl ValueError
      | c # cs \<Rightarrow>
          if c = CHR ''-'' then int_signed cs (\<lambda>n. - int n)
          else if c = CHR ''+'' then int_signed cs int
          else int_signed (c # cs) int)"

text \<open>
  \<^verbatim>\<open>str.strip()\<close> and \<^verbatim>\<open>str.split()\<close>: whitespace is what \<^verbatim>\<open>str.isspace\<close> accepts, of which
  twelve characters lie below 256.
\<close>

definition is_space :: "char \<Rightarrow> bool" where
  "is_space c = (c \<in> set [CHR '' '', CHR 0x09, CHR 0x0A, CHR 0x0B, CHR 0x0C, CHR 0x0D,
                           CHR 0x1C, CHR 0x1D, CHR 0x1E, CHR 0x1F, CHR 0x85, CHR 0xA0])"

definition py_strip :: "string \<Rightarrow> string" where
  "py_strip s = rev (dropWhile is_space (rev (dropWhile is_space s)))"

fun split_acc :: "string \<Rightarrow> string \<Rightarrow> string list" where
  "split_acc [] cur = (if cur = [] then [] else [cur])"
| "split_acc (c # cs) cur =
     (if is_space c then (if cur = [] then split_acc cs [] else cur # split_acc cs [])
      else split_acc cs (cur @ [c]))"

definition py_split :: "string \<Rightarrow> string list" where
  "py_split s = split_acc s []"

text \<open>\<^verbatim>\<open>s.replace(old, '')\<close> and \<^verbatim>\<open>s.lower()\<close> (ASCII letters).\<close>

function remove_all :: "string \<Rightarrow> string \<Rightarrow> string" where
  "remove_all old [] = []"
| "remove_all old (c # cs) =
     (if old \<noteq> [] \<and> prefix old (c # cs) then remove_all old (drop (length old) (c # cs))
      else c # remove_all old cs)"
  by pat_completeness auto
termination
  by (relation "measure (\<lambda>(old, s). length s)") auto

definition lower_char :: "char \<Rightarrow> char" where
  "lower_char c =
     (if (65::nat) \<le> of_char c \<and> of_char c \<le> (90::nat) then char_of (of_char c + (32::nat)) else c)"

definition py_lower :: "string \<Rightarrow> string" where
  "py_lower s = map lower_char s"

text \<open>\<^verbatim>\<open>sep.join(xs)\<close>.\<close>

fun py_join :: "string \<Rightarrow> string list \<Rightarrow> string" where
  "py_join sep [] = []"
| "py_join sep [x] = x"
| "py_join sep (x # y # ys) = x @ sep @ py_join sep (y # ys)"

section \<open>The collaborators: floats, the geometry library, the clock and uuid\<close>

text \<open>
  Floating-point coordinates are kept abstract: the type \<open>'f\<close> with Python's
  \<^verbatim>\<open>float(token)\<close> (ValueError on a token that is no float literal), the product with an
  \<^verbatim>\<open>int\<close> and \<^verbatim>\<open>int(x)\<close> (ValueError on nan, OverflowError on an infinity). Every
  theorem below holds for all such operations.
\<close>

record 'f floats =
  to_float :: "string \<Rightarrow> py_error + 'f"
  mul_int :: "'f \<Rightarrow> int \<Rightarrow> 'f"
  to_int :: "'f \<Rightarrow> py_error + int"

text \<open>
  The geometry library (shapely) is a parameter as well: \<open>Polygon\<close> builds a polygon from
  points or raises, \<open>is_valid\<close> and \<open>area\<close> read a polygon, and \<open>intersection_area p q\<close> is
  \<^verbatim>\<open>p.intersection(q).area\<close>, which may raise. Areas and scores are IEEE doubles in the
  program and real numbers here: the rounding of \<^verbatim>\<open>line_area * 0.1\<close> and of the quotient in
  the containment score is not modelled.
\<close>

record 'p geometry =
  Polygon :: "point list \<Rightarrow> py_error + 'p"
  is_valid :: "'p \<Rightarrow> bool"
  area :: "'p \<Rightarrow> real"
  intersection_area :: "'p \<Rightarrow> 'p \<Rightarrow> py_error + real"

text \<open>
  The clock and the uuid generator: \<open>now_isoformat w k\<close> is the k-th reading of
  \<^verbatim>\<open>datetime.now().isoformat()\<close> and \<open>uuid4_hex w k\<close> the k-th \<^verbatim>\<open>uuid.uuid4().hex\<close>.
\<close>

record world =
  now_isoformat :: "nat \<Rightarrow> string"
  uuid4_hex :: "nat \<Rightarrow> string"

section \<open>Geometric scoring\<close>

text \<open>
  \<^verbatim>\<open>_calculate_polygon_overlap\<close> (lines 126-154). \<open>overlap_try\<close> is the body of the
  \<^verbatim>\<open>try\<close>; the handler \<^verbatim>\<open>except Exception\<close> turns every exception into 0.0.
\<close>

definition overlap_try :: "'p geometry \<Rightarrow> point list \<Rightarrow> point list \<Rightarrow> py_error + real" where
  "overlap_try g poly1_points poly2_points =
     (case Polygon g poly1_points of
        Inl e \<Rightarrow> Inl e
      | Inr poly1 \<Rightarrow>
          (case Polygon g poly2_points of
             Inl e \<Rightarrow> Inl e
           | Inr poly2 \<Rightarrow>
               if \<not> is_valid g poly1 \<or> \<not> is_valid g poly2 then Inr 0
               else intersection_area g poly1 poly2))"

definition calculate_polygon_overlap ::
  "'p geometry \<Rightarrow> point list \<Rightarrow> point list \<Rightarrow> py_error + real" where
  "calculate_polygon_overlap g poly1_points poly2_points =
     (case overlap_try g poly1_points poly2_points of Inl e \<Rightarrow> Inr 0 | Inr v \<Rightarrow> Inr v)"

text \<open>\<^verbatim>\<open>_calculate_containment_score\<close> (lines 156-182), in the same way.\<close>

definition containment_try :: "'p geometry \<Rightarrow> point list \<Rightarrow> point list \<Rightarrow> py_error + real" where
  "containment_try g child_points parent_points =
     (case Polygon g child_points of
        Inl e \<Rightarrow> Inl e
      | Inr child_poly \<Rightarrow>
          (case Polygon g parent_points of
             Inl e \<Rightarrow> Inl e
           | Inr parent_poly \<Rightarrow>
               if \<not> is_valid g child_poly \<or> \<not> is_valid g parent_poly then Inr 0
               else
                 (case intersection_area g child_poly parent_poly of
                    Inl e \<Rightarrow> Inl e
                  | Inr a \<Rightarrow>
                      if area g child_poly > 0 then Inr (a / area g child_poly) else Inr 0)))"

definition calculate_containment_score ::
  "'p geometry \<Rightarrow> point list \<Rightarrow> point list \<Rightarrow> py_error + real" where
  "calculate_containment_score g child_points parent_points =
     (case containment_try g child_points parent_points of Inl e \<Rightarrow> Inr 0 | Inr v \<Rightarrow> Inr v)"

text \<open>What the claims call invalid: the polygon cannot be built, or is not valid.\<close>

definition invalid_polygon :: "'p geometry \<Rightarrow> point list \<Rightarrow> bool" where
  "invalid_polygon g pts = (case Polygon g pts of Inl e \<Rightarrow> True | Inr p \<Rightarrow> \<not> is_valid g p)"

definition polygon_area :: "'p geometry \<Rightarrow> point list \<Rightarrow> real" where
  "polygon_area g pts = (case Polygon g pts of Inl e \<Rightarrow> 0 | Inr p \<Rightarrow> area g p)"

text \<open>The values the two scoring functions return.\<close>

definition overlap_val :: "'p geometry \<Rightarrow> point list \<Rightarrow> point list \<Rightarrow> real" where
  "overlap_val g a b = (case calculate_polygon_overlap g a b of Inl e \<Rightarrow> 0 | Inr v \<Rightarrow> v)"

definition containment_val :: "'p geometry \<Rightarrow> point list \<Rightarrow> point list \<Rightarrow> real" where
  "containment_val g a b = (case calculate_containment_score g a b of Inl e \<Rightarrow> 0 | Inr v \<Rightarrow> v)"

section \<open>The element tree\<close>

text \<open>
  \<^verbatim>\<open>xml.etree.ElementTree\<close> elements are mutable objects that the converter keeps
  references to (\<^verbatim>\<open>region_info['element']\<close>). The model is a store: the list of all
  elements created so far, an element's address being its index; \<open>children\<close> holds the
  addresses of the sub-elements in document order. \<open>uuid_calls\<close> counts the uuids drawn.
\<close>

record elem =
  tag :: string
  attrib :: "(string \<times> string) list"
  elem_text :: "string option"
  children :: "nat list"

record doc =
  elems :: "elem list"
  uuid_calls :: nat

definition Element :: "string \<Rightarrow> doc" where
  "Element t = \<lparr>elems = [\<lparr>tag = t, attrib = [], elem_text = None, children = []\<rparr>], uuid_calls = 0\<rparr>"

definition SubElement :: "doc \<Rightarrow> nat \<Rightarrow> string \<Rightarrow> doc \<times> nat" where
  "SubElement d parent t =
     (let n = length (elems d);
          p = elems d ! parent
      in (d\<lparr>elems := (elems d)[parent := p\<lparr>children := children p @ [n]\<rparr>]
                        @ [\<lparr>tag = t, attrib = [], elem_text = None, children = []\<rparr>]\<rparr>, n))"

definition set_attr :: "doc \<Rightarrow> nat \<Rightarrow> string \<Rightarrow> string \<Rightarrow> doc" where
  "set_attr d a k v =
     d\<lparr>elems := (elems d)[a := (elems d ! a)\<lparr>attrib := AList.update k v (attrib (elems d ! a))\<rparr>]\<rparr>"

definition set_text :: "doc \<Rightarrow> nat \<Rightarrow> string \<Rightarrow> doc" where
  "set_text d a s = d\<lparr>elems := (elems d)[a := (elems d ! a)\<lparr>elem_text := Some s\<rparr>]\<rparr>"

text \<open>
  The truth value of an element (\<^verbatim>\<open>if best_parent and ...\<close>): an element is true when
  it has sub-elements; \<^verbatim>\<open>None\<close> is false.
\<close>

definition element_truthy :: "doc \<Rightarrow> nat option \<Rightarrow> bool" where
  "element_truthy d e = (case e of None \<Rightarrow> False | Some a \<Rightarrow> children (elems d ! a) \<noteq> [])"

text \<open>\<^verbatim>\<open>_points_to_string\<close> (lines 114-124).\<close>

definition points_to_string :: "point list \<Rightarrow> string" where
  "points_to_string pts = py_join '' '' (map (\<lambda>(x, y). py_str x @ '','' @ py_str y) pts)"

text \<open>\<^verbatim>\<open>_create_page_element\<close> (lines 217-251); it returns the tree and the address of Page.\<close>

definition PAGE_NS :: string where
  "PAGE_NS = ''http://schema.primaresearch.org/PAGE/gts/pagecontent/2019-07-15''"

definition create_page_element :: "world \<Rightarrow> string \<Rightarrow> int \<Rightarrow> int \<Rightarrow> doc \<times> nat" where
  "create_page_element w img_name img_width img_height =
     (let d = Element ''PcGts'';
          d = set_attr d 0 ''xmlns'' PAGE_NS;
          d = set_attr d 0 ''xmlns:xsi'' ''http://www.w3.org/2001/XMLSchema-instance'';
          d = set_attr d 0 ''xsi:schemaLocation''
                (PAGE_NS @ '' http://schema.primaresearch.org/PAGE/gts/pagecontent/2019-07-15/pagecontent.xsd'');
          (d, metadata) = SubElement d 0 ''Metadata'';
          (d, creator) = SubElement d metadata ''Creator'';
          d = set_text d creator ''YoloPageConverter'';
          (d, created) = SubElement d metadata ''Created'';
          d = set_text d created (now_isoformat w 0);
          (d, last_change) = SubElement d metadata ''LastChange'';
          d = set_text d last_change (now_isoformat w 1);
          (d, page) = SubElement d 0 ''Page'';
          d = set_attr d page ''imageFilename'' img_name;
          d = set_attr d page ''imageWidth'' (py_str img_width);
          d = set_attr d page ''imageHeight'' (py_str img_height)
      in (d, page))"

text \<open>
  \<^verbatim>\<open>_add_region\<close> (lines 253-282) and \<^verbatim>\<open>_add_text_line\<close> (lines 284-307). An id that is
  not given is drawn from the uuid generator. \<^verbatim>\<open>if region_type and ...\<close> is false for
  \<^verbatim>\<open>None\<close> and for the empty string.
\<close>

definition add_region ::
  "world \<Rightarrow> doc \<Rightarrow> nat \<Rightarrow> string \<Rightarrow> point list \<Rightarrow> string option \<Rightarrow> string option \<Rightarrow> doc \<times> nat" where
  "add_region w d parent element_type points region_id region_type =
     (let (d, rid) =
            (case region_id of
               Some i \<Rightarrow> (d, i)
             | None \<Rightarrow>
                 (d\<lparr>uuid_calls := Suc (uuid_calls d)\<rparr>,
                  py_lower (remove_all ''Region'' element_type) @ ''_''
                    @ take 8 (uuid4_hex w (uuid_calls d))));
          (d, region) = SubElement d parent element_type;
          d = set_attr d region ''id'' rid;
          d = (case region_type of
                 None \<Rightarrow> d
               | Some t \<Rightarrow>
                   if t \<noteq> [] \<and> element_type = ''TextRegion'' then set_attr d region ''type'' t
                   else d);
          (d, coords) = SubElement d region ''Coords'';
          d = set_attr d coords ''points'' (points_to_string points)
      in (d, region))"

definition add_text_line :: "world \<Rightarrow> doc \<Rightarrow> nat \<Rightarrow> point list \<Rightarrow> string option \<Rightarrow> doc \<times> nat" where
  "add_text_line w d parent points line_id =
     (let (d, lid) =
            (case line_id of
               Some i \<Rightarrow> (d, i)
             | None \<Rightarrow>
                 (d\<lparr>uuid_calls := Suc (uuid_calls d)\<rparr>,
                  ''line_'' @ take 8 (uuid4_hex w (uuid_calls d))));
          (d, text_line) = SubElement d parent ''TextLine'';
          d = set_attr d text_line ''id'' lid;
          (d, coords) = SubElement d text_line ''Coords'';
          d = set_attr d coords ''points'' (points_to_string points)
      in (d, text_line))"

section \<open>The mapping table and the records of a page\<close>

text \<open>
  \<^verbatim>\<open>self.mapping\<close> is the JSON object of the mapping file: class id (as a string) to a
  configuration object. Objects are association lists read with \<^verbatim>\<open>dict.get\<close>; the values
  of a configuration are strings. \<^verbatim>\<open>not element_config\<close> holds for the empty object.
\<close>

type_synonym config = "(string \<times> string) list"

type_synonym mapping = "(string \<times> config) list"

definition dict_get :: "('k \<times> 'v) list \<Rightarrow> 'k \<Rightarrow> 'v \<Rightarrow> 'v" where
  "dict_get d k dflt = (case map_of d k of None \<Rightarrow> dflt | Some v \<Rightarrow> v)"

definition default_mapping :: mapping where
  "default_mapping =
     [(''0'', [(''element'', ''TextLine''), (''parent'', ''TextRegion''), (''parent_type'', ''paragraph'')])]"

text \<open>The dictionaries of the first pass (lines 386-398).\<close>

record line_info =
  l_points :: "point list"
  l_id :: string
  l_config :: config

record region_info =
  r_points :: "point list"
  r_id :: string
  r_type :: "string option"
  r_config :: config
  r_element :: "nat option"

text \<open>
  The state of \<^verbatim>\<open>convert_page\<close> during the first pass: the three lists, the tree, and the
  messages logged at warning level (info and debug messages are not modelled).
\<close>

record pass_state =
  parent_text_regions :: "region_info list"
  child_text_regions :: "region_info list"
  text_lines :: "line_info list"
  tree :: doc
  warnings :: "string list"

section \<open>Parsing a label line\<close>

text \<open>
  The loop of \<^verbatim>\<open>_parse_yolo_label\<close> (lines 86-90) over the tokens after the class id: two
  tokens make a point, a last token without a partner is not read.
\<close>

fun parse_points :: "'f floats \<Rightarrow> string list \<Rightarrow> py_error + ('f \<times> 'f) list" where
  "parse_points fl (a # b # rest) =
     (case to_float fl a of
        Inl e \<Rightarrow> Inl e
      | Inr x \<Rightarrow>
          (case to_float fl b of
             Inl e \<Rightarrow> Inl e
           | Inr y \<Rightarrow>
               (case parse_points fl rest of Inl e \<Rightarrow> Inl e | Inr ps \<Rightarrow> Inr ((x, y) # ps))))"
| "parse_points fl [a] = Inr []"
| "parse_points fl [] = Inr []"

text \<open>\<^verbatim>\<open>_parse_yolo_label\<close> (lines 68-92).\<close>

definition parse_yolo_label :: "'f floats \<Rightarrow> string \<Rightarrow> py_error + (int option \<times> ('f \<times> 'f) list)" where
  "parse_yolo_label fl label_line =
     (let parts = py_split (py_strip label_line) in
      if length parts < 7 then Inr (None, [])
      else
        (case py_int (parts ! 0) of
           Inl e \<Rightarrow> Inl e
         | Inr class_id \<Rightarrow>
             (case parse_points fl (tl parts) of
                Inl e \<Rightarrow> Inl e
              | Inr points \<Rightarrow> Inr (Some class_id, points))))"

text \<open>\<^verbatim>\<open>_denormalize_points\<close> (lines 94-112).\<close>

fun denormalize_points :: "'f floats \<Rightarrow> ('f \<times> 'f) list \<Rightarrow> int \<Rightarrow> int \<Rightarrow> py_error + point list" where
  "denormalize_points fl [] img_width img_height = Inr []"
| "denormalize_points fl ((x, y) # ps) img_width img_height =
     (case to_int fl (mul_int fl x img_width) of
        Inl e \<Rightarrow> Inl e
      | Inr abs_x \<Rightarrow>
          (case to_int fl (mul_int fl y img_height) of
             Inl e \<Rightarrow> Inl e
           | Inr abs_y \<Rightarrow>
               (case denormalize_points fl ps img_width img_height of
                  Inl e \<Rightarrow> Inl e
                | Inr rest \<Rightarrow> Inr ((abs_x, abs_y) # rest))))"

section \<open>First pass: categorise\<close>

definition opaque_types :: "string list" where
  "opaque_types = [''TableRegion'', ''ImageRegion'', ''GraphicRegion'', ''SeparatorRegion'', ''NoiseRegion'']"

definition str_of_class_id :: "int option \<Rightarrow> string" where
  "str_of_class_id c = (case c of None \<Rightarrow> ''None'' | Some i \<Rightarrow> py_str i)"

definition no_mapping_warning :: "int option \<Rightarrow> string" where
  "no_mapping_warning c = ''No mapping found for class ID '' @ str_of_class_id c @ '', skipping''"

text \<open>Lines 374-413 of the loop body: the record with its class id and pixel polygon.\<close>

definition categorize ::
  "world \<Rightarrow> mapping \<Rightarrow> nat \<Rightarrow> nat \<Rightarrow> int option \<Rightarrow> point list \<Rightarrow> pass_state \<Rightarrow> pass_state" where
  "categorize w m page idx class_id abs_points st =
     (let class_id_str = str_of_class_id class_id;
          element_config = dict_get m class_id_str []
      in if element_config = [] then st\<lparr>warnings := warnings st @ [no_mapping_warning class_id]\<rparr>
         else
           (let element_type = dict_get element_config ''element'' ''TextLine'' in
            if element_type = ''TextLine'' then
              st\<lparr>text_lines := text_lines st @
                   [\<lparr>l_points = abs_points, l_id = ''l'' @ fmt04 idx, l_config = element_config\<rparr>]\<rparr>
            else if element_type = ''TextRegion'' then
              (let region_info =
                     \<lparr>r_points = abs_points, r_id = ''r'' @ fmt04 idx,
                      r_type = map_of element_config ''type'', r_config = element_config,
                      r_element = None\<rparr>;
                   parent_setting = dict_get element_config ''parent'' []
               in if parent_setting = ''TextRegion'' then
                    st\<lparr>child_text_regions := child_text_regions st @ [region_info]\<rparr>
                  else st\<lparr>parent_text_regions := parent_text_regions st @ [region_info]\<rparr>)
            else if element_type \<in> set opaque_types then
              st\<lparr>tree := fst (add_region w (tree st) page element_type abs_points
                                (Some (''r'' @ fmt04 idx)) None)\<rparr>
            else st))"

text \<open>The whole loop body (lines 364-413) and the loop over \<^verbatim>\<open>enumerate(lines)\<close>.\<close>

definition first_pass_line ::
  "'f floats \<Rightarrow> world \<Rightarrow> mapping \<Rightarrow> nat \<Rightarrow> int \<Rightarrow> int \<Rightarrow> nat \<Rightarrow> string \<Rightarrow> pass_state
     \<Rightarrow> py_error + pass_state" where
  "first_pass_line fl w m page img_width img_height idx line st =
     (if py_strip line = [] then Inr st
      else
        (case parse_yolo_label fl line of
           Inl e \<Rightarrow> Inl e
         | Inr (class_id, norm_points) \<Rightarrow>
             if norm_points = [] then Inr st
             else
               (case denormalize_points fl norm_points img_width img_height of
                  Inl e \<Rightarrow> Inl e
                | Inr abs_points \<Rightarrow> Inr (categorize w m page idx class_id abs_points st))))"

fun first_pass ::
  "'f floats \<Rightarrow> world \<Rightarrow> mapping \<Rightarrow> nat \<Rightarrow> int \<Rightarrow> int \<Rightarrow> nat \<Rightarrow> string list \<Rightarrow> pass_state
     \<Rightarrow> py_error + pass_state" where
  "first_pass fl w m page img_width img_height idx [] st = Inr st"
| "first_pass fl w m page img_width img_height idx (line # lines) st =
     (case first_pass_line fl w m page img_width img_height idx line st of
        Inl e \<Rightarrow> Inl e
      | Inr st' \<Rightarrow> first_pass fl w m page img_width img_height (Suc idx) lines st')"

section \<open>Second pass: the top-level TextRegions\<close>

text \<open>
  Lines 417-426. The loop stores the new element in each dictionary of
  \<^verbatim>\<open>parent_text_regions\<close> and appends the same dictionary to \<^verbatim>\<open>all_text_regions\<close>: the list
  returned here is both.
\<close>

fun second_pass :: "world \<Rightarrow> nat \<Rightarrow> doc \<Rightarrow> region_info list \<Rightarrow> doc \<times> region_info list" where
  "second_pass w page d [] = (d, [])"
| "second_pass w page d (region_info # rest) =
     (let (d1, region_element) =
            add_region w d page ''TextRegion'' (r_points region_info)
              (Some (r_id region_info)) (r_type region_info);
          (d2, rest') = second_pass w page d1 rest
      in (d2, region_info\<lparr>r_element := Some region_element\<rparr> # rest'))"

section \<open>Third pass: nesting the child TextRegions\<close>

text \<open>
  The loop of \<^verbatim>\<open>_find_best_parent\<close> (lines 198-210), on the pair
  \<open>(best_parent, best_score)\<close>, and the function itself (lines 184-215).
\<close>

fun best_parent_loop ::
  "'p geometry \<Rightarrow> point list \<Rightarrow> region_info list \<Rightarrow> nat option \<times> real
     \<Rightarrow> py_error + (nat option \<times> real)" where
  "best_parent_loop g child_points [] best = Inr best"
| "best_parent_loop g child_points (parent_info # rest) (best_parent, best_score) =
     (case calculate_containment_score g child_points (r_points parent_info) of
        Inl e \<Rightarrow> Inl e
      | Inr score \<Rightarrow>
          if score > best_score then
            best_parent_loop g child_points rest (r_element parent_info, score)
          else best_parent_loop g child_points rest (best_parent, best_score))"

definition find_best_parent ::
  "'p geometry \<Rightarrow> doc \<Rightarrow> point list \<Rightarrow> region_info list \<Rightarrow> real \<Rightarrow> py_error + nat option" where
  "find_best_parent g d child_points potential_parents threshold =
     (case best_parent_loop g child_points potential_parents (None, threshold) of
        Inl e \<Rightarrow> Inl e
      | Inr (best_parent, best_score) \<Rightarrow>
          if element_truthy d best_parent \<and> best_score > threshold then Inr best_parent
          else Inr None)"

text \<open>
  The body of the loop of lines 432-460, for one child: the new tree, the child's
  dictionary with its element, and whether it went to the page level. The threshold is
  the default of \<^verbatim>\<open>_find_best_parent\<close>, 0.5.
\<close>

definition third_pass_child ::
  "'p geometry \<Rightarrow> world \<Rightarrow> nat \<Rightarrow> region_info list \<Rightarrow> doc \<Rightarrow> region_info
     \<Rightarrow> py_error + (doc \<times> region_info \<times> bool)" where
  "third_pass_child g w page parents d child_info =
     (case find_best_parent g d (r_points child_info) parents (1 / 2) of
        Inl e \<Rightarrow> Inl e
      | Inr best_parent \<Rightarrow>
          (case best_parent of
             Some bp \<Rightarrow>
               (let (d1, child_element) =
                      add_region w d bp ''TextRegion'' (r_points child_info)
                        (Some (r_id child_info)) (r_type child_info)
                in Inr (d1, child_info\<lparr>r_element := Some child_element\<rparr>, False))
           | None \<Rightarrow>
               (let (d1, child_element) =
                      add_region w d page ''TextRegion'' (r_points child_info)
                        (Some (r_id child_info)) (r_type child_info)
                in Inr (d1, child_info\<lparr>r_element := Some child_element\<rparr>, True))))"

text \<open>
  The loop: it returns the tree, the children appended to \<^verbatim>\<open>all_text_regions\<close> and the
  ids collected in \<^verbatim>\<open>orphan_child_regions\<close>.
\<close>

fun third_pass ::
  "'p geometry \<Rightarrow> world \<Rightarrow> nat \<Rightarrow> region_info list \<Rightarrow> doc \<Rightarrow> region_info list
     \<Rightarrow> py_error + (doc \<times> region_info list \<times> string list)" where
  "third_pass g w page parents d [] = Inr (d, [], [])"
| "third_pass g w page parents d (child_info # rest) =
     (case third_pass_child g w page parents d child_info of
        Inl e \<Rightarrow> Inl e
      | Inr (d1, child', orphan) \<Rightarrow>
          (case third_pass g w page parents d1 rest of
             Inl e \<Rightarrow> Inl e
           | Inr (d2, children', orphans) \<Rightarrow>
               Inr (d2, child' # children',
                    (if orphan then r_id child_info # orphans else orphans))))"

section \<open>Fourth pass: placing the TextLines\<close>

text \<open>\<^verbatim>\<open>float('inf')\<close> beside the finite areas, with the order \<^verbatim>\<open><\<close> on them.\<close>

datatype xarea = Finite real | Infinity

fun xarea_less :: "xarea \<Rightarrow> xarea \<Rightarrow> bool" where
  "xarea_less (Finite a) (Finite b) = (a < b)"
| "xarea_less (Finite a) Infinity = True"
| "xarea_less Infinity b = False"

definition min_overlap_threshold :: real where
  "min_overlap_threshold = 1 / 10"

text \<open>Lines 479-483 and 494-498: the areas, with their bare \<^verbatim>\<open>except\<close> handlers.\<close>

definition line_area_of :: "'p geometry \<Rightarrow> point list \<Rightarrow> real" where
  "line_area_of g line_points =
     (case Polygon g line_points of
        Inl e \<Rightarrow> 0
      | Inr line_poly \<Rightarrow> if is_valid g line_poly then area g line_poly else 0)"

definition region_area_of :: "'p geometry \<Rightarrow> point list \<Rightarrow> xarea" where
  "region_area_of g region_points =
     (case Polygon g region_points of
        Inl e \<Rightarrow> Infinity
      | Inr region_poly \<Rightarrow>
          if is_valid g region_poly then Finite (area g region_poly) else Infinity)"

text \<open>The inner loop (lines 485-505) on the pair \<open>(best_region, best_region_area)\<close>.\<close>

fun find_region ::
  "'p geometry \<Rightarrow> point list \<Rightarrow> real \<Rightarrow> region_info list \<Rightarrow> nat option \<times> xarea
     \<Rightarrow> py_error + (nat option \<times> xarea)" where
  "find_region g line_points line_area [] best = Inr best"
| "find_region g line_points line_area (region_info # rest) (best_region, best_region_area) =
     (case r_element region_info of
        None \<Rightarrow> find_region g line_points line_area rest (best_region, best_region_area)
      | Some el \<Rightarrow>
          (case calculate_polygon_overlap g line_points (r_points region_info) of
             Inl e \<Rightarrow> Inl e
           | Inr overlap \<Rightarrow>
               if line_area > 0 \<and> overlap > line_area * min_overlap_threshold then
                 (let region_area = region_area_of g (r_points region_info) in
                  if xarea_less region_area best_region_area then
                    find_region g line_points line_area rest (Some el, region_area)
                  else find_region g line_points line_area rest (best_region, best_region_area))
               else find_region g line_points line_area rest (best_region, best_region_area)))"

text \<open>
  The \<^verbatim>\<open>else\<close> branch of lines 510-521: a new TextRegion under Page for a line without a
  region, and the line in it.
\<close>

definition orphan_branch :: "world \<Rightarrow> nat \<Rightarrow> doc \<Rightarrow> nat \<Rightarrow> line_info \<Rightarrow> doc \<times> nat" where
  "orphan_branch w page d orphan_line_counter line_info =
     (let parent_type = dict_get (l_config line_info) ''parent_type'' ''paragraph'';
          (d1, new_region) =
            add_region w d page ''TextRegion'' (l_points line_info)
              (Some (''r_orphan'' @ fmt04 orphan_line_counter)) (Some parent_type);
          (d2, text_line) = add_text_line w d1 new_region (l_points line_info) (Some (l_id line_info))
      in (d2, Suc orphan_line_counter))"

text \<open>
  The body of the loop of lines 469-521 for one line, on the tree and
  \<^verbatim>\<open>orphan_line_counter\<close>.
\<close>

definition fourth_pass_line ::
  "'p geometry \<Rightarrow> world \<Rightarrow> nat \<Rightarrow> region_info list \<Rightarrow> doc \<times> nat \<Rightarrow> line_info
     \<Rightarrow> py_error + (doc \<times> nat)" where
  "fourth_pass_line g w page all_text_regions s line_info =
     (let d = fst s;
          orphan_line_counter = snd s;
          line_points = l_points line_info;
          line_id = l_id line_info;
          line_area = line_area_of g line_points
      in case find_region g line_points line_area all_text_regions (None, Infinity) of
           Inl e \<Rightarrow> Inl e
         | Inr (best_region, best_region_area) \<Rightarrow>
             (case best_region of
                Some br \<Rightarrow>
                  Inr (fst (add_text_line w d br line_points (Some line_id)), orphan_line_counter)
              | None \<Rightarrow> Inr (orphan_branch w page d orphan_line_counter line_info)))"

fun fourth_pass ::
  "'p geometry \<Rightarrow> world \<Rightarrow> nat \<Rightarrow> region_info list \<Rightarrow> doc \<times> nat \<Rightarrow> line_info list
     \<Rightarrow> py_error + (doc \<times> nat)" where
  "fourth_pass g w page all_text_regions s [] = Inr s"
| "fourth_pass g w page all_text_regions s (line_info # rest) =
     (case fourth_pass_line g w page all_text_regions s line_info of
        Inl e \<Rightarrow> Inl e
      | Inr s' \<Rightarrow> fourth_pass g w page all_text_regions s' rest)"

section \<open>The conversion of one page\<close>

text \<open>
  \<^verbatim>\<open>convert_page\<close> (lines 323-540) up to the serialisation of the tree. The label file
  is the list of its lines, or \<open>None\<close> when the path does not exist; the image file is its
  name, width and height, or \<open>None\<close> when the path does not exist. The result is the
  tree, the warnings logged and the final \<^verbatim>\<open>orphan_line_counter\<close>.
\<close>

definition initial_state :: "doc \<Rightarrow> pass_state" where
  "initial_state d =
     \<lparr>parent_text_regions = [], child_text_regions = [], text_lines = [], tree = d, warnings = []\<rparr>"

definition convert_page ::
  "'p geometry \<Rightarrow> 'f floats \<Rightarrow> world \<Rightarrow> mapping \<Rightarrow> string list option
     \<Rightarrow> (string \<times> int \<times> int) option \<Rightarrow> py_error + (doc \<times> string list \<times> nat)" where
  "convert_page g fl w m label_file image_file =
     (case label_file of
        None \<Rightarrow> Inl FileNotFoundError
      | Some lines \<Rightarrow>
          (case image_file of
             None \<Rightarrow> Inl FileNotFoundError
           | Some (img_name, img_width, img_height) \<Rightarrow>
               (let (d0, page) = create_page_element w img_name img_width img_height in
                case first_pass fl w m page img_width img_height 0 lines (initial_state d0) of
                  Inl e \<Rightarrow> Inl e
                | Inr st \<Rightarrow>
                    (let (d1, parents) = second_pass w page (tree st) (parent_text_regions st) in
                     case third_pass g w page parents d1 (child_text_regions st) of
                       Inl e \<Rightarrow> Inl e
                     | Inr (d2, children', orphan_child_regions) \<Rightarrow>
                         (case fourth_pass g w page (parents @ children') (d2, 0) (text_lines st) of
                            Inl e \<Rightarrow> Inl e
                          | Inr (d3, orphan_line_counter) \<Rightarrow>
                              Inr (d3, warnings st, orphan_line_counter))))))"

section \<open>Instances of the collaborators for the examples\<close>

text \<open>
  The examples below are pages of axis-parallel rectangles, each listed corner by
  corner. On such polygons the geometry library computes what \<open>box_geometry\<close> does: a
  polygon is kept as its bounding box \<open>(x0, y0, x1, y1)\<close>, it is valid when the box has
  positive width and height, and the intersection of two boxes is a box.
\<close>

definition bbox :: "point list \<Rightarrow> int \<times> int \<times> int \<times> int" where
  "bbox pts =
     (fold min (map fst pts) (fst (hd pts)), fold min (map snd pts) (snd (hd pts)),
      fold max (map fst pts) (fst (hd pts)), fold max (map snd pts) (snd (hd pts)))"

definition box_geometry :: "(int \<times> int \<times> int \<times> int) geometry" where
  "box_geometry =
     \<lparr>Polygon = (\<lambda>pts. if length pts < 3 then Inl ValueError else Inr (bbox pts)),
      is_valid = (\<lambda>(x0, y0, x1, y1). x0 < x1 \<and> y0 < y1),
      area = (\<lambda>(x0, y0, x1, y1). real_of_int ((x1 - x0) * (y1 - y0))),
      intersection_area = (\<lambda>(a0, b0, a1, b1) (c0, d0, c1, d1).
         Inr (real_of_int (max 0 (min a1 c1 - max a0 c0) * max 0 (min b1 d1 - max b0 d0))))\<rparr>"

text \<open>
  The coordinates of the examples are plain decimal literals whose products with the
  image size are whole numbers, where floating-point arithmetic is exact: \<open>dec_floats\<close>
  reads an optional minus sign, digits and an optional fraction as the exact number, and
  \<open>to_int\<close> truncates towards zero.
\<close>

definition digits_value :: "string \<Rightarrow> nat" where
  "digits_value s = fold (\<lambda>c acc. 10 * acc + digit_val c) s 0"

definition dec_unsigned :: "string \<Rightarrow> real option" where
  "dec_unsigned s =
     (let ip = takeWhile is_digit s;
          rest = dropWhile is_digit s
      in if rest = [] then (if ip = [] then None else Some (real (digits_value ip)))
         else if hd rest = CHR ''.'' \<and> list_all is_digit (tl rest) \<and> (ip \<noteq> [] \<or> tl rest \<noteq> [])
           then Some (real (digits_value ip) + real (digits_value (tl rest)) / 10 ^ length (tl rest))
         else None)"

definition dec_float :: "string \<Rightarrow> py_error + real" where
  "dec_float s =
     (case s of
        [] \<Rightarrow> Inl ValueError
      | c # cs \<Rightarrow>
          if c = CHR ''-'' then
            (case dec_unsigned cs of None \<Rightarrow> Inl ValueError | Some v \<Rightarrow> Inr (- v))
          else (case dec_unsigned s of None \<Rightarrow> Inl ValueError | Some v \<Rightarrow> Inr v))"

definition dec_floats :: "real floats" where
  "dec_floats =
     \<lparr>to_float = dec_float,
      mul_int = (\<lambda>x n. x * real_of_int n),
      to_int = (\<lambda>x. Inr (if 0 \<le> x then \<lfloor>x\<rfloor> else \<lceil>x\<rceil>))\<rparr>"

definition example_world :: world where
  "example_world = \<lparr>now_isoformat = (\<lambda>k. ''2024-01-01T00:00:00''), uuid4_hex = (\<lambda>k. ''00000000'')\<rparr>"

section \<open>Notions used in the statements\<close>

text \<open>
  What \<open>add_region\<close> and \<open>add_text_line\<close> leave in the tree: the parent gets one more
  child, and two elements are appended, the region (or line) with its attributes and its
  Coords.
\<close>

definition region_attrib :: "string \<Rightarrow> string \<Rightarrow> string option \<Rightarrow> (string \<times> string) list" where
  "region_attrib element_type rid region_type =
     (''id'', rid) #
     (case region_type of
        None \<Rightarrow> []
      | Some t \<Rightarrow> if t \<noteq> [] \<and> element_type = ''TextRegion'' then [(''type'', t)] else [])"

definition coords_elem :: "point list \<Rightarrow> elem" where
  "coords_elem pts =
     \<lparr>tag = ''Coords'', attrib = [(''points'', points_to_string pts)], elem_text = None, children = []\<rparr>"

definition append_child :: "elem list \<Rightarrow> nat \<Rightarrow> nat \<Rightarrow> elem list" where
  "append_child es parent n = es[parent := (es ! parent)\<lparr>children := children (es ! parent) @ [n]\<rparr>]"

text \<open>
  The regions of a list all have an element of the tree, and that element has
  sub-elements (its Coords at least), so it counts as true.
\<close>

definition regions_ok :: "doc \<Rightarrow> region_info list \<Rightarrow> bool" where
  "regions_ok d rs =
     (\<forall>r\<in>set rs. \<exists>el. r_element r = Some el \<and> el < length (elems d) \<and> children (elems d ! el) \<noteq> [])"

text \<open>
  A small tree for the examples: Page at address 0 with two top-level TextRegions (at 1
  and 3), and the dictionaries of these two regions and of a child region. The child
  (0,0)-(4,4) lies to one half in the first region and to three quarters in the second.
\<close>

definition example_tree :: doc where
  "example_tree =
     \<lparr>elems =
        [\<lparr>tag = ''Page'', attrib = [], elem_text = None, children = [1, 3]\<rparr>,
         \<lparr>tag = ''TextRegion'', attrib = [(''id'', ''r0000'')], elem_text = None, children = [2]\<rparr>,
         coords_elem [(2, 0), (6, 0), (6, 4), (2, 4)],
         \<lparr>tag = ''TextRegion'', attrib = [(''id'', ''r0001'')], elem_text = None, children = [4]\<rparr>,
         coords_elem [(1, 0), (5, 0), (5, 4), (1, 4)]],
      uuid_calls = 0\<rparr>"

definition example_parent1 :: region_info where
  "example_parent1 =
     \<lparr>r_points = [(2, 0), (6, 0), (6, 4), (2, 4)], r_id = ''r0000'', r_type = None,
      r_config = [(''element'', ''TextRegion'')], r_element = Some 1\<rparr>"

definition example_parent2 :: region_info where
  "example_parent2 =
     \<lparr>r_points = [(1, 0), (5, 0), (5, 4), (1, 4)], r_id = ''r0001'', r_type = None,
      r_config = [(''element'', ''TextRegion'')], r_element = Some 3\<rparr>"

definition example_child :: region_info where
  "example_child =
     \<lparr>r_points = [(0, 0), (4, 0), (4, 4), (0, 4)], r_id = ''r0002'', r_type = None,
      r_config = [(''element'', ''TextRegion''), (''parent'', ''TextRegion'')], r_element = None\<rparr>"

text \<open>
  A region qualifies as the container of a line when it has an element and its overlap
  with the line exceeds one tenth of the line's own area.
\<close>

definition qualifies :: "'p geometry \<Rightarrow> point list \<Rightarrow> region_info \<Rightarrow> bool" where
  "qualifies g line_points r =
     (r_element r \<noteq> None
      \<and> overlap_val g line_points (r_points r) > polygon_area g line_points * (1 / 10))"

text \<open>
  A second tree for the examples: Page at address 0, the region A = (0,0)-(10,10) at
  address 1 and, nested in it, the region B = (2,2)-(6,6) at address 3; and a line
  (3,3)-(5,4) that lies inside B.
\<close>

definition nested_tree :: doc where
  "nested_tree =
     \<lparr>elems =
        [\<lparr>tag = ''Page'', attrib = [], elem_text = None, children = [1]\<rparr>,
         \<lparr>tag = ''TextRegion'', attrib = [(''id'', ''r0000'')], elem_text = None, children = [2, 3]\<rparr>,
         coords_elem [(0, 0), (10, 0), (10, 10), (0, 10)],
         \<lparr>tag = ''TextRegion'', attrib = [(''id'', ''r0001'')], elem_text = None, children = [4]\<rparr>,
         coords_elem [(2, 2), (6, 2), (6, 6), (2, 6)]],
      uuid_calls = 0\<rparr>"

definition region_A :: region_info where
  "region_A =
     \<lparr>r_points = [(0, 0), (10, 0), (10, 10), (0, 10)], r_id = ''r0000'', r_type = None,
      r_config = [(''element'', ''TextRegion'')], r_element = Some 1\<rparr>"

definition region_B :: region_info where
  "region_B =
     \<lparr>r_points = [(2, 2), (6, 2), (6, 6), (2, 6)], r_id = ''r0001'', r_type = None,
      r_config = [(''element'', ''TextRegion''), (''parent'', ''TextRegion'')], r_element = Some 3\<rparr>"

definition inner_line :: line_info where
  "inner_line =
     \<lparr>l_points = [(3, 3), (5, 3), (5, 4), (3, 4)], l_id = ''l0002'',
      l_config = [(''element'', ''TextLine'')]\<rparr>"

text \<open>
  One \<^verbatim>\<open>SubElement\<close> with the attributes set afterwards, on the list of elements: the new
  element \<open>e\<close> is appended and its address is added to the children of \<open>parent\<close>.
\<close>

definition add_node :: "elem list \<Rightarrow> nat \<Rightarrow> elem \<Rightarrow> elem list" where
  "add_node es parent e = append_child es parent (length es) @ [e]"

definition region_elem :: "string \<Rightarrow> string \<Rightarrow> string option \<Rightarrow> elem" where
  "region_elem element_type rid region_type =
     \<lparr>tag = element_type, attrib = region_attrib element_type rid region_type,
      elem_text = None, children = []\<rparr>"

definition line_elem :: "string \<Rightarrow> elem" where
  "line_elem lid = \<lparr>tag = ''TextLine'', attrib = [(''id'', lid)], elem_text = None, children = []\<rparr>"

text \<open>
  The nodes of the tree that stand for records: TextLines, TextRegions and the five other
  region types. \<open>node_count\<close> and \<open>line_count\<close> count them in a tree.
\<close>

definition node_tags :: "string list" where
  "node_tags = ''TextLine'' # ''TextRegion'' # opaque_types"

definition node_count :: "doc \<Rightarrow> nat" where
  "node_count d = length (filter (\<lambda>t. t \<in> set node_tags) (map tag (elems d)))"

definition line_count :: "doc \<Rightarrow> nat" where
  "line_count d = length (filter (\<lambda>t. t = ''TextLine'') (map tag (elems d)))"

text \<open>
  The store is a tree: every address in a list of children is an address of the store and
  greater than the parent's, the root (address 0) occurs in no list of children, and every
  other address occurs exactly once in exactly one of the lists.
\<close>

definition owner_count :: "elem list \<Rightarrow> nat \<Rightarrow> nat" where
  "owner_count es k = sum_list (map (\<lambda>e. count_list (children e) k) es)"

definition tree_shaped :: "doc \<Rightarrow> bool" where
  "tree_shaped d =
     ((\<forall>p<length (elems d). \<forall>c\<in>set (children (elems d ! p)). p < c \<and> c < length (elems d))
      \<and> (\<forall>k<length (elems d). owner_count (elems d) k = (if k = 0 then 0 else 1)))"

text \<open>
  The label lines that are records with a recognised element type: at least 7 tokens, a
  class id with a non-empty entry in the mapping table, and an element type (TextLine when
  the entry names none) among the seven types the first pass handles. \<open>leaf_line\<close>: the
  element type is TextLine.
\<close>

definition element_type_of :: "mapping \<Rightarrow> string \<Rightarrow> string option" where
  "element_type_of m line =
     (let parts = py_split (py_strip line) in
      if length parts < 7 then None
      else
        (case py_int (parts ! 0) of
           Inl e \<Rightarrow> None
         | Inr c \<Rightarrow>
             (let element_config = dict_get m (py_str c) [] in
              if element_config = [] then None
              else Some (dict_get element_config ''element'' ''TextLine''))))"

definition recognised_line :: "mapping \<Rightarrow> string \<Rightarrow> bool" where
  "recognised_line m line =
     (case element_type_of m line of None \<Rightarrow> False | Some t \<Rightarrow> t \<in> set node_tags)"

definition leaf_line :: "mapping \<Rightarrow> string \<Rightarrow> bool" where
  "leaf_line m line = (element_type_of m line = Some ''TextLine'')"

text \<open>
  The tree with the text of the elements at addresses 3 and 4 (Created and LastChange)
  replaced: two trees with the same image under \<open>retimed\<close> differ in these two timestamps
  at most.
\<close>

definition retimed :: "string \<Rightarrow> string \<Rightarrow> doc \<Rightarrow> doc" where
  "retimed a b d = set_text (set_text d 3 a) 4 b"

text \<open>
  During the first pass a record is either in one of the three lists or already a node
  of the tree (the other region types): \<open>pending_nodes\<close> counts both, \<open>pending_lines\<close> the
  TextLines among them.
\<close>

definition pending_nodes :: "pass_state \<Rightarrow> nat" where
  "pending_nodes st =
     length (parent_text_regions st) + length (child_text_regions st) + length (text_lines st)
       + node_count (tree st)"

definition pending_lines :: "pass_state \<Rightarrow> nat" where
  "pending_lines st = length (text_lines st) + line_count (tree st)"

text \<open>
  The six elements that \<open>create_page_element\<close> builds: PcGts, Metadata, Creator, Created,
  LastChange and Page (at address 5, still without children).
\<close>

definition page_elems :: "world \<Rightarrow> string \<Rightarrow> int \<Rightarrow> int \<Rightarrow> elem list" where
  "page_elems w img_name img_width img_height =
     [\<lparr>tag = ''PcGts'',
       attrib =
         [(''xmlns'', PAGE_NS),
          (''xmlns:xsi'', ''http://www.w3.org/2001/XMLSchema-instance''),
          (''xsi:schemaLocation'',
           PAGE_NS @ '' http://schema.primaresearch.org/PAGE/gts/pagecontent/2019-07-15/pagecontent.xsd'')],
       elem_text = None, children = [1, 5]\<rparr>,
      \<lparr>tag = ''Metadata'', attrib = [], elem_text = None, children = [2, 3, 4]\<rparr>,
      \<lparr>tag = ''Creator'', attrib = [], elem_text = Some ''YoloPageConverter'', children = []\<rparr>,
      \<lparr>tag = ''Created'', attrib = [], elem_text = Some (now_isoformat w 0), children = []\<rparr>,
      \<lparr>tag = ''LastChange'', attrib = [], elem_text = Some (now_isoformat w 1), children = []\<rparr>,
      \<lparr>tag = ''Page'',
       attrib =
         [(''imageFilename'', img_name), (''imageWidth'', py_str img_width),
          (''imageHeight'', py_str img_height)],
       elem_text = None, children = []\<rparr>]"

text \<open>
  Two pages for the examples, both of one label line of class 0 on a 100 x 100 image: with
  the first mapping the class is a TextLine whose \<^verbatim>\<open>parent_type\<close> is the empty string, with
  the second its element type is MathsRegion. \<open>untyped_orphan_tree\<close> is the tree of the
  first page.
\<close>

definition example_label_line :: string where
  "example_label_line = ''0 0.25 0.25 0.5 0.25 0.5 0.5 0.25 0.5''"

definition untyped_mapping :: mapping where
  "untyped_mapping = [(''0'', [(''element'', ''TextLine''), (''parent_type'', '''')])]"

definition maths_mapping :: mapping where
  "maths_mapping = [(''0'', [(''element'', ''MathsRegion'')])]"

definition untyped_orphan_tree :: doc where
  "untyped_orphan_tree =
     \<lparr>elems = append_child (page_elems example_world ''a.png'' 100 100) 5 6 @
        [\<lparr>tag = ''TextRegion'', attrib = [(''id'', ''r_orphan0000'')], elem_text = None,
          children = [7, 8]\<rparr>,
         coords_elem [(25, 25), (50, 25), (50, 50), (25, 50)],
         \<lparr>tag = ''TextLine'', attrib = [(''id'', ''l0000'')], elem_text = None, children = [9]\<rparr>,
         coords_elem [(25, 25), (50, 25), (50, 50), (25, 50)]],
      uuid_calls = 0\<rparr>"

text \<open>A line of the second example tree that lies outside both regions.\<close>

definition outer_line :: line_info where
  "outer_line =
     \<lparr>l_points = [(20, 20), (30, 20), (30, 25), (20, 25)], l_id = ''l0003'',
      l_config = [(''element'', ''TextLine'')]\<rparr>"

text \<open>
  A library in which the area of an intersection comes out one unit in the last place
  above the area of the first polygon, as rounding in the computation of the overlay can
  make it: every point list is a valid polygon of area 1, and every intersection has the
  area of the next double after 1.
\<close>

definition inexact_geometry :: "(point list) geometry" where
  "inexact_geometry =
     \<lparr>Polygon = Inr, is_valid = (\<lambda>p. True), area = (\<lambda>p. 1),
      intersection_area = (\<lambda>p q. Inr (1 + 1 / 2 ^ 52))\<rparr>"

text \<open>
  The second example tree after the line has been placed in B, and after a line without
  area, \<open>flat_line\<close>, has been given a region of its own.
\<close>

definition placed_tree :: doc where
  "placed_tree =
     \<lparr>elems =
        [\<lparr>tag = ''Page'', attrib = [], elem_text = None, children = [1]\<rparr>,
         \<lparr>tag = ''TextRegion'', attrib = [(''id'', ''r0000'')], elem_text = None, children = [2, 3]\<rparr>,
         coords_elem [(0, 0), (10, 0), (10, 10), (0, 10)],
         \<lparr>tag = ''TextRegion'', attrib = [(''id'', ''r0001'')], elem_text = None, children = [4, 5]\<rparr>,
         coords_elem [(2, 2), (6, 2), (6, 6), (2, 6)],
         \<lparr>tag = ''TextLine'', attrib = [(''id'', ''l0002'')], elem_text = None, children = [6]\<rparr>,
         coords_elem [(3, 3), (5, 3), (5, 4), (3, 4)]],
      uuid_calls = 0\<rparr>"

definition flat_line :: line_info where
  "flat_line =
     \<lparr>l_points = [(3, 3), (5, 3), (5, 3), (3, 3)], l_id = ''l0004'',
      l_config = [(''element'', ''TextLine'')]\<rparr>"

definition flat_orphan_tree :: doc where
  "flat_orphan_tree =
     \<lparr>elems =
        [\<lparr>tag = ''Page'', attrib = [], elem_text = None, children = [1, 5]\<rparr>,
         \<lparr>tag = ''TextRegion'', attrib = [(''id'', ''r0000'')], elem_text = None, children = [2, 3]\<rparr>,
         coords_elem [(0, 0), (10, 0), (10, 10), (0, 10)],
         \<lparr>tag = ''TextRegion'', attrib = [(''id'', ''r0001'')], elem_text = None, children = [4]\<rparr>,
         coords_elem [(2, 2), (6, 2), (6, 6), (2, 6)],
         \<lparr>tag = ''TextRegion'', attrib = [(''id'', ''r_orphan0000''), (''type'', ''paragraph'')],
          elem_text = None, children = [6, 7]\<rparr>,
         coords_elem [(3, 3), (5, 3), (5, 3), (3, 3)],
         \<lparr>tag = ''TextLine'', attrib = [(''id'', ''l0004'')], elem_text = None, children = [8]\<rparr>,
         coords_elem [(3, 3), (5, 3), (5, 3), (3, 3)]],
      uuid_calls = 0\<rparr>"

text \<open>
  The page of the examples after the second pass has made the two example parents its
  top-level regions: they are the elements at addresses 6 and 8.
\<close>

definition two_regions_tree :: doc where
  "two_regions_tree =
     \<lparr>elems = append_child (append_child (page_elems example_world ''a.png'' 100 100) 5 6) 5 8 @
        [\<lparr>tag = ''TextRegion'', attrib = [(''id'', ''r0000'')], elem_text = None, children = [7]\<rparr>,
         coords_elem [(2, 0), (6, 0), (6, 4), (2, 4)],
         \<lparr>tag = ''TextRegion'', attrib = [(''id'', ''r0001'')], elem_text = None, children = [9]\<rparr>,
         coords_elem [(1, 0), (5, 0), (5, 4), (1, 4)]],
      uuid_calls = 0\<rparr>"

section \<open>The nodes of a tree and the nodes expected for a page\<close>

text \<open>
  What identifies a node of the tree: its tag, its attributes, and the attributes of its
  first sub-element (the Coords with the points). \<open>nodes_of\<close> lists the nodes of a tree in
  the order of their addresses.
\<close>

type_synonym node = "string \<times> (string \<times> string) list \<times> (string \<times> string) list"

definition node_at :: "elem list \<Rightarrow> nat \<Rightarrow> node" where
  "node_at es a =
     (tag (es ! a), attrib (es ! a),
      (case children (es ! a) of [] \<Rightarrow> [] | c # cs \<Rightarrow> attrib (es ! c)))"

definition nodes_of :: "doc \<Rightarrow> node list" where
  "nodes_of d =
     map (node_at (elems d))
       (filter (\<lambda>a. tag (elems d ! a) \<in> set node_tags) [0..<length (elems d)])"

definition points_attrib :: "point list \<Rightarrow> (string \<times> string) list" where
  "points_attrib pts = [(''points'', points_to_string pts)]"

text \<open>
  The node expected for the label line at position \<open>idx\<close> of the label file: none unless
  the line is a record with a recognised element type; else a node of that type, with the
  id made from the position (\<^verbatim>\<open>l0007\<close> for a TextLine, \<^verbatim>\<open>r0007\<close> for a region), the type
  attribute of the mapping entry on a TextRegion when it is not empty, and the points of
  the record in pixels.
\<close>

definition record_config :: "mapping \<Rightarrow> string \<Rightarrow> config" where
  "record_config m line =
     (case py_int (py_split (py_strip line) ! 0) of
        Inl e \<Rightarrow> []
      | Inr c \<Rightarrow> dict_get m (py_str c) [])"

definition record_points :: "'f floats \<Rightarrow> int \<Rightarrow> int \<Rightarrow> string \<Rightarrow> point list" where
  "record_points fl iw ih line =
     (case parse_yolo_label fl line of
        Inl e \<Rightarrow> []
      | Inr (c, pts) \<Rightarrow> (case denormalize_points fl pts iw ih of Inl e \<Rightarrow> [] | Inr ps \<Rightarrow> ps))"

definition expected_node :: "'f floats \<Rightarrow> mapping \<Rightarrow> int \<Rightarrow> int \<Rightarrow> nat \<Rightarrow> string \<Rightarrow> node list" where
  "expected_node fl m iw ih idx line =
     (case element_type_of m line of
        None \<Rightarrow> []
      | Some t \<Rightarrow>
          if t \<notin> set node_tags then []
          else
            [(t,
              (if t = ''TextLine'' then [(''id'', ''l'' @ fmt04 idx)]
               else region_attrib t (''r'' @ fmt04 idx) (map_of (record_config m line) ''type'')),
              points_attrib (record_points fl iw ih line))])"

definition expected_nodes :: "'f floats \<Rightarrow> mapping \<Rightarrow> int \<Rightarrow> int \<Rightarrow> nat \<Rightarrow> string list \<Rightarrow> node list" where
  "expected_nodes fl m iw ih idx lines =
     concat (map (\<lambda>(i, line). expected_node fl m iw ih i line) (enumerate idx lines))"

text \<open>
  The warning expected for a label line: one when the line is a record (7 tokens or more)
  whose class id has no entry, or an empty entry, in the mapping table.
\<close>

definition expected_warning :: "mapping \<Rightarrow> string \<Rightarrow> string list" where
  "expected_warning m line =
     (let parts = py_split (py_strip line) in
      if length parts < 7 then []
      else
        (case py_int (parts ! 0) of
           Inl e \<Rightarrow> []
         | Inr c \<Rightarrow> if dict_get m (py_str c) [] = [] then [no_mapping_warning (Some c)] else []))"

text \<open>
  The nodes that stand for the dictionaries of the first pass, and the TextRegion made for
  the \<open>k\<close>-th line without a region.
\<close>

definition line_node :: "line_info \<Rightarrow> node" where
  "line_node l = (''TextLine'', [(''id'', l_id l)], points_attrib (l_points l))"

definition region_node :: "region_info \<Rightarrow> node" where
  "region_node r =
     (''TextRegion'', region_attrib ''TextRegion'' (r_id r) (r_type r), points_attrib (r_points r))"

definition orphan_node :: "nat \<Rightarrow> line_info \<Rightarrow> node" where
  "orphan_node k l =
     (''TextRegion'',
      region_attrib ''TextRegion'' (''r_orphan'' @ fmt04 k)
        (Some (dict_get (l_config l) ''parent_type'' ''paragraph'')),
      points_attrib (l_points l))"

text \<open>Every node of the tree has a first sub-element in the tree.\<close>

definition nodes_have_coords :: "doc \<Rightarrow> bool" where
  "nodes_have_coords d =
     (\<forall>a<length (elems d). tag (elems d ! a) \<in> set node_tags \<longrightarrow>
        (\<exists>c cs. children (elems d ! a) = c # cs \<and> c < length (elems d)))"

text \<open>
  During the first pass the nodes of a page are those already in the tree and those that
  the dictionaries of the three lists stand for.
\<close>

definition pending_node_list :: "pass_state \<Rightarrow> node list" where
  "pending_node_list st =
     nodes_of (tree st) @ map region_node (parent_text_regions st)
       @ map region_node (child_text_regions st) @ map line_node (text_lines st)"

text \<open>
  A page of seven label lines on a 100 x 100 image, with a mapping of four classes: a
  top-level TextRegion, a TextLine inside it, a TableRegion, a record of a class mapped to
  MathsRegion, a record of class 9, which has no entry, a line of two tokens, and a
  TextLine outside every region. \<open>example_page_tree\<close> is the tree of that page: the
  TableRegion at address 6, the TextRegion at 8 with the first TextLine at 10, and the
  region made for the second TextLine at 12 with that line at 14.
\<close>

definition example_mapping :: mapping where
  "example_mapping =
     [(''0'', [(''element'', ''TextLine'')]),
      (''1'', [(''element'', ''TextRegion''), (''type'', ''paragraph'')]),
      (''3'', [(''element'', ''TableRegion'')]),
      (''4'', [(''element'', ''MathsRegion'')])]"

definition example_page_lines :: "string list" where
  "example_page_lines =
     [''1 0.25 0.25 0.5 0.25 0.5 0.5 0.25 0.5'',
      ''0 0.25 0.25 0.5 0.25 0.5 0.5 0.25 0.5'',
      ''3 0.25 0.25 0.5 0.25 0.5 0.5 0.25 0.5'',
      ''4 0.25 0.25 0.5 0.25 0.5 0.5 0.25 0.5'',
      ''9 0.25 0.25 0.5 0.25 0.5 0.5 0.25 0.5'',
      ''0 0.5'',
      ''0 0.75 0.75 1 0.75 1 1 0.75 1'']"

definition example_page_tree :: doc where
  "example_page_tree =
     \<lparr>elems =
        append_child (append_child (append_child
           (page_elems example_world ''a.png'' 100 100) 5 6) 5 8) 5 12 @
        [\<lparr>tag = ''TableRegion'', attrib = [(''id'', ''r0002'')], elem_text = None, children = [7]\<rparr>,
         coords_elem [(25, 25), (50, 25), (50, 50), (25, 50)],
         \<lparr>tag = ''TextRegion'', attrib = [(''id'', ''r0000''), (''type'', ''paragraph'')],
          elem_text = None, children = [9, 10]\<rparr>,
         coords_elem [(25, 25), (50, 25), (50, 50), (25, 50)],
         \<lparr>tag = ''TextLine'', attrib = [(''id'', ''l0001'')], elem_text = None, children = [11]\<rparr>,
         coords_elem [(25, 25), (50, 25), (50, 50), (25, 50)],
         \<lparr>tag = ''TextRegion'', attrib = [(''id'', ''r_orphan0000''), (''type'', ''paragraph'')],
          elem_text = None, children = [13, 14]\<rparr>,
         coords_elem [(75, 75), (100, 75), (100, 100), (75, 100)],
         \<lparr>tag = ''TextLine'', attrib = [(''id'', ''l0006'')], elem_text = None, children = [15]\<rparr>,
         coords_elem [(75, 75), (100, 75), (100, 100), (75, 100)]],
      uuid_calls = 0\<rparr>"

section \<open>Properties of the geometric scores\<close>

lemma overlap_Inr: "calculate_polygon_overlap g a b = Inr (overlap_val g a b)"
  by (simp add: overlap_val_def calculate_polygon_overlap_def split: sum.splits)

lemma containment_Inr: "calculate_containment_score g a b = Inr (containment_val g a b)"
  by (simp add: containment_val_def calculate_containment_score_def split: sum.splits)

lemma overlap_val_invalid:
  "invalid_polygon g a \<or> invalid_polygon g b \<Longrightarrow> overlap_val g a b = 0"
  by (auto simp: overlap_val_def calculate_polygon_overlap_def overlap_try_def invalid_polygon_def
      split: sum.splits)

lemma containment_val_invalid:
  "invalid_polygon g a \<or> invalid_polygon g b \<Longrightarrow> containment_val g a b = 0"
  by (auto simp: containment_val_def calculate_containment_score_def containment_try_def
      invalid_polygon_def split: sum.splits)

lemma containment_val_no_area: "\<not> 0 < polygon_area g a \<Longrightarrow> containment_val g a b = 0"
  by (auto simp: containment_val_def calculate_containment_score_def containment_try_def
      polygon_area_def split: sum.splits)

lemma scores_of_valid:
  assumes "Polygon g a = Inr pa" "Polygon g b = Inr pb" "is_valid g pa" "is_valid g pb"
  shows "case intersection_area g pa pb of
           Inl e \<Rightarrow> calculate_polygon_overlap g a b = Inr 0
                    \<and> calculate_containment_score g a b = Inr 0
         | Inr v \<Rightarrow> calculate_polygon_overlap g a b = Inr v
                    \<and> calculate_containment_score g a b
                        = Inr (if 0 < area g pa then v / area g pa else 0)"
  using assms
  by (simp add: calculate_polygon_overlap_def overlap_try_def calculate_containment_score_def
      containment_try_def split: sum.splits)




section \<open>The element tree after adding a region or a line\<close>

lemma length_append_child [simp]: "length (append_child es p n) = length es"
  by (simp add: append_child_def)

lemma add_region_Some:
  "add_region w d parent et pts (Some i) rt =
     (d\<lparr>elems := append_child (elems d) parent (length (elems d))
          @ [\<lparr>tag = et, attrib = region_attrib et i rt, elem_text = None,
               children = [Suc (length (elems d))]\<rparr>,
             coords_elem pts]\<rparr>,
      length (elems d))"
  by (cases rt)
     (simp_all add: add_region_def SubElement_def set_attr_def Let_def region_attrib_def
       coords_elem_def append_child_def nth_append list_update_append)

lemma add_text_line_Some:
  "add_text_line w d parent pts (Some i) =
     (d\<lparr>elems := append_child (elems d) parent (length (elems d))
          @ [\<lparr>tag = ''TextLine'', attrib = [(''id'', i)], elem_text = None,
               children = [Suc (length (elems d))]\<rparr>,
             coords_elem pts]\<rparr>,
      length (elems d))"
  by (simp_all add: add_text_line_def SubElement_def set_attr_def Let_def
       coords_elem_def append_child_def nth_append list_update_append)

section \<open>The third pass\<close>

lemma best_parent_loop_none:
  "\<forall>p\<in>set ps. containment_val g c (r_points p) \<le> bs \<Longrightarrow>
     best_parent_loop g c ps (bp, bs) = Inr (bp, bs)"
  by (induction ps) (simp_all add: containment_Inr)

lemma best_parent_loop_first_max:
  "\<lbrakk>bs < containment_val g c (r_points p);
    \<forall>q\<in>set pre. containment_val g c (r_points q) < containment_val g c (r_points p);
    \<forall>q\<in>set post. containment_val g c (r_points q) \<le> containment_val g c (r_points p)\<rbrakk>
   \<Longrightarrow> best_parent_loop g c (pre @ p # post) (bp, bs)
         = Inr (r_element p, containment_val g c (r_points p))"
proof (induction pre arbitrary: bp bs)
  case Nil
  then show ?case by (simp add: containment_Inr best_parent_loop_none)
next
  case (Cons q pre)
  then show ?case by (simp add: containment_Inr)
qed

lemma first_max_exists:
  fixes f :: "'a \<Rightarrow> real"
  shows "\<exists>p\<in>set ps. b < f p \<Longrightarrow>
     \<exists>pre p post. ps = pre @ p # post \<and> b < f p
        \<and> (\<forall>q\<in>set pre. f q < f p) \<and> (\<forall>q\<in>set post. f q \<le> f p)"
proof (induction ps arbitrary: b)
  case Nil
  then show ?case by simp
next
  case (Cons x xs)
  show ?case
  proof (cases "\<exists>p\<in>set xs. max b (f x) < f p")
    case True
    from Cons.IH[OF True] obtain pre p post where
      s: "xs = pre @ p # post" "max b (f x) < f p"
         "\<forall>q\<in>set pre. f q < f p" "\<forall>q\<in>set post. f q \<le> f p"
      by blast
    have "x # xs = (x # pre) @ p # post \<and> b < f p
        \<and> (\<forall>q\<in>set (x # pre). f q < f p) \<and> (\<forall>q\<in>set post. f q \<le> f p)"
      using s by auto
    then show ?thesis by blast
  next
    case False
    then have le: "\<forall>p\<in>set xs. f p \<le> max b (f x)" by (auto simp: not_less)
    from Cons.prems le have bx: "b < f x" by (auto simp: max_def split: if_splits)
    with le have "\<forall>q\<in>set xs. f q \<le> f x" by (auto simp: max_def split: if_splits)
    with bx have "x # xs = [] @ x # xs \<and> b < f x
        \<and> (\<forall>q\<in>set []. f q < f x) \<and> (\<forall>q\<in>set xs. f q \<le> f x)"
      by simp
    then show ?thesis by blast
  qed
qed

lemma find_best_parent_none:
  "\<forall>p\<in>set ps. containment_val g c (r_points p) \<le> t \<Longrightarrow> find_best_parent g d c ps t = Inr None"
  by (simp add: find_best_parent_def best_parent_loop_none)

lemma find_best_parent_first_max:
  "\<lbrakk>t < containment_val g c (r_points p);
    \<forall>q\<in>set pre. containment_val g c (r_points q) < containment_val g c (r_points p);
    \<forall>q\<in>set post. containment_val g c (r_points q) \<le> containment_val g c (r_points p);
    element_truthy d (r_element p)\<rbrakk>
   \<Longrightarrow> find_best_parent g d c (pre @ p # post) t = Inr (r_element p)"
  by (simp add: find_best_parent_def best_parent_loop_first_max)

lemma example_scores:
  "containment_val box_geometry (r_points example_child) (r_points example_parent1) = 1 / 2"
  "containment_val box_geometry (r_points example_child) (r_points example_parent2) = 3 / 4"
  by (simp_all add: containment_val_def calculate_containment_score_def containment_try_def
      box_geometry_def bbox_def example_child_def example_parent1_def example_parent2_def)

section \<open>The fourth pass\<close>

lemma line_area_of_valid:
  "\<not> invalid_polygon g pts \<Longrightarrow> line_area_of g pts = polygon_area g pts"
  by (auto simp: invalid_polygon_def line_area_of_def polygon_area_def split: sum.splits)

lemma line_area_of_invalid: "invalid_polygon g pts \<Longrightarrow> line_area_of g pts = 0"
  by (auto simp: invalid_polygon_def line_area_of_def split: sum.splits)

lemma region_area_of_valid:
  "\<not> invalid_polygon g pts \<Longrightarrow> region_area_of g pts = Finite (polygon_area g pts)"
  by (auto simp: invalid_polygon_def region_area_of_def polygon_area_def split: sum.splits)

lemma overlap_val_nonzero_valid:
  "overlap_val g a b \<noteq> 0 \<Longrightarrow> \<not> invalid_polygon g a \<and> \<not> invalid_polygon g b"
  using overlap_val_invalid[of g a b] by auto

lemma qualifies_area:
  assumes "0 < polygon_area g lp" "qualifies g lp r"
  shows "region_area_of g (r_points r) = Finite (polygon_area g (r_points r))"
proof -
  from assms have "overlap_val g lp (r_points r) \<noteq> 0"
    by (auto simp: qualifies_def)
  then show ?thesis using overlap_val_nonzero_valid region_area_of_valid by blast
qed

lemma find_region_none:
  "\<forall>r\<in>set rs. \<not> (0 < la \<and> r_element r \<noteq> None
        \<and> overlap_val g lp (r_points r) > la * min_overlap_threshold)
   \<Longrightarrow> find_region g lp la rs best = Inr best"
proof (induction rs)
  case Nil
  then show ?case by simp
next
  case (Cons r rs)
  then show ?case by (cases best) (auto simp: overlap_Inr split: option.splits)
qed

lemma find_region_keep:
  "\<forall>r\<in>set rs. qualifies g lp r \<longrightarrow> a \<le> polygon_area g (r_points r) \<Longrightarrow>
   0 < polygon_area g lp \<Longrightarrow>
   find_region g lp (polygon_area g lp) rs (b, Finite a) = Inr (b, Finite a)"
proof (induction rs)
  case Nil
  then show ?case by simp
next
  case (Cons r rs)
  show ?case
  proof (cases "qualifies g lp r")
    case True
    with Cons.prems have ar: "region_area_of g (r_points r) = Finite (polygon_area g (r_points r))"
      using qualifies_area by blast
    from True Cons.prems have "a \<le> polygon_area g (r_points r)" by simp
    with True ar Cons show ?thesis
      by (auto simp: overlap_Inr qualifies_def min_overlap_threshold_def split: option.splits)
  next
    case False
    with Cons show ?thesis
      by (auto simp: overlap_Inr qualifies_def min_overlap_threshold_def split: option.splits)
  qed
qed

lemma find_region_first_min:
  assumes pos: "0 < polygon_area g lp"
    and q: "qualifies g lp r"
    and pre: "\<forall>q\<in>set pre. qualifies g lp q \<longrightarrow> polygon_area g (r_points r) < polygon_area g (r_points q)"
    and post: "\<forall>q\<in>set post. qualifies g lp q \<longrightarrow> polygon_area g (r_points r) \<le> polygon_area g (r_points q)"
    and best: "best = (b, Infinity) \<or> (\<exists>a. best = (b, Finite a) \<and> polygon_area g (r_points r) < a)"
  shows "find_region g lp (polygon_area g lp) (pre @ r # post) best
           = Inr (r_element r, Finite (polygon_area g (r_points r)))"
  using pre best
proof (induction pre arbitrary: b best)
  case Nil
  from q obtain el where el: "r_element r = Some el" by (auto simp: qualifies_def)
  from pos q have ar: "region_area_of g (r_points r) = Finite (polygon_area g (r_points r))"
    by (rule qualifies_area)
  from Nil.prems(2) show ?case
    using pos q el ar find_region_keep[OF post pos, of "Some el"]
    by (auto simp: overlap_Inr qualifies_def min_overlap_threshold_def)
next
  case (Cons x pre)
  show ?case
  proof (cases "qualifies g lp x")
    case True
    then obtain el where el: "r_element x = Some el" by (auto simp: qualifies_def)
    from pos True have ax: "region_area_of g (r_points x) = Finite (polygon_area g (r_points x))"
      by (rule qualifies_area)
    from True Cons.prems(1) have lt: "polygon_area g (r_points r) < polygon_area g (r_points x)"
      by simp
    have step: "find_region g lp (polygon_area g lp) ((x # pre) @ r # post) best
        = find_region g lp (polygon_area g lp) (pre @ r # post)
            (if xarea_less (Finite (polygon_area g (r_points x))) (snd best)
             then (Some el, Finite (polygon_area g (r_points x))) else best)"
      using True el ax pos
      by (cases best) (auto simp: overlap_Inr qualifies_def min_overlap_threshold_def)
    show ?thesis
      unfolding step
      using Cons.IH[of _ "Some el"] Cons.IH[of best b] Cons.prems lt
      by auto
  next
    case False
    then have "find_region g lp (polygon_area g lp) ((x # pre) @ r # post) best
        = find_region g lp (polygon_area g lp) (pre @ r # post) best"
      using pos
      by (cases best) (auto simp: overlap_Inr qualifies_def min_overlap_threshold_def split: option.splits)
    then show ?thesis using Cons.IH[of best b] Cons.prems by auto
  qed
qed

lemma first_min_exists:
  fixes f :: "'a \<Rightarrow> real"
  shows "\<exists>r\<in>set rs. Q r \<Longrightarrow>
     \<exists>pre r post. rs = pre @ r # post \<and> Q r
        \<and> (\<forall>q\<in>set pre. Q q \<longrightarrow> f r < f q) \<and> (\<forall>q\<in>set post. Q q \<longrightarrow> f r \<le> f q)"
proof (induction rs)
  case Nil
  then show ?case by simp
next
  case (Cons x xs)
  show ?case
  proof (cases "\<exists>r\<in>set xs. Q r")
    case True
    from Cons.IH[OF True] obtain pre r post where
      s: "xs = pre @ r # post" "Q r"
         "\<forall>q\<in>set pre. Q q \<longrightarrow> f r < f q" "\<forall>q\<in>set post. Q q \<longrightarrow> f r \<le> f q"
      by blast
    show ?thesis
    proof (cases "Q x \<and> f x \<le> f r")
      case True
      with s have "x # xs = [] @ x # xs \<and> Q x
          \<and> (\<forall>q\<in>set []. Q q \<longrightarrow> f x < f q) \<and> (\<forall>q\<in>set xs. Q q \<longrightarrow> f x \<le> f q)"
        by fastforce
      then show ?thesis by blast
    next
      case False
      with s have "x # xs = (x # pre) @ r # post \<and> Q r
          \<and> (\<forall>q\<in>set (x # pre). Q q \<longrightarrow> f r < f q) \<and> (\<forall>q\<in>set post. Q q \<longrightarrow> f r \<le> f q)"
        by auto
      then show ?thesis by blast
    qed
  next
    case False
    with Cons.prems have "x # xs = [] @ x # xs \<and> Q x
          \<and> (\<forall>q\<in>set []. Q q \<longrightarrow> f x < f q) \<and> (\<forall>q\<in>set xs. Q q \<longrightarrow> f x \<le> f q)"
      by auto
    then show ?thesis by blast
  qed
qed

lemma fourth_pass_line_first_min:
  assumes valid: "\<not> invalid_polygon g (l_points line)"
    and pos: "0 < polygon_area g (l_points line)"
    and q: "qualifies g (l_points line) r"
    and pre: "\<forall>q\<in>set pre. qualifies g (l_points line) q
                \<longrightarrow> polygon_area g (r_points r) < polygon_area g (r_points q)"
    and post: "\<forall>q\<in>set post. qualifies g (l_points line) q
                \<longrightarrow> polygon_area g (r_points r) \<le> polygon_area g (r_points q)"
  shows "\<exists>el. r_element r = Some el
     \<and> fourth_pass_line g w page (pre @ r # post) (d, n) line =
         Inr (fst (add_text_line w d el (l_points line) (Some (l_id line))), n)"
proof -
  from q obtain el where el: "r_element r = Some el" by (auto simp: qualifies_def)
  have "find_region g (l_points line) (polygon_area g (l_points line)) (pre @ r # post) (None, Infinity)
      = Inr (r_element r, Finite (polygon_area g (r_points r)))"
    by (rule find_region_first_min[OF pos q pre post]) simp
  with el show ?thesis
    by (simp add: fourth_pass_line_def line_area_of_valid[OF valid])
qed

lemma fourth_pass_line_orphan:
  assumes "\<forall>r\<in>set regions. \<not> (0 < line_area_of g (l_points line) \<and> r_element r \<noteq> None
        \<and> overlap_val g (l_points line) (r_points r) > line_area_of g (l_points line) * min_overlap_threshold)"
  shows "fourth_pass_line g w page regions (d, n) line = Inr (orphan_branch w page d n line)"
  using find_region_none[OF assms, of "(None, Infinity)"]
  by (simp add: fourth_pass_line_def)

lemma inner_line_facts:
  "\<not> invalid_polygon box_geometry (l_points inner_line)"
  "0 < polygon_area box_geometry (l_points inner_line)"
  "qualifies box_geometry (l_points inner_line) region_A"
  "qualifies box_geometry (l_points inner_line) region_B"
  "polygon_area box_geometry (r_points region_B) < polygon_area box_geometry (r_points region_A)"
  by (simp_all add: invalid_polygon_def polygon_area_def qualifies_def overlap_val_def
      calculate_polygon_overlap_def overlap_try_def box_geometry_def bbox_def
      inner_line_def region_A_def region_B_def)

section \<open>The first pass\<close>

lemma py_split_Nil [simp]: "py_split [] = []"
  by (simp add: py_split_def)

lemma parse_yolo_label_short:
  "length (py_split (py_strip line)) < 7 \<Longrightarrow> parse_yolo_label fl line = Inr (None, [])"
  by (simp add: parse_yolo_label_def Let_def)

lemma first_pass_line_short:
  "length (py_split (py_strip line)) < 7 \<Longrightarrow>
     first_pass_line fl w m page iw ih idx line st = Inr st"
  by (simp add: first_pass_line_def parse_yolo_label_short)

lemma long_line_not_blank: "7 \<le> length (py_split (py_strip line)) \<Longrightarrow> py_strip line \<noteq> []"
  by (cases "py_strip line = []") auto

lemma first_pass_line_bad_class:
  "\<lbrakk>7 \<le> length (py_split (py_strip line)); py_int (py_split (py_strip line) ! 0) = Inl e\<rbrakk>
   \<Longrightarrow> first_pass_line fl w m page iw ih idx line st = Inl e"
  by (simp add: first_pass_line_def parse_yolo_label_def Let_def long_line_not_blank)

lemma first_pass_line_bad_point:
  "\<lbrakk>7 \<le> length (py_split (py_strip line)); py_int (py_split (py_strip line) ! 0) = Inr c;
    parse_points fl (tl (py_split (py_strip line))) = Inl e\<rbrakk>
   \<Longrightarrow> first_pass_line fl w m page iw ih idx line st = Inl e"
  by (simp add: first_pass_line_def parse_yolo_label_def Let_def long_line_not_blank)

lemma first_pass_line_bad_pixel:
  "\<lbrakk>7 \<le> length (py_split (py_strip line)); py_int (py_split (py_strip line) ! 0) = Inr c;
    parse_points fl (tl (py_split (py_strip line))) = Inr pts;
    denormalize_points fl pts iw ih = Inl e\<rbrakk>
   \<Longrightarrow> first_pass_line fl w m page iw ih idx line st = Inl e"
  by (cases "pts = []")
     (simp_all add: first_pass_line_def parse_yolo_label_def Let_def long_line_not_blank)

text \<open>
  Claim C5, as amended. A label line with fewer than 7 whitespace-separated tokens (an
  empty line included) is skipped without error: the loop body leaves the state as it is
  and the loop goes on with the next line. A line with 7 or more tokens is not checked any
  further: when \<^verbatim>\<open>int\<close> raises on its first token, \<^verbatim>\<open>float\<close> on one of its coordinate
  tokens, or \<^verbatim>\<open>int\<close> on a pixel coordinate, the exception leaves the loop, and with it the
  conversion of the page.
\<close>

theorem short_lines_are_skipped:
  "(length (py_split (py_strip line)) < 7 \<longrightarrow>
      first_pass_line fl w m page iw ih idx line st = Inr st
      \<and> first_pass fl w m page iw ih idx (line # rest) st
          = first_pass fl w m page iw ih (Suc idx) rest st)
   \<and> (7 \<le> length (py_split (py_strip line))
        \<and> py_int (py_split (py_strip line) ! 0) = Inl e \<longrightarrow>
      first_pass_line fl w m page iw ih idx line st = Inl e
      \<and> first_pass fl w m page iw ih idx (line # rest) st = Inl e)
   \<and> (7 \<le> length (py_split (py_strip line))
        \<and> py_int (py_split (py_strip line) ! 0) = Inr c
        \<and> parse_points fl (tl (py_split (py_strip line))) = Inl e \<longrightarrow>
      first_pass_line fl w m page iw ih idx line st = Inl e
      \<and> first_pass fl w m page iw ih idx (line # rest) st = Inl e)
   \<and> (7 \<le> length (py_split (py_strip line))
        \<and> py_int (py_split (py_strip line) ! 0) = Inr c
        \<and> parse_points fl (tl (py_split (py_strip line))) = Inr pts
        \<and> denormalize_points fl pts iw ih = Inl e \<longrightarrow>
      first_pass_line fl w m page iw ih idx line st = Inl e
      \<and> first_pass fl w m page iw ih idx (line # rest) st = Inl e)"
  using first_pass_line_short[of line fl w m page iw ih idx st]
    first_pass_line_bad_class[of line e fl w m page iw ih idx st]
    first_pass_line_bad_point[of line c fl e w m page iw ih idx st]
    first_pass_line_bad_pixel[of line c fl pts iw ih e w m page idx st]
  by simp

lemma split_two_tokens: "py_split (py_strip ''0 0.5'') = [''0'', ''0.5'']"
  by code_simp

lemma split_bad_class: "py_split (py_strip ''x 0 0 1 0 1 1'') = [''x'', ''0'', ''0'', ''1'', ''0'', ''1'', ''1'']"
  by code_simp

lemma split_no_break_space:
  "py_split (py_strip (''x 0 0 1 0 1'' @ CHR 0xA0 # ''1''))
     = [''x'', ''0'', ''0'', ''1'', ''0'', ''1'', ''1'']"
  by code_simp

lemma py_int_x: "py_int ''x'' = Inl ValueError"
  by (simp add: py_int_def int_signed_def int_space_def int_literal_def is_digit_def)

text \<open>
  The last line of the example has a no-break space between its last two tokens, which
  \<^verbatim>\<open>split\<close> takes for whitespace: it has seven tokens and is not skipped.
\<close>

theorem short_lines_are_skipped_witness:
  "length (py_split (py_strip ''0 0.5'')) < 7
   \<and> first_pass_line dec_floats example_world default_mapping 5 100 100 0 ''0 0.5''
        (initial_state example_tree) = Inr (initial_state example_tree)
   \<and> 7 \<le> length (py_split (py_strip ''x 0 0 1 0 1 1''))
   \<and> first_pass_line dec_floats example_world default_mapping 5 100 100 0 ''x 0 0 1 0 1 1''
        (initial_state example_tree) = Inl ValueError
   \<and> 7 \<le> length (py_split (py_strip (''x 0 0 1 0 1'' @ CHR 0xA0 # ''1'')))
   \<and> first_pass_line dec_floats example_world default_mapping 5 100 100 0
        (''x 0 0 1 0 1'' @ CHR 0xA0 # ''1'') (initial_state example_tree) = Inl ValueError"
  using short_lines_are_skipped[of "''0 0.5''" dec_floats example_world default_mapping 5 100 100 0
      "initial_state example_tree" "[]"]
    short_lines_are_skipped[of "''x 0 0 1 0 1 1''" dec_floats example_world default_mapping 5 100 100 0
      "initial_state example_tree" "[]" ValueError]
    short_lines_are_skipped[of "''x 0 0 1 0 1'' @ CHR 0xA0 # ''1''" dec_floats example_world
      default_mapping 5 100 100 0 "initial_state example_tree" "[]" ValueError]
  by (simp add: split_two_tokens split_bad_class split_no_break_space py_int_x
      del: append.simps)

text \<open>
  A line of seven tokens whose class id is not a number is not skipped: \<^verbatim>\<open>int('x')\<close> raises
  ValueError, nothing in \<^verbatim>\<open>convert_page\<close> catches it, and the conversion of the page ends
  with that exception.
\<close>

theorem malformed_line_aborts_conversion:
  "convert_page box_geometry dec_floats example_world default_mapping
     (Some [''x 0 0 1 0 1 1'']) (Some (''a.png'', 100, 100)) = Inl ValueError"
proof -
  have "first_pass_line dec_floats example_world default_mapping page 100 100 0 ''x 0 0 1 0 1 1'' st
      = Inl ValueError" for page st
    by (rule first_pass_line_bad_class) (simp_all add: split_bad_class py_int_x)
  then show ?thesis
    by (simp add: convert_page_def split: prod.splits)
qed


text \<open>
  Claim C10. A record whose class id has a non-empty entry without the key
  \<^verbatim>\<open>element\<close> is a TextLine: it is appended to the list of lines, with its polygon, the id
  of a line and its configuration. An entry that names \<^verbatim>\<open>TextLine\<close> explicitly gives the
  same, and the fourth pass places the line with either configuration in the same way.
\<close>

theorem missing_element_key_is_text_line:
  assumes entry: "map_of m (py_str c) = Some cfg"
    and nonempty: "cfg \<noteq> []"
    and nokey: "map_of cfg ''element'' = None"
  shows "categorize w m page idx (Some c) abs_points st
           = st\<lparr>text_lines := text_lines st @
                 [\<lparr>l_points = abs_points, l_id = ''l'' @ fmt04 idx, l_config = cfg\<rparr>]\<rparr>
     \<and> categorize w ((py_str c, (''element'', ''TextLine'') # cfg) # m) page idx (Some c) abs_points st
           = st\<lparr>text_lines := text_lines st @
                 [\<lparr>l_points = abs_points, l_id = ''l'' @ fmt04 idx,
                   l_config = (''element'', ''TextLine'') # cfg\<rparr>]\<rparr>
     \<and> fourth_pass_line g w page regions s
          \<lparr>l_points = abs_points, l_id = ''l'' @ fmt04 idx, l_config = cfg\<rparr>
         = fourth_pass_line g w page regions s
             \<lparr>l_points = abs_points, l_id = ''l'' @ fmt04 idx,
               l_config = (''element'', ''TextLine'') # cfg\<rparr>"
proof -
  have ob: "orphan_branch w page d n \<lparr>l_points = abs_points, l_id = i, l_config = cfg\<rparr>
      = orphan_branch w page d n
          \<lparr>l_points = abs_points, l_id = i, l_config = (''element'', ''TextLine'') # cfg\<rparr>" for d n i
    by (simp add: orphan_branch_def dict_get_def)
  have "fourth_pass_line g w page regions s
          \<lparr>l_points = abs_points, l_id = ''l'' @ fmt04 idx, l_config = cfg\<rparr>
         = fourth_pass_line g w page regions s
             \<lparr>l_points = abs_points, l_id = ''l'' @ fmt04 idx,
               l_config = (''element'', ''TextLine'') # cfg\<rparr>"
    by (simp add: fourth_pass_line_def Let_def ob split: sum.splits option.splits prod.splits)
  then show ?thesis
    using assms by (simp add: categorize_def dict_get_def str_of_class_id_def)
qed


lemma py_str_digit: "py_str 0 = ''0''" "py_str 9 = ''9''"
  by (simp_all add: py_str_def digits.simps digit_char_def)

lemma parse_unmapped_line:
  "parse_yolo_label dec_floats ''9 0 0 1 0 1 1'' = Inr (Some 9, [(0, 0), (1, 0), (1, 1)])"
proof -
  have s: "py_split (py_strip ''9 0 0 1 0 1 1'') = [''9'', ''0'', ''0'', ''1'', ''0'', ''1'', ''1'']"
    by code_simp
  have i: "py_int ''9'' = Inr 9"
    by (simp add: py_int_def int_signed_def int_space_def int_max_str_digits_def int_literal_def
        is_digit_def digit_val_def)
  have f: "dec_float ''0'' = Inr 0" "dec_float ''1'' = Inr 1"
    by (simp_all add: dec_float_def dec_unsigned_def is_digit_def digits_value_def digit_val_def)
  show ?thesis
    by (simp add: parse_yolo_label_def s i f dec_floats_def)
qed

lemma parse_unmapped_line_no_break_space:
  "parse_yolo_label dec_floats (''9 0 0 1 0 1'' @ CHR 0xA0 # ''1'')
     = Inr (Some 9, [(0, 0), (1, 0), (1, 1)])"
proof -
  have s: "py_split (py_strip (''9 0 0 1 0 1'' @ CHR 0xA0 # ''1''))
      = [''9'', ''0'', ''0'', ''1'', ''0'', ''1'', ''1'']"
    by code_simp
  have i: "py_int ''9'' = Inr 9"
    by (simp add: py_int_def int_signed_def int_space_def int_max_str_digits_def int_literal_def
        is_digit_def digit_val_def)
  have f: "dec_float ''0'' = Inr 0" "dec_float ''1'' = Inr 1"
    by (simp_all add: dec_float_def dec_unsigned_def is_digit_def digits_value_def digit_val_def)
  show ?thesis
    by (simp add: parse_yolo_label_def s i f dec_floats_def del: append.simps)
qed


theorem missing_element_key_is_text_line_witness:
  "categorize example_world [(''0'', [(''type'', ''heading'')])] 5 7 (Some 0)
      [(0, 0), (100, 0), (100, 100)] (initial_state example_tree)
    = (initial_state example_tree)\<lparr>text_lines :=
         [\<lparr>l_points = [(0, 0), (100, 0), (100, 100)], l_id = ''l'' @ fmt04 7,
           l_config = [(''type'', ''heading'')]\<rparr>]\<rparr>"
proof -
  have e: "map_of [(''0'', [(''type'', ''heading'')])] (py_str 0) = Some [(''type'', ''heading'')]"
    by (simp add: py_str_digit)
  show ?thesis
    using missing_element_key_is_text_line[OF e, of example_world 5 7 "[(0, 0), (100, 0), (100, 100)]"
        "initial_state example_tree" box_geometry "[]" "(example_tree, 0)"]
    by (simp add: initial_state_def)
qed

section \<open>Adding nodes to the store\<close>

lemma length_add_node [simp]: "length (add_node es p e) = Suc (length es)"
  by (simp add: add_node_def)

lemma add_region_nodes:
  "add_region w d parent et pts (Some i) rt =
     (d\<lparr>elems := add_node (add_node (elems d) parent (region_elem et i rt))
                   (length (elems d)) (coords_elem pts)\<rparr>,
      length (elems d))"
  by (simp add: add_region_Some add_node_def append_child_def region_elem_def nth_append
      list_update_append)

lemma add_text_line_nodes:
  "add_text_line w d parent pts (Some i) =
     (d\<lparr>elems := add_node (add_node (elems d) parent (line_elem i))
                   (length (elems d)) (coords_elem pts)\<rparr>,
      length (elems d))"
  by (simp add: add_text_line_Some add_node_def append_child_def line_elem_def nth_append
      list_update_append)

lemma map_tag_append_child [simp]: "map tag (append_child es p n) = map tag es"
  by (cases "p < length es") (simp_all add: append_child_def map_update list_update_beyond list_update_same_conv)

lemma map_tag_add_node [simp]: "map tag (add_node es p e) = map tag es @ [tag e]"
  by (simp add: add_node_def)

lemma nth_append_child_other: "a \<noteq> p \<Longrightarrow> append_child es p n ! a = es ! a"
  by (simp add: append_child_def)

lemma nth_add_node_other: "a < length es \<Longrightarrow> a \<noteq> p \<Longrightarrow> add_node es p e ! a = es ! a"
  by (simp add: add_node_def nth_append nth_append_child_other)

lemma nth_add_node_new: "add_node es p e ! length es = e"
  by (simp add: add_node_def nth_append)

lemma children_add_node_parent:
  "p < length es \<Longrightarrow> children (add_node es p e ! p) = children (es ! p) @ [length es]"
  by (simp add: add_node_def nth_append append_child_def)

lemma children_add_node_nonempty:
  "a < length es \<Longrightarrow> children (es ! a) \<noteq> [] \<Longrightarrow> children (add_node es p e ! a) \<noteq> []"
  by (cases "a = p") (simp_all add: children_add_node_parent nth_add_node_other)

section \<open>The tree shape\<close>

lemma owner_count_append [simp]:
  "owner_count (xs @ ys) k = owner_count xs k + owner_count ys k"
  by (simp add: owner_count_def)

lemma owner_count_append_child:
  assumes "p < length es"
  shows "owner_count (append_child es p n) k = owner_count es k + (if k = n then 1 else 0)"
proof -
  let ?f = "\<lambda>e. count_list (children e) k"
  have "map ?f (append_child es p n) = (map ?f es)[p := ?f (es ! p) + (if k = n then 1 else 0)]"
    by (simp add: append_child_def map_update)
  then have "owner_count (append_child es p n) k
      = sum_list (map ?f es) + (?f (es ! p) + (if k = n then 1 else 0)) - (map ?f es) ! p"
    using assms by (simp add: owner_count_def sum_list_update)
  then show ?thesis using assms by (simp add: owner_count_def)
qed

lemma owner_count_fresh:
  assumes "\<forall>p<length es. \<forall>c\<in>set (children (es ! p)). c < length es" "length es \<le> k"
  shows "owner_count es k = 0"
proof -
  have "\<forall>e\<in>set es. count_list (children e) k = 0"
  proof
    fix e assume "e \<in> set es"
    then obtain p where "p < length es" "es ! p = e" by (auto simp: in_set_conv_nth)
    with assms(1) have "\<forall>c\<in>set (children e). c < length es" by blast
    with assms(2) have "k \<notin> set (children e)" by auto
    then show "count_list (children e) k = 0" by (simp add: count_list_0_iff)
  qed
  then show ?thesis by (simp add: owner_count_def sum_list_eq_0_iff)
qed

lemma tree_shaped_add_node:
  assumes t: "tree_shaped d" and p: "p < length (elems d)" and e: "children e = []"
  shows "tree_shaped (d\<lparr>elems := add_node (elems d) p e\<rparr>)"
proof -
  let ?es = "elems d"
  let ?n = "length ?es"
  from t have t12: "(\<forall>q<?n. \<forall>c\<in>set (children (?es ! q)). q < c \<and> c < ?n)
      \<and> (\<forall>k<?n. owner_count ?es k = (if k = 0 then 0 else 1))"
    unfolding tree_shaped_def .
  note t1 = t12[THEN conjunct1] and t2 = t12[THEN conjunct2]
  have ch: "q < c \<and> c < ?n" if "q < ?n" "c \<in> set (children (?es ! q))" for q c
    using t1[rule_format, OF that] .
  have oc: "owner_count ?es k = (if k = 0 then 0 else 1)" if "k < ?n" for k
    using t2[rule_format, OF that] .
  have "\<forall>q<?n. \<forall>c\<in>set (children (?es ! q)). c < ?n"
  proof (intro allI impI ballI)
    fix q c assume "q < ?n" "c \<in> set (children (?es ! q))"
    from ch[OF this] show "c < ?n" by simp
  qed
  then have fresh: "owner_count ?es ?n = 0"
    by (rule owner_count_fresh) simp
  have c1: "q < c \<and> c < Suc ?n"
    if q: "q < Suc ?n" and c: "c \<in> set (children (add_node ?es p e ! q))" for q c
  proof (cases "q = ?n")
    case True
    with c e show ?thesis by (simp add: nth_add_node_new)
  next
    case False
    with q have ql: "q < ?n" by simp
    show ?thesis
    proof (cases "q = p")
      case True
      with c p have "c \<in> set (children (?es ! p)) \<or> c = ?n"
        by (auto simp: children_add_node_parent)
      then show ?thesis
      proof
        assume "c \<in> set (children (?es ! p))"
        from ch[OF p this] True show ?thesis by simp
      next
        assume "c = ?n"
        with True p show ?thesis by simp
      qed
    next
      case False
      with c ql have "c \<in> set (children (?es ! q))" by (simp add: nth_add_node_other)
      from ch[OF ql this] show ?thesis by simp
    qed
  qed
  have c2: "owner_count (add_node ?es p e) k = (if k = 0 then 0 else 1)" if k: "k < Suc ?n" for k
  proof -
    have "owner_count [e] k = 0"
      using e by (simp add: owner_count_def)
    then have eq: "owner_count (add_node ?es p e) k = owner_count ?es k + (if k = ?n then 1 else 0)"
      using p by (simp add: add_node_def owner_count_append_child)
    show ?thesis
    proof (cases "k = ?n")
      case True
      from p have "?es \<noteq> []" by auto
      with True eq fresh show ?thesis by simp
    next
      case False
      with k have "k < ?n" by simp
      from oc[OF this] eq False show ?thesis by simp
    qed
  qed
  have e1: "elems (d\<lparr>elems := add_node ?es p e\<rparr>) = add_node ?es p e" by simp
  have g1: "\<forall>q<Suc ?n. \<forall>c\<in>set (children (add_node ?es p e ! q)). q < c \<and> c < Suc ?n"
    using c1 by blast
  have g2: "\<forall>k<Suc ?n. owner_count (add_node ?es p e) k = (if k = 0 then 0 else 1)"
    using c2 by blast
  show ?thesis
    unfolding tree_shaped_def e1 length_add_node by (rule conjI[OF g1 g2])
qed

lemma coords_elem_children [simp]: "children (coords_elem pts) = []"
  by (simp add: coords_elem_def)

lemma region_elem_children [simp]: "children (region_elem et i rt) = []"
  by (simp add: region_elem_def)

lemma line_elem_children [simp]: "children (line_elem i) = []"
  by (simp add: line_elem_def)

lemma tree_shaped_add_region:
  assumes "tree_shaped d" "p < length (elems d)"
  shows "tree_shaped (fst (add_region w d p et pts (Some i) rt))"
proof -
  have 1: "tree_shaped (d\<lparr>elems := add_node (elems d) p (region_elem et i rt)\<rparr>)"
    using assms by (simp add: tree_shaped_add_node)
  have "tree_shaped ((d\<lparr>elems := add_node (elems d) p (region_elem et i rt)\<rparr>)
          \<lparr>elems := add_node (elems (d\<lparr>elems := add_node (elems d) p (region_elem et i rt)\<rparr>))
                      (length (elems d)) (coords_elem pts)\<rparr>)"
    using 1 tree_shaped_add_node[of "d\<lparr>elems := add_node (elems d) p (region_elem et i rt)\<rparr>"
        "length (elems d)" "coords_elem pts"]
    by simp
  then show ?thesis by (simp add: add_region_nodes)
qed

lemma tree_shaped_add_text_line:
  assumes "tree_shaped d" "p < length (elems d)"
  shows "tree_shaped (fst (add_text_line w d p pts (Some i)))"
proof -
  have 1: "tree_shaped (d\<lparr>elems := add_node (elems d) p (line_elem i)\<rparr>)"
    using assms by (simp add: tree_shaped_add_node)
  have "tree_shaped ((d\<lparr>elems := add_node (elems d) p (line_elem i)\<rparr>)
          \<lparr>elems := add_node (elems (d\<lparr>elems := add_node (elems d) p (line_elem i)\<rparr>))
                      (length (elems d)) (coords_elem pts)\<rparr>)"
    using 1 tree_shaped_add_node[of "d\<lparr>elems := add_node (elems d) p (line_elem i)\<rparr>"
        "length (elems d)" "coords_elem pts"]
    by simp
  then show ?thesis by (simp add: add_text_line_nodes)
qed

section \<open>Counting nodes\<close>

lemma length_add_region [simp]:
  "length (elems (fst (add_region w d p et pts (Some i) rt))) = length (elems d) + 2"
  by (simp add: add_region_nodes)

lemma length_add_text_line [simp]:
  "length (elems (fst (add_text_line w d p pts (Some i)))) = length (elems d) + 2"
  by (simp add: add_text_line_nodes)

lemma snd_add_region [simp]: "snd (add_region w d p et pts (Some i) rt) = length (elems d)"
  by (simp add: add_region_nodes)

lemma snd_add_text_line [simp]: "snd (add_text_line w d p pts (Some i)) = length (elems d)"
  by (simp add: add_text_line_nodes)

lemma coords_not_node: "''Coords'' \<notin> set node_tags" "''Coords'' \<noteq> ''TextLine''"
  by (simp_all add: node_tags_def opaque_types_def)

lemma node_count_add_region:
  "node_count (fst (add_region w d p et pts (Some i) rt))
     = node_count d + (if et \<in> set node_tags then 1 else 0)"
  using coords_not_node
  by (simp add: node_count_def add_region_nodes region_elem_def coords_elem_def)

lemma line_count_add_region:
  "line_count (fst (add_region w d p et pts (Some i) rt))
     = line_count d + (if et = ''TextLine'' then 1 else 0)"
  by (simp add: line_count_def add_region_nodes region_elem_def coords_elem_def)

lemma node_count_add_text_line:
  "node_count (fst (add_text_line w d p pts (Some i))) = Suc (node_count d)"
  using coords_not_node
  by (simp add: node_count_def add_text_line_nodes line_elem_def coords_elem_def node_tags_def)

lemma line_count_add_text_line:
  "line_count (fst (add_text_line w d p pts (Some i))) = Suc (line_count d)"
  by (simp add: line_count_def add_text_line_nodes line_elem_def coords_elem_def)

section \<open>Invariants of the passes\<close>

lemma regions_ok_add_node:
  assumes "regions_ok d rs"
  shows "regions_ok (d\<lparr>elems := add_node (elems d) p e\<rparr>) rs"
  unfolding regions_ok_def
proof
  fix r assume "r \<in> set rs"
  with assms obtain el where el: "r_element r = Some el" "el < length (elems d)"
      "children (elems d ! el) \<noteq> []"
    unfolding regions_ok_def by blast
  then have "el < length (elems (d\<lparr>elems := add_node (elems d) p e\<rparr>))"
    "children (elems (d\<lparr>elems := add_node (elems d) p e\<rparr>) ! el) \<noteq> []"
    by (simp_all add: children_add_node_nonempty)
  with el(1) show "\<exists>el. r_element r = Some el
      \<and> el < length (elems (d\<lparr>elems := add_node (elems d) p e\<rparr>))
      \<and> children (elems (d\<lparr>elems := add_node (elems d) p e\<rparr>) ! el) \<noteq> []"
    by blast
qed

lemma regions_ok_add_region:
  "regions_ok d rs \<Longrightarrow> regions_ok (fst (add_region w d p et pts (Some i) rt)) rs"
  using regions_ok_add_node[OF regions_ok_add_node, of d rs p "region_elem et i rt"
      "length (elems d)" "coords_elem pts"]
  by (simp add: add_region_nodes)

lemma regions_ok_add_text_line:
  "regions_ok d rs \<Longrightarrow> regions_ok (fst (add_text_line w d p pts (Some i))) rs"
  using regions_ok_add_node[OF regions_ok_add_node, of d rs p "line_elem i"
      "length (elems d)" "coords_elem pts"]
  by (simp add: add_text_line_nodes)

lemma regions_ok_new_region:
  "regions_ok (fst (add_region w d p et pts (Some i) rt)) [r\<lparr>r_element := Some (length (elems d))\<rparr>]"
  by (simp add: regions_ok_def add_region_nodes add_node_def nth_append append_child_def)

lemma regions_ok_Cons: "regions_ok d (r # rs) = (regions_ok d [r] \<and> regions_ok d rs)"
  by (auto simp: regions_ok_def)

lemma regions_ok_append: "regions_ok d (xs @ ys) = (regions_ok d xs \<and> regions_ok d ys)"
  by (auto simp: regions_ok_def)

lemma regions_ok_Nil [simp]: "regions_ok d []"
  by (simp add: regions_ok_def)

lemma regions_ok_element:
  "regions_ok d rs \<Longrightarrow> r \<in> set rs \<Longrightarrow> r_element r = Some el \<Longrightarrow> el < length (elems d)"
  unfolding regions_ok_def by fastforce

lemma regions_ok_truthy:
  "regions_ok d rs \<Longrightarrow> \<forall>p\<in>set rs. element_truthy d (r_element p)"
  unfolding regions_ok_def element_truthy_def by fastforce

subsection \<open>The second pass\<close>

lemma second_pass_Cons:
  "second_pass w page d (r # rest) =
     (fst (second_pass w page
             (fst (add_region w d page ''TextRegion'' (r_points r) (Some (r_id r)) (r_type r))) rest),
      r\<lparr>r_element := Some (length (elems d))\<rparr> #
      snd (second_pass w page
             (fst (add_region w d page ''TextRegion'' (r_points r) (Some (r_id r)) (r_type r))) rest))"
  by (simp add: add_region_nodes split: prod.splits)

lemma second_pass_length:
  "length (elems (fst (second_pass w page d rs))) = length (elems d) + 2 * length rs"
  by (induction rs arbitrary: d) (simp_all add: second_pass_Cons del: second_pass.simps(2))

lemma second_pass_node_count:
  "node_count (fst (second_pass w page d rs)) = node_count d + length rs"
  by (induction rs arbitrary: d)
     (simp_all add: second_pass_Cons node_count_add_region node_tags_def del: second_pass.simps(2))

lemma second_pass_line_count:
  "line_count (fst (second_pass w page d rs)) = line_count d"
  by (induction rs arbitrary: d)
     (simp_all add: second_pass_Cons line_count_add_region del: second_pass.simps(2))

lemma second_pass_keeps_ok:
  "regions_ok d xs \<Longrightarrow> regions_ok (fst (second_pass w page d rs)) xs"
  by (induction rs arbitrary: d)
     (simp_all add: second_pass_Cons regions_ok_add_region del: second_pass.simps(2))

lemma second_pass_regions_ok:
  "regions_ok (fst (second_pass w page d rs)) (snd (second_pass w page d rs))"
proof (induction rs arbitrary: d)
  case Nil
  then show ?case by simp
next
  case (Cons r rs)
  show ?case
    unfolding second_pass_Cons fst_conv snd_conv
    by (subst regions_ok_Cons) (simp add: second_pass_keeps_ok regions_ok_new_region Cons.IH)
qed

lemma second_pass_tree_shaped:
  "tree_shaped d \<Longrightarrow> page < length (elems d) \<Longrightarrow> tree_shaped (fst (second_pass w page d rs))"
  by (induction rs arbitrary: d)
     (simp_all add: second_pass_Cons tree_shaped_add_region del: second_pass.simps(2))

subsection \<open>The third pass\<close>

lemma best_parent_loop_result:
  "\<exists>b s. best_parent_loop g c ps best = Inr (b, s)
      \<and> (b = fst best \<or> (\<exists>p\<in>set ps. r_element p = b))"
proof (induction ps arbitrary: best)
  case Nil
  then show ?case by (cases best) simp
next
  case (Cons p ps)
  obtain b0 s0 where best: "best = (b0, s0)" by (cases best)
  show ?case
  proof (cases "containment_val g c (r_points p) > s0")
    case True
    with Cons.IH[of "(r_element p, containment_val g c (r_points p))"] best
    show ?thesis by (auto simp: containment_Inr)
  next
    case False
    with Cons.IH[of best] best show ?thesis by (auto simp: containment_Inr)
  qed
qed

lemma find_best_parent_result:
  "find_best_parent g d c ps t = Inr None
   \<or> (\<exists>bp. find_best_parent g d c ps t = Inr (Some bp) \<and> (\<exists>p\<in>set ps. r_element p = Some bp))"
proof -
  from best_parent_loop_result[of g c ps "(None, t)"] obtain b s where
    l: "best_parent_loop g c ps (None, t) = Inr (b, s)"
    and b: "b = None \<or> (\<exists>p\<in>set ps. r_element p = b)"
    by auto
  show ?thesis
  proof (cases b)
    case None
    with l show ?thesis by (simp add: find_best_parent_def element_truthy_def)
  next
    case (Some bp)
    with l b show ?thesis by (auto simp: find_best_parent_def)
  qed
qed

lemma third_pass_child_result:
  assumes "regions_ok d parents" "page < length (elems d)"
  shows "\<exists>tgt orphan. tgt < length (elems d)
     \<and> third_pass_child g w page parents d c =
         Inr (fst (add_region w d tgt ''TextRegion'' (r_points c) (Some (r_id c)) (r_type c)),
              c\<lparr>r_element := Some (length (elems d))\<rparr>, orphan)"
  using find_best_parent_result[of g d "r_points c" parents "1 / 2"]
proof
  assume "find_best_parent g d (r_points c) parents (1 / 2) = Inr None"
  with assms(2) show ?thesis by (auto simp: third_pass_child_def add_region_nodes)
next
  assume "\<exists>bp. find_best_parent g d (r_points c) parents (1 / 2) = Inr (Some bp)
      \<and> (\<exists>p\<in>set parents. r_element p = Some bp)"
  then obtain bp p where f: "find_best_parent g d (r_points c) parents (1 / 2) = Inr (Some bp)"
    and p: "p \<in> set parents" "r_element p = Some bp" by blast
  from regions_ok_element[OF assms(1) p] have "bp < length (elems d)" .
  with f show ?thesis by (auto simp: third_pass_child_def add_region_nodes)
qed

lemma third_pass_props:
  assumes "regions_ok d parents" "page < length (elems d)" "tree_shaped d"
  shows "\<exists>d' cs' os. third_pass g w page parents d cs = Inr (d', cs', os)
     \<and> length (elems d') = length (elems d) + 2 * length cs
     \<and> node_count d' = node_count d + length cs
     \<and> line_count d' = line_count d
     \<and> tree_shaped d'
     \<and> regions_ok d' cs'
     \<and> (\<forall>xs. regions_ok d xs \<longrightarrow> regions_ok d' xs)"
  using assms
proof (induction cs arbitrary: d)
  case Nil
  then show ?case by simp
next
  case (Cons c cs)
  from third_pass_child_result[OF Cons.prems(1,2), of g w c] obtain tgt orphan where
    tgt: "tgt < length (elems d)"
    and ch: "third_pass_child g w page parents d c =
         Inr (fst (add_region w d tgt ''TextRegion'' (r_points c) (Some (r_id c)) (r_type c)),
              c\<lparr>r_element := Some (length (elems d))\<rparr>, orphan)"
    by blast
  let ?d1 = "fst (add_region w d tgt ''TextRegion'' (r_points c) (Some (r_id c)) (r_type c))"
  have ok1: "regions_ok ?d1 parents" using Cons.prems(1) by (rule regions_ok_add_region)
  have pg1: "page < length (elems ?d1)" using Cons.prems(2) by simp
  have ts1: "tree_shaped ?d1" using Cons.prems(3) tgt by (rule tree_shaped_add_region)
  from Cons.IH[OF ok1 pg1 ts1] obtain d' cs' os where
    r: "third_pass g w page parents ?d1 cs = Inr (d', cs', os)"
    and l: "length (elems d') = length (elems ?d1) + 2 * length cs"
    and n: "node_count d' = node_count ?d1 + length cs"
    and lc: "line_count d' = line_count ?d1"
    and ts: "tree_shaped d'"
    and ok: "regions_ok d' cs'"
    and keep: "\<forall>xs. regions_ok ?d1 xs \<longrightarrow> regions_ok d' xs"
    by blast
  have new: "regions_ok d' [c\<lparr>r_element := Some (length (elems d))\<rparr>]"
    using keep regions_ok_new_region by blast
  have keep': "\<forall>xs. regions_ok d xs \<longrightarrow> regions_ok d' xs"
    using keep regions_ok_add_region by blast
  have okc: "regions_ok d' (c\<lparr>r_element := Some (length (elems d))\<rparr> # cs')"
    by (subst regions_ok_Cons) (simp add: new ok)
  have "third_pass g w page parents d (c # cs)
      = Inr (d', c\<lparr>r_element := Some (length (elems d))\<rparr> # cs',
             (if orphan then r_id c # os else os))"
    by (simp add: ch r)
  moreover have "length (elems d') = length (elems d) + 2 * length (c # cs)"
    using l by simp
  moreover have "node_count d' = node_count d + length (c # cs)"
    using n by (simp add: node_count_add_region node_tags_def)
  moreover have "line_count d' = line_count d"
    using lc by (simp add: line_count_add_region)
  ultimately show ?case using ts okc keep' by blast
qed


subsection \<open>The fourth pass\<close>

lemma find_region_result:
  "\<exists>b a. find_region g lp la rs best = Inr (b, a)
      \<and> (b = fst best \<or> (\<exists>r\<in>set rs. \<exists>el. r_element r = Some el \<and> b = Some el))"
proof (induction rs arbitrary: best)
  case Nil
  then show ?case by (cases best) simp
next
  case (Cons r rs)
  obtain b0 a0 where best: "best = (b0, a0)" by (cases best)
  show ?case
  proof (cases "r_element r")
    case None
    with Cons.IH[of best] best show ?thesis by auto
  next
    case (Some el)
    show ?thesis
    proof (cases "la > 0 \<and> overlap_val g lp (r_points r) > la * min_overlap_threshold
        \<and> xarea_less (region_area_of g (r_points r)) a0")
      case True
      with Cons.IH[of "(Some el, region_area_of g (r_points r))"] best Some
      show ?thesis by (auto simp: overlap_Inr)
    next
      case False
      then have "find_region g lp la (r # rs) best = find_region g lp la rs best"
        using best Some by (auto simp: overlap_Inr)
      with Cons.IH[of best] show ?thesis by auto
    qed
  qed
qed

lemma orphan_branch_eq:
  "orphan_branch w page d n line =
     (fst (add_text_line w
             (fst (add_region w d page ''TextRegion'' (l_points line)
                     (Some (''r_orphan'' @ fmt04 n))
                     (Some (dict_get (l_config line) ''parent_type'' ''paragraph''))))
             (length (elems d)) (l_points line) (Some (l_id line))),
      Suc n)"
  by (simp add: orphan_branch_def add_region_nodes add_text_line_nodes)

lemma fourth_pass_line_result:
  "(\<exists>tgt. (\<exists>r\<in>set regions. r_element r = Some tgt)
       \<and> fourth_pass_line g w page regions (d, n) line =
           Inr (fst (add_text_line w d tgt (l_points line) (Some (l_id line))), n))
   \<or> fourth_pass_line g w page regions (d, n) line = Inr (orphan_branch w page d n line)"
proof -
  from find_region_result[of g "l_points line" "line_area_of g (l_points line)" regions
      "(None, Infinity)"]
  obtain b a where
    f: "find_region g (l_points line) (line_area_of g (l_points line)) regions (None, Infinity)
          = Inr (b, a)"
    and b: "b = None \<or> (\<exists>r\<in>set regions. \<exists>el. r_element r = Some el \<and> b = Some el)"
    by auto
  show ?thesis
  proof (cases b)
    case None
    with f show ?thesis by (simp add: fourth_pass_line_def)
  next
    case (Some tgt)
    with b have "\<exists>r\<in>set regions. r_element r = Some tgt" by auto
    moreover have "fourth_pass_line g w page regions (d, n) line =
           Inr (fst (add_text_line w d tgt (l_points line) (Some (l_id line))), n)"
      using f Some by (simp add: fourth_pass_line_def)
    ultimately show ?thesis by blast
  qed
qed

lemma nth_add_text_line_other:
  "a < length (elems d) \<Longrightarrow> a \<noteq> p \<Longrightarrow>
     elems (fst (add_text_line w d p pts (Some i))) ! a = elems d ! a"
  by (simp add: add_text_line_nodes nth_add_node_other)

lemma nth_add_region_other:
  "a < length (elems d) \<Longrightarrow> a \<noteq> p \<Longrightarrow>
     elems (fst (add_region w d p et pts (Some i) rt)) ! a = elems d ! a"
  by (simp add: add_region_nodes nth_add_node_other)

lemma nth_orphan_branch_other:
  "a < length (elems d) \<Longrightarrow> a \<noteq> page \<Longrightarrow>
     elems (fst (orphan_branch w page d n line)) ! a = elems d ! a"
  by (simp add: orphan_branch_eq nth_add_text_line_other nth_add_region_other)

lemma length_orphan_branch [simp]:
  "length (elems (fst (orphan_branch w page d n line))) = length (elems d) + 4"
  by (simp add: orphan_branch_eq)

lemma fourth_pass_line_frame:
  assumes "fourth_pass_line g w page regions (d, n) line = Inr (d1, n1)"
    and "a < length (elems d)" "a \<noteq> page" "\<forall>r\<in>set regions. r_element r \<noteq> Some a"
  shows "elems d1 ! a = elems d ! a \<and> a < length (elems d1)"
  using fourth_pass_line_result[of regions g w page d n line]
proof
  assume "\<exists>tgt. (\<exists>r\<in>set regions. r_element r = Some tgt)
       \<and> fourth_pass_line g w page regions (d, n) line =
           Inr (fst (add_text_line w d tgt (l_points line) (Some (l_id line))), n)"
  then obtain tgt where t: "\<exists>r\<in>set regions. r_element r = Some tgt"
    and r: "fourth_pass_line g w page regions (d, n) line =
           Inr (fst (add_text_line w d tgt (l_points line) (Some (l_id line))), n)"
    by blast
  from t assms(4) have "a \<noteq> tgt" by auto
  with r assms(1,2) show ?thesis by (auto simp: nth_add_text_line_other)
next
  assume "fourth_pass_line g w page regions (d, n) line = Inr (orphan_branch w page d n line)"
  with assms(1) have "d1 = fst (orphan_branch w page d n line)" by (cases "orphan_branch w page d n line") simp
  with assms(2,3) show ?thesis by (simp add: nth_orphan_branch_other)
qed

lemma fourth_pass_frame:
  assumes "fourth_pass g w page regions (d, n) lines = Inr (d', n')"
    and "a < length (elems d)" "a \<noteq> page" "\<forall>r\<in>set regions. r_element r \<noteq> Some a"
  shows "elems d' ! a = elems d ! a"
  using assms(1,2)
proof (induction lines arbitrary: d n)
  case Nil
  then show ?case by simp
next
  case (Cons line lines)
  from Cons.prems(1) obtain d1 n1 where
    s: "fourth_pass_line g w page regions (d, n) line = Inr (d1, n1)"
    and r: "fourth_pass g w page regions (d1, n1) lines = Inr (d', n')"
    by (auto split: sum.splits)
  from fourth_pass_line_frame[OF s Cons.prems(2) assms(3,4)]
  have 1: "elems d1 ! a = elems d ! a" and 2: "a < length (elems d1)" by simp_all
  from Cons.IH[OF r 2] 1 show ?case by simp
qed

lemma tree_shaped_orphan_branch:
  "tree_shaped d \<Longrightarrow> page < length (elems d) \<Longrightarrow> tree_shaped (fst (orphan_branch w page d n line))"
  by (simp add: orphan_branch_eq tree_shaped_add_region tree_shaped_add_text_line)

lemma regions_ok_orphan_branch:
  "regions_ok d rs \<Longrightarrow> regions_ok (fst (orphan_branch w page d n line)) rs"
  by (simp add: orphan_branch_eq regions_ok_add_region regions_ok_add_text_line)

lemma node_count_orphan_branch:
  "node_count (fst (orphan_branch w page d n line)) = node_count d + 2"
  by (simp add: orphan_branch_eq node_count_add_region node_count_add_text_line node_tags_def)

lemma line_count_orphan_branch:
  "line_count (fst (orphan_branch w page d n line)) = Suc (line_count d)"
  by (simp add: orphan_branch_eq line_count_add_region line_count_add_text_line)

lemma snd_orphan_branch [simp]: "snd (orphan_branch w page d n line) = Suc n"
  by (simp add: orphan_branch_eq)

lemma fourth_pass_line_props:
  assumes ok: "regions_ok d regions" and pg: "page < length (elems d)" and ts: "tree_shaped d"
  shows "\<exists>d1 n1. fourth_pass_line g w page regions (d, n) line = Inr (d1, n1)
     \<and> n \<le> n1
     \<and> node_count d1 + n = Suc (node_count d + n1)
     \<and> line_count d1 = Suc (line_count d)
     \<and> tree_shaped d1 \<and> regions_ok d1 regions \<and> page < length (elems d1)"
  using fourth_pass_line_result[of regions g w page d n line]
proof
  assume "\<exists>tgt. (\<exists>r\<in>set regions. r_element r = Some tgt)
       \<and> fourth_pass_line g w page regions (d, n) line =
           Inr (fst (add_text_line w d tgt (l_points line) (Some (l_id line))), n)"
  then obtain tgt r where t: "r \<in> set regions" "r_element r = Some tgt"
    and res: "fourth_pass_line g w page regions (d, n) line =
           Inr (fst (add_text_line w d tgt (l_points line) (Some (l_id line))), n)"
    by blast
  from regions_ok_element[OF ok t] have tl: "tgt < length (elems d)" .
  let ?d1 = "fst (add_text_line w d tgt (l_points line) (Some (l_id line)))"
  have "tree_shaped ?d1" using ts tl by (rule tree_shaped_add_text_line)
  moreover have "regions_ok ?d1 regions" using ok by (rule regions_ok_add_text_line)
  moreover have "page < length (elems ?d1)" using pg by simp
  moreover have "node_count ?d1 + n = Suc (node_count d + n)"
    by (simp add: node_count_add_text_line)
  moreover have "line_count ?d1 = Suc (line_count d)" by (simp add: line_count_add_text_line)
  ultimately show ?thesis using res by blast
next
  assume res: "fourth_pass_line g w page regions (d, n) line = Inr (orphan_branch w page d n line)"
  let ?d1 = "fst (orphan_branch w page d n line)"
  have e: "orphan_branch w page d n line = (?d1, Suc n)"
    by (simp add: orphan_branch_eq)
  have "tree_shaped ?d1" using ts pg by (rule tree_shaped_orphan_branch)
  moreover have "regions_ok ?d1 regions" using ok by (rule regions_ok_orphan_branch)
  moreover have "page < length (elems ?d1)" using pg by simp
  moreover have "node_count ?d1 + n = Suc (node_count d + Suc n)"
    by (simp add: node_count_orphan_branch)
  moreover have "line_count ?d1 = Suc (line_count d)" by (simp add: line_count_orphan_branch)
  moreover have "fourth_pass_line g w page regions (d, n) line = Inr (?d1, Suc n)"
    using res e by simp
  ultimately show ?thesis by (intro exI[of _ ?d1] exI[of _ "Suc n"]) simp
qed

lemma fourth_pass_props:
  assumes "regions_ok d regions" "page < length (elems d)" "tree_shaped d"
  shows "\<exists>d' n'. fourth_pass g w page regions (d, n) lines = Inr (d', n')
     \<and> n \<le> n'
     \<and> node_count d' + n = node_count d + length lines + n'
     \<and> line_count d' = line_count d + length lines
     \<and> tree_shaped d'"
  using assms
proof (induction lines arbitrary: d n)
  case Nil
  then show ?case by simp
next
  case (Cons line lines)
  from fourth_pass_line_props[OF Cons.prems, of g w n line] obtain d1 n1 where
    s: "fourth_pass_line g w page regions (d, n) line = Inr (d1, n1)"
    and le: "n \<le> n1"
    and nc: "node_count d1 + n = Suc (node_count d + n1)"
    and lc: "line_count d1 = Suc (line_count d)"
    and inv: "tree_shaped d1" "regions_ok d1 regions" "page < length (elems d1)"
    by blast
  from Cons.IH[OF inv(2,3,1), of n1] obtain d' n' where
    r: "fourth_pass g w page regions (d1, n1) lines = Inr (d', n')"
    and le': "n1 \<le> n'"
    and nc': "node_count d' + n1 = node_count d1 + length lines + n'"
    and lc': "line_count d' = line_count d1 + length lines"
    and ts': "tree_shaped d'"
    by blast
  have "fourth_pass g w page regions (d, n) (line # lines) = Inr (d', n')"
    by (simp add: s r)
  moreover have "n \<le> n'" using le le' by simp
  moreover have "node_count d' + n = node_count d + length (line # lines) + n'"
    using nc nc' by simp
  moreover have "line_count d' = line_count d + length (line # lines)"
    using lc lc' by simp
  ultimately show ?case using ts' by blast
qed

section \<open>The page element\<close>

lemma SubElement_explicit:
  "SubElement \<lparr>elems = es, uuid_calls = u\<rparr> p t =
     (\<lparr>elems = es[p := (es ! p)\<lparr>children := children (es ! p) @ [length es]\<rparr>]
               @ [\<lparr>tag = t, attrib = [], elem_text = None, children = []\<rparr>], uuid_calls = u\<rparr>,
      length es)"
  by (simp add: SubElement_def Let_def)

lemma set_attr_explicit:
  "set_attr \<lparr>elems = es, uuid_calls = u\<rparr> a k v =
     \<lparr>elems = es[a := (es ! a)\<lparr>attrib := AList.update k v (attrib (es ! a))\<rparr>], uuid_calls = u\<rparr>"
  by (simp add: set_attr_def)

lemma set_text_explicit:
  "set_text \<lparr>elems = es, uuid_calls = u\<rparr> a s =
     \<lparr>elems = es[a := (es ! a)\<lparr>elem_text := Some s\<rparr>], uuid_calls = u\<rparr>"
  by (simp add: set_text_def)

lemma create_page_element_eq:
  "create_page_element w img_name iw ih = (\<lparr>elems = page_elems w img_name iw ih, uuid_calls = 0\<rparr>, 5)"
proof -
  let ?R = "\<lambda>c. \<lparr>tag = ''PcGts'',
         attrib =
           [(''xmlns'', PAGE_NS),
            (''xmlns:xsi'', ''http://www.w3.org/2001/XMLSchema-instance''),
            (''xsi:schemaLocation'',
             PAGE_NS @ '' http://schema.primaresearch.org/PAGE/gts/pagecontent/2019-07-15/pagecontent.xsd'')],
         elem_text = None, children = c\<rparr>"
  let ?M = "\<lambda>c. \<lparr>tag = ''Metadata'', attrib = [], elem_text = None, children = c\<rparr>"
  let ?E = "\<lambda>t x. \<lparr>tag = t, attrib = [], elem_text = x, children = []\<rparr>"
  let ?P = "\<lambda>a. \<lparr>tag = ''Page'', attrib = a, elem_text = None, children = []\<rparr>"
  let ?D = "\<lambda>es. \<lparr>elems = es, uuid_calls = 0\<rparr>"
  let ?c = "?E ''Creator'' (Some ''YoloPageConverter'')"
  let ?t0 = "?E ''Created'' (Some (now_isoformat w 0))"
  let ?t1 = "?E ''LastChange'' (Some (now_isoformat w 1))"
  have 1: "set_attr (set_attr (set_attr (Element ''PcGts'') 0 ''xmlns'' PAGE_NS) 0 ''xmlns:xsi''
              ''http://www.w3.org/2001/XMLSchema-instance'') 0 ''xsi:schemaLocation''
              (PAGE_NS @ '' http://schema.primaresearch.org/PAGE/gts/pagecontent/2019-07-15/pagecontent.xsd'')
    = ?D [?R []]"
    by (simp add: Element_def set_attr_explicit)
  have 2: "SubElement (?D [?R []]) 0 ''Metadata'' = (?D [?R [1], ?M []], 1)"
    by (simp add: SubElement_explicit)
  have 3: "set_text (fst (SubElement (?D [?R [1], ?M []]) 1 ''Creator''))
             (snd (SubElement (?D [?R [1], ?M []]) 1 ''Creator'')) ''YoloPageConverter''
      = ?D [?R [1], ?M [2], ?c]"
    by (simp add: SubElement_explicit set_text_explicit)
  have 4: "set_text (fst (SubElement (?D [?R [1], ?M [2], ?c]) 1 ''Created''))
             (snd (SubElement (?D [?R [1], ?M [2], ?c]) 1 ''Created'')) (now_isoformat w 0)
      = ?D [?R [1], ?M [2, 3], ?c, ?t0]"
    by (simp add: SubElement_explicit set_text_explicit)
  have 5: "set_text (fst (SubElement (?D [?R [1], ?M [2, 3], ?c, ?t0]) 1 ''LastChange''))
             (snd (SubElement (?D [?R [1], ?M [2, 3], ?c, ?t0]) 1 ''LastChange'')) (now_isoformat w 1)
      = ?D [?R [1], ?M [2, 3, 4], ?c, ?t0, ?t1]"
    by (simp add: SubElement_explicit set_text_explicit)
  have 6: "SubElement (?D [?R [1], ?M [2, 3, 4], ?c, ?t0, ?t1]) 0 ''Page''
      = (?D [?R [1, 5], ?M [2, 3, 4], ?c, ?t0, ?t1, ?P []], 5)"
    by (simp add: SubElement_explicit)
  have 7: "set_attr (set_attr (set_attr (?D [?R [1, 5], ?M [2, 3, 4], ?c, ?t0, ?t1, ?P []])
              5 ''imageFilename'' img_name) 5 ''imageWidth'' (py_str iw)) 5 ''imageHeight'' (py_str ih)
      = ?D (page_elems w img_name iw ih)"
    by (simp add: set_attr_explicit page_elems_def)
  show ?thesis
    unfolding create_page_element_def
    by (simp only: Let_def split_beta 1 2 3 4 5 6 7 fst_conv snd_conv)
qed

lemma length_page_elems [simp]: "length (page_elems w img_name iw ih) = 6"
  by (simp add: page_elems_def)

lemma node_count_page: "node_count \<lparr>elems = page_elems w img_name iw ih, uuid_calls = 0\<rparr> = 0"
  by (simp add: node_count_def page_elems_def node_tags_def opaque_types_def)

lemma line_count_page: "line_count \<lparr>elems = page_elems w img_name iw ih, uuid_calls = 0\<rparr> = 0"
  by (simp add: line_count_def page_elems_def)

lemma tree_shaped_root: "tree_shaped (Element t)"
  by (simp add: tree_shaped_def Element_def owner_count_def)

lemma page_elems_add_node:
  "page_elems w img_name iw ih =
     add_node (add_node (add_node (add_node (add_node
       [\<lparr>tag = ''PcGts'',
         attrib =
           [(''xmlns'', PAGE_NS),
            (''xmlns:xsi'', ''http://www.w3.org/2001/XMLSchema-instance''),
            (''xsi:schemaLocation'',
             PAGE_NS @ '' http://schema.primaresearch.org/PAGE/gts/pagecontent/2019-07-15/pagecontent.xsd'')],
         elem_text = None, children = []\<rparr>]
       0 \<lparr>tag = ''Metadata'', attrib = [], elem_text = None, children = []\<rparr>)
       1 \<lparr>tag = ''Creator'', attrib = [], elem_text = Some ''YoloPageConverter'', children = []\<rparr>)
       1 \<lparr>tag = ''Created'', attrib = [], elem_text = Some (now_isoformat w 0), children = []\<rparr>)
       1 \<lparr>tag = ''LastChange'', attrib = [], elem_text = Some (now_isoformat w 1), children = []\<rparr>)
       0 \<lparr>tag = ''Page'',
          attrib =
            [(''imageFilename'', img_name), (''imageWidth'', py_str iw),
             (''imageHeight'', py_str ih)],
          elem_text = None, children = []\<rparr>"
  by (simp add: page_elems_def add_node_def append_child_def)


lemma tree_shaped_add_node_explicit:
  "tree_shaped \<lparr>elems = es, uuid_calls = u\<rparr> \<Longrightarrow> p < length es \<Longrightarrow> children e = [] \<Longrightarrow>
     tree_shaped \<lparr>elems = add_node es p e, uuid_calls = u\<rparr>"
  using tree_shaped_add_node[of "\<lparr>elems = es, uuid_calls = u\<rparr>" p e] by simp

lemma tree_shaped_single:
  "children e = [] \<Longrightarrow> tree_shaped \<lparr>elems = [e], uuid_calls = u\<rparr>"
  by (simp add: tree_shaped_def owner_count_def)

lemma tree_shaped_page: "tree_shaped \<lparr>elems = page_elems w img_name iw ih, uuid_calls = 0\<rparr>"
  unfolding page_elems_add_node
  by (intro tree_shaped_add_node_explicit tree_shaped_single) simp_all

section \<open>Counting through the first pass\<close>

lemma parse_points_length:
  "parse_points fl ts = Inr ps \<Longrightarrow> length ps = length ts div 2"
  by (induction fl ts arbitrary: ps rule: parse_points.induct) (auto split: sum.splits)

lemma parse_yolo_label_cases:
  assumes "parse_yolo_label fl line = Inr (class_id, norm_points)"
  shows "(length (py_split (py_strip line)) < 7 \<and> class_id = None \<and> norm_points = [])
       \<or> (7 \<le> length (py_split (py_strip line)) \<and> norm_points \<noteq> []
           \<and> (\<exists>c. py_int (py_split (py_strip line) ! 0) = Inr c \<and> class_id = Some c))"
proof (cases "length (py_split (py_strip line)) < 7")
  case True
  with assms show ?thesis by (simp add: parse_yolo_label_def)
next
  case False
  with assms obtain c where c: "py_int (py_split (py_strip line) ! 0) = Inr c" "class_id = Some c"
    and p: "parse_points fl (tl (py_split (py_strip line))) = Inr norm_points"
    by (auto simp: parse_yolo_label_def Let_def split: sum.splits)
  from parse_points_length[OF p] False have "norm_points \<noteq> []" by auto
  with c False show ?thesis by auto
qed

lemma element_type_of_short:
  "length (py_split (py_strip line)) < 7 \<Longrightarrow> element_type_of m line = None"
  by (simp add: element_type_of_def)

lemma element_type_of_long:
  "7 \<le> length (py_split (py_strip line)) \<Longrightarrow> py_int (py_split (py_strip line) ! 0) = Inr c \<Longrightarrow>
     element_type_of m line =
       (if dict_get m (py_str c) [] = [] then None
        else Some (dict_get (dict_get m (py_str c) []) ''element'' ''TextLine''))"
  by (simp add: element_type_of_def Let_def)

lemma opaque_not_line: "t \<in> set opaque_types \<Longrightarrow> t \<noteq> ''TextLine'' \<and> t \<in> set node_tags"
  by (auto simp: opaque_types_def node_tags_def)

lemma categorize_pending_nodes:
  "pending_nodes (categorize w m page idx (Some c) pts st) =
     pending_nodes st +
       (if dict_get m (py_str c) [] \<noteq> []
           \<and> dict_get (dict_get m (py_str c) []) ''element'' ''TextLine'' \<in> set node_tags
        then 1 else 0)"
  by (auto simp: categorize_def Let_def pending_nodes_def str_of_class_id_def
      node_count_add_region node_tags_def)

lemma categorize_pending_lines:
  "pending_lines (categorize w m page idx (Some c) pts st) =
     pending_lines st +
       (if dict_get m (py_str c) [] \<noteq> []
           \<and> dict_get (dict_get m (py_str c) []) ''element'' ''TextLine'' = ''TextLine''
        then 1 else 0)"
  using opaque_not_line
  by (auto simp: categorize_def Let_def pending_lines_def str_of_class_id_def
      line_count_add_region)

lemma categorize_tree:
  "tree_shaped (tree st) \<Longrightarrow> page < length (elems (tree st)) \<Longrightarrow>
     tree_shaped (tree (categorize w m page idx cid pts st))
     \<and> page < length (elems (tree (categorize w m page idx cid pts st)))"
  by (auto simp: categorize_def Let_def tree_shaped_add_region)

lemma first_pass_line_props:
  assumes "first_pass_line fl w m page iw ih idx line st = Inr st'"
  shows "pending_nodes st' = pending_nodes st + (if recognised_line m line then 1 else 0)
     \<and> pending_lines st' = pending_lines st + (if leaf_line m line then 1 else 0)
     \<and> (tree_shaped (tree st) \<and> page < length (elems (tree st))
          \<longrightarrow> tree_shaped (tree st') \<and> page < length (elems (tree st')))"
proof (cases "py_strip line = []")
  case True
  with assms have "st' = st" by (simp add: first_pass_line_def)
  moreover from True have "element_type_of m line = None" by (simp add: element_type_of_def)
  ultimately show ?thesis by (simp add: recognised_line_def leaf_line_def)
next
  case False
  with assms obtain class_id norm_points where
    p: "parse_yolo_label fl line = Inr (class_id, norm_points)"
    by (auto simp: first_pass_line_def split: sum.splits)
  from parse_yolo_label_cases[OF p] show ?thesis
  proof
    assume a: "length (py_split (py_strip line)) < 7 \<and> class_id = None \<and> norm_points = []"
    with assms p False have "st' = st" by (simp add: first_pass_line_def)
    with a show ?thesis by (simp add: recognised_line_def leaf_line_def element_type_of_short)
  next
    assume "7 \<le> length (py_split (py_strip line)) \<and> norm_points \<noteq> []
           \<and> (\<exists>c. py_int (py_split (py_strip line) ! 0) = Inr c \<and> class_id = Some c)"
    then obtain c where l: "7 \<le> length (py_split (py_strip line))" and ne: "norm_points \<noteq> []"
      and c: "py_int (py_split (py_strip line) ! 0) = Inr c" "class_id = Some c"
      by blast
    from assms p False ne c obtain abs_points where
      st': "st' = categorize w m page idx (Some c) abs_points st"
      by (auto simp: first_pass_line_def split: sum.splits)
    show ?thesis
      unfolding st' recognised_line_def leaf_line_def element_type_of_long[OF l c(1)]
      using categorize_tree[of st page w m idx "Some c" abs_points]
      by (simp add: categorize_pending_nodes categorize_pending_lines)
  qed
qed

lemma first_pass_props:
  assumes "first_pass fl w m page iw ih idx lines st = Inr st'"
    and "tree_shaped (tree st)" "page < length (elems (tree st))"
  shows "pending_nodes st' = pending_nodes st + length (filter (recognised_line m) lines)
     \<and> pending_lines st' = pending_lines st + length (filter (leaf_line m) lines)
     \<and> tree_shaped (tree st') \<and> page < length (elems (tree st'))"
  using assms
proof (induction lines arbitrary: idx st)
  case Nil
  then show ?case by simp
next
  case (Cons line lines)
  from Cons.prems(1) obtain st1 where
    s: "first_pass_line fl w m page iw ih idx line st = Inr st1"
    and r: "first_pass fl w m page iw ih (Suc idx) lines st1 = Inr st'"
    by (auto split: sum.splits)
  from first_pass_line_props[OF s] Cons.prems(2,3) have
    1: "pending_nodes st1 = pending_nodes st + (if recognised_line m line then 1 else 0)"
    and 2: "pending_lines st1 = pending_lines st + (if leaf_line m line then 1 else 0)"
    and 3: "tree_shaped (tree st1)" "page < length (elems (tree st1))"
    by simp_all
  from Cons.IH[OF r 3] 1 2 show ?case by simp
qed

section \<open>The whole conversion\<close>

lemma convert_page_stages:
  assumes "convert_page g fl w m (Some lines) (Some (img_name, iw, ih)) = Inr (d, ws, n)"
  shows "\<exists>st d2 cs os.
      first_pass fl w m 5 iw ih 0 lines
        (initial_state \<lparr>elems = page_elems w img_name iw ih, uuid_calls = 0\<rparr>) = Inr st
    \<and> third_pass g w 5 (snd (second_pass w 5 (tree st) (parent_text_regions st)))
        (fst (second_pass w 5 (tree st) (parent_text_regions st))) (child_text_regions st)
        = Inr (d2, cs, os)
    \<and> fourth_pass g w 5 (snd (second_pass w 5 (tree st) (parent_text_regions st)) @ cs) (d2, 0)
        (text_lines st) = Inr (d, n)
    \<and> ws = warnings st"
  using assms
  by (auto simp: convert_page_def create_page_element_eq split: sum.splits prod.splits)


section \<open>The two example pages\<close>

lemma fmt04_0: "fmt04 0 = ''0000''"
  by code_simp

lemma example_line_tokens:
  "py_strip example_label_line = ''0 0.25 0.25 0.5 0.25 0.5 0.5 0.25 0.5''"
  "py_split ''0 0.25 0.25 0.5 0.25 0.5 0.5 0.25 0.5''
     = [''0'', ''0.25'', ''0.25'', ''0.5'', ''0.25'', ''0.5'', ''0.5'', ''0.25'', ''0.5'']"
  unfolding example_label_line_def by code_simp+

lemma example_floats:
  "dec_float ''0.25'' = Inr (1 / 4)" "dec_float ''0.5'' = Inr (1 / 2)"
  by (simp_all add: dec_float_def dec_unsigned_def is_digit_def digits_value_def digit_val_def)

lemma parse_example_line:
  "parse_yolo_label dec_floats example_label_line
     = Inr (Some 0, [(1 / 4, 1 / 4), (1 / 2, 1 / 4), (1 / 2, 1 / 2), (1 / 4, 1 / 2)])"
proof -
  have i: "py_int ''0'' = Inr 0"
    by (simp add: py_int_def int_signed_def int_space_def int_max_str_digits_def int_literal_def
        is_digit_def digit_val_def)
  show ?thesis
    by (simp add: parse_yolo_label_def example_line_tokens i example_floats dec_floats_def)
qed

lemma denormalize_example:
  "denormalize_points dec_floats [(1 / 4, 1 / 4), (1 / 2, 1 / 4), (1 / 2, 1 / 2), (1 / 4, 1 / 2)] 100 100
     = Inr [(25, 25), (50, 25), (50, 50), (25, 50)]"
  by (simp add: dec_floats_def)

lemma first_pass_example:
  "first_pass dec_floats w m page 100 100 0 [example_label_line] st
     = Inr (categorize w m page 0 (Some 0) [(25, 25), (50, 25), (50, 50), (25, 50)] st)"
  by (simp add: first_pass_line_def parse_example_line denormalize_example example_line_tokens
      del: denormalize_points.simps)

lemma convert_maths_page:
  "convert_page box_geometry dec_floats example_world maths_mapping
     (Some [example_label_line]) (Some (''a.png'', 100, 100))
   = Inr (\<lparr>elems = page_elems example_world ''a.png'' 100 100, uuid_calls = 0\<rparr>, [], 0)"
proof -
  have c: "categorize example_world maths_mapping 5 0 (Some 0) pts st = st" for pts st
    by (simp add: categorize_def dict_get_def maths_mapping_def str_of_class_id_def py_str_digit
        opaque_types_def)
  show ?thesis
    by (simp add: convert_page_def create_page_element_eq first_pass_example c initial_state_def
        del: first_pass.simps)
qed

lemma convert_untyped_page:
  "convert_page box_geometry dec_floats example_world untyped_mapping
     (Some [example_label_line]) (Some (''a.png'', 100, 100))
   = Inr (untyped_orphan_tree, [], 1)"
proof -
  let ?line = "\<lparr>l_points = [(25, 25), (50, 25), (50, 50), (25, 50)], l_id = ''l0000'',
      l_config = [(''element'', ''TextLine''), (''parent_type'', [])]\<rparr>"
  let ?d0 = "\<lparr>elems = page_elems example_world ''a.png'' 100 100, uuid_calls = 0\<rparr>"
  have c: "categorize example_world untyped_mapping 5 0 (Some 0)
        [(25, 25), (50, 25), (50, 50), (25, 50)]
        \<lparr>parent_text_regions = [], child_text_regions = [], text_lines = [], tree = ?d0,
         warnings = []\<rparr>
      = \<lparr>parent_text_regions = [], child_text_regions = [], text_lines = [?line], tree = ?d0,
         warnings = []\<rparr>"
    by (simp add: categorize_def dict_get_def untyped_mapping_def str_of_class_id_def py_str_digit
        fmt04_0)
  have o: "orphan_branch example_world 5 ?d0 0 ?line = (untyped_orphan_tree, 1)"
    by (simp add: orphan_branch_eq add_region_Some add_text_line_Some dict_get_def fmt04_0
        region_attrib_def untyped_orphan_tree_def append_child_def nth_append list_update_append)
  have f: "fourth_pass_line box_geometry example_world 5 [] (?d0, 0) ?line
      = Inr (untyped_orphan_tree, 1)"
    by (simp add: fourth_pass_line_def o)
  show ?thesis
    by (simp add: convert_page_def create_page_element_eq first_pass_example c initial_state_def f
        del: first_pass.simps)
qed



section \<open>Lines without a region\<close>

lemma not_qualifies_orphan:
  assumes none: "\<forall>r\<in>set regions. \<not> qualifies g (l_points line) r"
  shows "fourth_pass_line g w page regions (d, n) line = Inr (orphan_branch w page d n line)"
proof (rule fourth_pass_line_orphan, rule ballI)
  fix r assume r: "r \<in> set regions"
  show "\<not> (0 < line_area_of g (l_points line) \<and> r_element r \<noteq> None
        \<and> overlap_val g (l_points line) (r_points r)
            > line_area_of g (l_points line) * min_overlap_threshold)"
  proof (cases "invalid_polygon g (l_points line)")
    case True
    then show ?thesis by (simp add: line_area_of_invalid)
  next
    case False
    from none r have "\<not> qualifies g (l_points line) r" by blast
    then show ?thesis
      by (simp add: line_area_of_valid[OF False] qualifies_def min_overlap_threshold_def)
  qed
qed

lemma orphan_branch_elems:
  "orphan_branch w page d n line =
     (d\<lparr>elems := append_child (elems d) page (length (elems d)) @
         [\<lparr>tag = ''TextRegion'',
           attrib = (''id'', ''r_orphan'' @ fmt04 n) #
             (if dict_get (l_config line) ''parent_type'' ''paragraph'' = [] then []
              else [(''type'', dict_get (l_config line) ''parent_type'' ''paragraph'')]),
           elem_text = None,
           children = [length (elems d) + 1, length (elems d) + 2]\<rparr>,
          coords_elem (l_points line),
          \<lparr>tag = ''TextLine'', attrib = [(''id'', l_id line)], elem_text = None,
           children = [length (elems d) + 3]\<rparr>,
          coords_elem (l_points line)]\<rparr>,
      Suc n)"
  by (simp add: orphan_branch_eq add_region_Some add_text_line_Some region_attrib_def
      append_child_def nth_append list_update_append)

text \<open>
  Claim C4, as amended. When no region qualifies for a line (no region with an element
  overlaps the line by more than 0.1 times the line's area), the loop body makes one new
  TextRegion as the last child of Page, with the id of an orphan region, holding its Coords
  and the TextLine of that line and nothing else, and adds one to the counter of orphan
  lines. The region has the attribute \<^verbatim>\<open>type\<close> with the line's \<^verbatim>\<open>parent_type\<close> (paragraph when
  the configuration has none) when that is not the empty string, and no such attribute
  when it is empty. The lines placed afterwards leave the new region as it is.
\<close>

theorem orphan_line_gets_own_region:
  assumes none: "\<forall>r\<in>set regions. \<not> qualifies g (l_points line) r"
    and page: "page < length (elems d)"
    and regs: "\<forall>r\<in>set regions. \<forall>el. r_element r = Some el \<longrightarrow> el < length (elems d)"
  shows "fourth_pass_line g w page regions (d, n) line = Inr (orphan_branch w page d n line)
     \<and> orphan_branch w page d n line =
         (d\<lparr>elems := append_child (elems d) page (length (elems d)) @
             [\<lparr>tag = ''TextRegion'',
               attrib = (''id'', ''r_orphan'' @ fmt04 n) #
                 (if dict_get (l_config line) ''parent_type'' ''paragraph'' = [] then []
                  else [(''type'', dict_get (l_config line) ''parent_type'' ''paragraph'')]),
               elem_text = None,
               children = [length (elems d) + 1, length (elems d) + 2]\<rparr>,
              coords_elem (l_points line),
              \<lparr>tag = ''TextLine'', attrib = [(''id'', l_id line)], elem_text = None,
               children = [length (elems d) + 3]\<rparr>,
              coords_elem (l_points line)]\<rparr>,
          Suc n)
     \<and> (\<forall>rest d' n'.
          fourth_pass g w page regions (orphan_branch w page d n line) rest = Inr (d', n')
          \<longrightarrow> elems d' ! length (elems d)
                = elems (fst (orphan_branch w page d n line)) ! length (elems d))"
proof (intro conjI allI impI)
  show "fourth_pass_line g w page regions (d, n) line = Inr (orphan_branch w page d n line)"
    using none by (rule not_qualifies_orphan)
next
  show "orphan_branch w page d n line =
         (d\<lparr>elems := append_child (elems d) page (length (elems d)) @
             [\<lparr>tag = ''TextRegion'',
               attrib = (''id'', ''r_orphan'' @ fmt04 n) #
                 (if dict_get (l_config line) ''parent_type'' ''paragraph'' = [] then []
                  else [(''type'', dict_get (l_config line) ''parent_type'' ''paragraph'')]),
               elem_text = None,
               children = [length (elems d) + 1, length (elems d) + 2]\<rparr>,
              coords_elem (l_points line),
              \<lparr>tag = ''TextLine'', attrib = [(''id'', l_id line)], elem_text = None,
               children = [length (elems d) + 3]\<rparr>,
              coords_elem (l_points line)]\<rparr>,
          Suc n)"
    by (rule orphan_branch_elems)
next
  fix rest d' n'
  assume f: "fourth_pass g w page regions (orphan_branch w page d n line) rest = Inr (d', n')"
  let ?d1 = "fst (orphan_branch w page d n line)"
  have e: "orphan_branch w page d n line = (?d1, Suc n)" by (simp add: orphan_branch_eq)
  have 1: "length (elems d) < length (elems ?d1)" by simp
  have 2: "length (elems d) \<noteq> page" using page by simp
  have 3: "\<forall>r\<in>set regions. r_element r \<noteq> Some (length (elems d))"
    using regs by fastforce
  from f e have "fourth_pass g w page regions (?d1, Suc n) rest = Inr (d', n')" by simp
  from fourth_pass_frame[OF this 1 2 3]
  show "elems d' ! length (elems d) = elems ?d1 ! length (elems d)" .
qed

lemma outer_line_no_region:
  "\<forall>r\<in>set [region_A, region_B]. \<not> qualifies box_geometry (l_points outer_line) r"
  by (simp add: qualifies_def overlap_val_def calculate_polygon_overlap_def overlap_try_def
      polygon_area_def box_geometry_def bbox_def outer_line_def region_A_def region_B_def)

theorem orphan_line_gets_own_region_witness:
  "fourth_pass_line box_geometry example_world 0 [region_A, region_B] (nested_tree, 0) outer_line
     = Inr (orphan_branch example_world 0 nested_tree 0 outer_line)
   \<and> orphan_branch example_world 0 nested_tree 0 outer_line =
       (nested_tree\<lparr>elems := append_child (elems nested_tree) 0 5 @
           [\<lparr>tag = ''TextRegion'',
             attrib = [(''id'', ''r_orphan'' @ fmt04 0), (''type'', ''paragraph'')],
             elem_text = None, children = [6, 7]\<rparr>,
            coords_elem [(20, 20), (30, 20), (30, 25), (20, 25)],
            \<lparr>tag = ''TextLine'', attrib = [(''id'', ''l0003'')], elem_text = None,
             children = [8]\<rparr>,
            coords_elem [(20, 20), (30, 20), (30, 25), (20, 25)]]\<rparr>,
        1)
   \<and> fourth_pass box_geometry example_world 0 [region_A, region_B]
         (orphan_branch example_world 0 nested_tree 0 outer_line) [outer_line]
       = Inr (orphan_branch example_world 0
                (fst (orphan_branch example_world 0 nested_tree 0 outer_line)) 1 outer_line)
   \<and> elems (fst (orphan_branch example_world 0
                (fst (orphan_branch example_world 0 nested_tree 0 outer_line)) 1 outer_line)) ! 5
       = \<lparr>tag = ''TextRegion'',
          attrib = [(''id'', ''r_orphan'' @ fmt04 0), (''type'', ''paragraph'')],
          elem_text = None, children = [6, 7]\<rparr>"
proof -
  have p: "0 < length (elems nested_tree)" by (simp add: nested_tree_def)
  have r: "\<forall>r\<in>set [region_A, region_B]. \<forall>el. r_element r = Some el
      \<longrightarrow> el < length (elems nested_tree)"
    by (simp add: region_A_def region_B_def nested_tree_def)
  have v: "length (elems nested_tree) = 5" "l_id outer_line = ''l0003''"
    "l_points outer_line = [(20, 20), (30, 20), (30, 25), (20, 25)]"
    "dict_get (l_config outer_line) ''parent_type'' ''paragraph'' = ''paragraph''"
    by (simp_all add: nested_tree_def outer_line_def dict_get_def)
  let ?s1 = "orphan_branch example_world 0 nested_tree 0 outer_line"
  have e: "?s1 = (fst ?s1, 1)" by (simp add: orphan_branch_eq)
  have "fourth_pass_line box_geometry example_world 0 [region_A, region_B] (fst ?s1, 1) outer_line
      = Inr (orphan_branch example_world 0 (fst ?s1) 1 outer_line)"
    using outer_line_no_region by (rule not_qualifies_orphan)
  with e have f: "fourth_pass box_geometry example_world 0 [region_A, region_B] ?s1 [outer_line]
      = Inr (orphan_branch example_world 0 (fst ?s1) 1 outer_line)"
    by (metis fourth_pass.simps old.sum.simps(6))
  have o: "orphan_branch example_world 0 (fst ?s1) 1 outer_line
      = (fst (orphan_branch example_world 0 (fst ?s1) 1 outer_line), 2)"
    by (simp add: orphan_branch_eq)
  note t = orphan_line_gets_own_region[OF outer_line_no_region p r, of example_world 0]
  from t have t3: "elems (fst (orphan_branch example_world 0 (fst ?s1) 1 outer_line)) ! 5
      = elems (fst ?s1) ! 5"
    using f o by (metis v(1))
  from t have t2: "elems (fst ?s1) ! 5 = \<lparr>tag = ''TextRegion'',
          attrib = [(''id'', ''r_orphan'' @ fmt04 0), (''type'', ''paragraph'')],
          elem_text = None, children = [6, 7]\<rparr>"
    by (simp add: v nth_append)
  show ?thesis
    using t f t2 t3 by (simp add: v)
qed

text \<open>
  The claim as written fails when the \<^verbatim>\<open>parent_type\<close> of the line's class is configured
  as the empty string: the region made for the line (at address 6) has no \<^verbatim>\<open>type\<close>
  attribute, neither the configured value nor the default.
\<close>

theorem empty_parent_type_gives_untyped_region:
  "map_of untyped_mapping ''0'' = Some [(''element'', ''TextLine''), (''parent_type'', [])]
   \<and> convert_page box_geometry dec_floats example_world untyped_mapping
       (Some [example_label_line]) (Some (''a.png'', 100, 100)) = Inr (untyped_orphan_tree, [], 1)
   \<and> elems untyped_orphan_tree ! 6 =
       \<lparr>tag = ''TextRegion'', attrib = [(''id'', ''r_orphan0000'')], elem_text = None,
        children = [7, 8]\<rparr>
   \<and> map_of (attrib (elems untyped_orphan_tree ! 6)) ''type'' = None"
  using convert_untyped_page by (simp add: untyped_mapping_def untyped_orphan_tree_def nth_append)

section \<open>Independence of the clock and of the id generator\<close>

lemma length_retimed [simp]: "length (elems (retimed a b d)) = length (elems d)"
  by (simp add: retimed_def set_text_def)

lemma children_retimed [simp]:
  "children (elems (retimed a b d) ! i) = children (elems d ! i)"
proof -
  have u: "children ((es[k := (es ! k)\<lparr>elem_text := t\<rparr>]) ! i) = children (es ! i)"
    for es :: "elem list" and k t
    by (cases "k < length es") (simp_all add: nth_list_update list_update_beyond)
  have s: "children (elems (set_text d k t) ! i) = children (elems d ! i)" for d k t
    by (simp add: set_text_def u)
  show ?thesis unfolding retimed_def by (simp only: s)
qed

lemma element_truthy_retimed [simp]: "element_truthy (retimed a b d) e = element_truthy d e"
  by (simp add: element_truthy_def split: option.splits)

lemma retimed_append:
  assumes "4 < length (elems d)"
  shows "retimed a b (d\<lparr>elems := append_child (elems d) p (length (elems d)) @ xs\<rparr>)
       = (retimed a b d)\<lparr>elems := append_child (elems (retimed a b d)) p (length (elems d)) @ xs\<rparr>"
proof -
  have t: "(append_child es p n)[k := (append_child es p n ! k)\<lparr>elem_text := Some s\<rparr>]
         = append_child (es[k := (es ! k)\<lparr>elem_text := Some s\<rparr>]) p n"
    if "k < length es" for es :: "elem list" and k n s
  proof (cases "p = k")
    case True
    with that show ?thesis by (cases "es ! k") (simp add: append_child_def)
  next
    case False
    with that show ?thesis by (simp add: append_child_def list_update_swap)
  qed
  have l: "length (append_child es p n) = length es" for es :: "elem list" and n
    by (simp add: append_child_def)
  have 3: "3 < length (elems d)" and 4: "4 < length (elems d)" using assms by simp_all
  show ?thesis
    using 3 4
    by (simp add: retimed_def set_text_def list_update_append nth_append l t)
qed

lemma add_region_retimed:
  "4 < length (elems d) \<Longrightarrow>
     add_region w2 (retimed a b d) p et pts (Some i) rt =
       (retimed a b (fst (add_region w1 d p et pts (Some i) rt)), length (elems d))"
  by (simp add: add_region_Some retimed_append)

lemma add_text_line_retimed:
  "4 < length (elems d) \<Longrightarrow>
     add_text_line w2 (retimed a b d) p pts (Some i) =
       (retimed a b (fst (add_text_line w1 d p pts (Some i))), length (elems d))"
  by (simp add: add_text_line_Some retimed_append)

lemma categorize_retimed:
  "4 < length (elems (tree st)) \<Longrightarrow>
     categorize w2 m page idx cid pts (st\<lparr>tree := retimed a b (tree st)\<rparr>) =
       (categorize w1 m page idx cid pts st)
         \<lparr>tree := retimed a b (tree (categorize w1 m page idx cid pts st))\<rparr>"
  by (simp add: categorize_def Let_def add_region_retimed[where ?w1.0 = w1])

lemma categorize_length:
  "length (elems (tree st)) \<le> length (elems (tree (categorize w m page idx cid pts st)))"
  by (simp add: categorize_def Let_def)

lemma first_pass_line_retimed:
  "4 < length (elems (tree st)) \<Longrightarrow>
     first_pass_line fl w2 m page iw ih idx line (st\<lparr>tree := retimed a b (tree st)\<rparr>) =
       (case first_pass_line fl w1 m page iw ih idx line st of
          Inl e \<Rightarrow> Inl e
        | Inr st' \<Rightarrow> Inr (st'\<lparr>tree := retimed a b (tree st')\<rparr>))"
  by (simp add: first_pass_line_def categorize_retimed[where ?w1.0 = w1]
      split: sum.splits prod.splits)

lemma first_pass_line_length:
  "first_pass_line fl w m page iw ih idx line st = Inr st' \<Longrightarrow>
     length (elems (tree st)) \<le> length (elems (tree st'))"
  by (auto simp: first_pass_line_def categorize_length split: sum.splits prod.splits if_splits)

lemma first_pass_retimed:
  "4 < length (elems (tree st)) \<Longrightarrow>
     first_pass fl w2 m page iw ih idx lines (st\<lparr>tree := retimed a b (tree st)\<rparr>) =
       (case first_pass fl w1 m page iw ih idx lines st of
          Inl e \<Rightarrow> Inl e
        | Inr st' \<Rightarrow> Inr (st'\<lparr>tree := retimed a b (tree st')\<rparr>))"
proof (induction lines arbitrary: st idx)
  case Nil
  then show ?case by simp
next
  case (Cons line lines)
  show ?case
  proof (cases "first_pass_line fl w1 m page iw ih idx line st")
    case (Inl e)
    then show ?thesis
      using first_pass_line_retimed[OF Cons.prems, of fl w2 m page iw ih idx line a b w1]
      by simp
  next
    case (Inr st1)
    from first_pass_line_length[OF Inr] Cons.prems
    have l: "4 < length (elems (tree st1))" by simp
    show ?thesis
      using first_pass_line_retimed[OF Cons.prems, of fl w2 m page iw ih idx line a b w1]
        Cons.IH[OF l] Inr
      by simp
  qed
qed

lemma first_pass_length:
  "first_pass fl w m page iw ih idx lines st = Inr st' \<Longrightarrow>
     length (elems (tree st)) \<le> length (elems (tree st'))"
proof (induction lines arbitrary: st idx)
  case Nil
  then show ?case by simp
next
  case (Cons line lines)
  from Cons.prems obtain st1 where
    1: "first_pass_line fl w m page iw ih idx line st = Inr st1" and
    2: "first_pass fl w m page iw ih (Suc idx) lines st1 = Inr st'"
    by (auto split: sum.splits)
  from first_pass_line_length[OF 1] Cons.IH[OF 2] show ?case by simp
qed

lemma second_pass_retimed:
  "4 < length (elems d) \<Longrightarrow>
     second_pass w2 page (retimed a b d) rs =
       (retimed a b (fst (second_pass w1 page d rs)), snd (second_pass w1 page d rs))"
proof (induction rs arbitrary: d)
  case Nil
  then show ?case by simp
next
  case (Cons r rs)
  let ?d1 = "fst (add_region w1 d page ''TextRegion'' (r_points r) (Some (r_id r)) (r_type r))"
  have l: "4 < length (elems ?d1)" using Cons.prems by simp
  show ?case
    using Cons.IH[OF l] Cons.prems
    by (simp add: second_pass_Cons add_region_retimed[where ?w1.0 = w1]
        del: second_pass.simps(2))
qed

lemma find_best_parent_retimed [simp]:
  "find_best_parent g (retimed a b d) pts parents t = find_best_parent g d pts parents t"
  by (simp add: find_best_parent_def split: sum.splits prod.splits)

lemma third_pass_child_retimed:
  "4 < length (elems d) \<Longrightarrow>
     third_pass_child g w2 page parents (retimed a b d) c =
       (case third_pass_child g w1 page parents d c of
          Inl e \<Rightarrow> Inl e
        | Inr (d', c', orphan) \<Rightarrow> Inr (retimed a b d', c', orphan))"
  by (simp add: third_pass_child_def add_region_retimed[where ?w1.0 = w1] case_prod_beta
      split: sum.splits option.splits)

lemma third_pass_child_length:
  "third_pass_child g w page parents d c = Inr (d', c', orphan) \<Longrightarrow>
     length (elems d) \<le> length (elems d')"
  by (auto simp: third_pass_child_def add_region_Some split: sum.splits option.splits)

lemma third_pass_retimed:
  "4 < length (elems d) \<Longrightarrow>
     third_pass g w2 page parents (retimed a b d) cs =
       (case third_pass g w1 page parents d cs of
          Inl e \<Rightarrow> Inl e
        | Inr (d', cs', os) \<Rightarrow> Inr (retimed a b d', cs', os))"
proof (induction cs arbitrary: d)
  case Nil
  then show ?case by simp
next
  case (Cons c cs)
  show ?case
  proof (cases "third_pass_child g w1 page parents d c")
    case (Inl e)
    then show ?thesis
      using third_pass_child_retimed[OF Cons.prems, of g w2 page parents a b c w1] by simp
  next
    case (Inr x)
    then obtain d1 c1 o1 where x: "third_pass_child g w1 page parents d c = Inr (d1, c1, o1)"
      by (cases x) auto
    from third_pass_child_length[OF x] Cons.prems have l: "4 < length (elems d1)" by simp
    show ?thesis
      using third_pass_child_retimed[OF Cons.prems, of g w2 page parents a b c w1]
        Cons.IH[OF l] x
      by (simp split: sum.splits prod.splits)
  qed
qed

lemma third_pass_length:
  "third_pass g w page parents d cs = Inr (d', cs', os) \<Longrightarrow>
     length (elems d) \<le> length (elems d')"
proof (induction cs arbitrary: d d' cs' os)
  case Nil
  then show ?case by simp
next
  case (Cons c cs)
  from Cons.prems obtain d1 c1 o1 cs1 os1 where
    1: "third_pass_child g w page parents d c = Inr (d1, c1, o1)" and
    2: "third_pass g w page parents d1 cs = Inr (d', cs1, os1)"
    by (auto split: sum.splits prod.splits)
  from third_pass_child_length[OF 1] Cons.IH[OF 2] show ?case by simp
qed

lemma orphan_branch_retimed:
  "4 < length (elems d) \<Longrightarrow>
     orphan_branch w2 page (retimed a b d) n line =
       (retimed a b (fst (orphan_branch w1 page d n line)), Suc n)"
  by (simp add: orphan_branch_eq add_region_retimed[where ?w1.0 = w1]
      add_text_line_retimed[where ?w1.0 = w1])

lemma fourth_pass_line_retimed:
  "4 < length (elems d) \<Longrightarrow>
     fourth_pass_line g w2 page regions (retimed a b d, n) line =
       (case fourth_pass_line g w1 page regions (d, n) line of
          Inl e \<Rightarrow> Inl e
        | Inr (d', n') \<Rightarrow> Inr (retimed a b d', n'))"
  by (simp add: fourth_pass_line_def Let_def orphan_branch_retimed[where ?w1.0 = w1]
      add_text_line_retimed[where ?w1.0 = w1] case_prod_beta orphan_branch_eq[of w1]
      split: sum.splits option.splits)

lemma fourth_pass_line_length:
  "fourth_pass_line g w page regions (d, n) line = Inr (d', n') \<Longrightarrow>
     length (elems d) \<le> length (elems d')"
  by (auto simp: fourth_pass_line_def Let_def orphan_branch_eq
      split: sum.splits option.splits prod.splits)

lemma fourth_pass_retimed:
  "4 < length (elems d) \<Longrightarrow>
     fourth_pass g w2 page regions (retimed a b d, n) ls =
       (case fourth_pass g w1 page regions (d, n) ls of
          Inl e \<Rightarrow> Inl e
        | Inr (d', n') \<Rightarrow> Inr (retimed a b d', n'))"
proof (induction ls arbitrary: d n)
  case Nil
  then show ?case by simp
next
  case (Cons line ls)
  show ?case
  proof (cases "fourth_pass_line g w1 page regions (d, n) line")
    case (Inl e)
    then show ?thesis
      using fourth_pass_line_retimed[OF Cons.prems, of g w2 page regions a b n line w1] by simp
  next
    case (Inr x)
    then obtain d1 n1 where x: "fourth_pass_line g w1 page regions (d, n) line = Inr (d1, n1)"
      by (cases x) auto
    from fourth_pass_line_length[OF x] Cons.prems have l: "4 < length (elems d1)" by simp
    show ?thesis
      using fourth_pass_line_retimed[OF Cons.prems, of g w2 page regions a b n line w1]
        Cons.IH[OF l] x
      by simp
  qed
qed

lemma retimed_page:
  "retimed a b \<lparr>elems = page_elems w1 img_name iw ih, uuid_calls = 0\<rparr>
     = retimed a b \<lparr>elems = page_elems w2 img_name iw ih, uuid_calls = 0\<rparr>"
  by (simp add: retimed_def set_text_def page_elems_def)

lemma convert_page_retimed:
  "(case convert_page g fl w m (Some lines) (Some (img_name, iw, ih)) of
      Inl e \<Rightarrow> Inl e
    | Inr (d, ws, n) \<Rightarrow> Inr (retimed a b d, ws, n)) =
   (case first_pass fl w' m 5 iw ih 0 lines
           (initial_state (retimed a b \<lparr>elems = page_elems w img_name iw ih, uuid_calls = 0\<rparr>)) of
      Inl e \<Rightarrow> Inl e
    | Inr st \<Rightarrow>
        (case third_pass g w' 5 (snd (second_pass w' 5 (tree st) (parent_text_regions st)))
                (fst (second_pass w' 5 (tree st) (parent_text_regions st)))
                (child_text_regions st) of
           Inl e \<Rightarrow> Inl e
         | Inr (d2, cs, os) \<Rightarrow>
             (case fourth_pass g w' 5
                     (snd (second_pass w' 5 (tree st) (parent_text_regions st)) @ cs) (d2, 0)
                     (text_lines st) of
                Inl e \<Rightarrow> Inl e
              | Inr (d3, n) \<Rightarrow> Inr (d3, warnings st, n))))"
proof -
  let ?d0 = "\<lparr>elems = page_elems w img_name iw ih, uuid_calls = 0\<rparr>"
  have i: "initial_state (retimed a b ?d0)
      = (initial_state ?d0)\<lparr>tree := retimed a b (tree (initial_state ?d0))\<rparr>"
    by (simp add: initial_state_def)
  have l0: "4 < length (elems (tree (initial_state ?d0)))" by (simp add: initial_state_def)
  note fp = first_pass_retimed[OF l0, of fl w' m 5 iw ih 0 lines a b w]
  have cp: "convert_page g fl w m (Some lines) (Some (img_name, iw, ih)) =
      (case first_pass fl w m 5 iw ih 0 lines (initial_state ?d0) of
         Inl e \<Rightarrow> Inl e
       | Inr st \<Rightarrow>
           (case third_pass g w 5 (snd (second_pass w 5 (tree st) (parent_text_regions st)))
                   (fst (second_pass w 5 (tree st) (parent_text_regions st)))
                   (child_text_regions st) of
              Inl e \<Rightarrow> Inl e
            | Inr (d2, cs, os) \<Rightarrow>
                (case fourth_pass g w 5
                        (snd (second_pass w 5 (tree st) (parent_text_regions st)) @ cs) (d2, 0)
                        (text_lines st) of
                   Inl e \<Rightarrow> Inl e
                 | Inr (d3, n) \<Rightarrow> Inr (d3, warnings st, n))))"
    by (simp add: convert_page_def create_page_element_eq case_prod_beta
        split: sum.splits)
  show ?thesis
  proof (cases "first_pass fl w m 5 iw ih 0 lines (initial_state ?d0)")
    case (Inl e)
    then show ?thesis by (simp add: cp i fp)
  next
    case (Inr st)
    let ?ps = "parent_text_regions st"
    let ?sp = "second_pass w 5 (tree st) ?ps"
    from first_pass_length[OF Inr] l0 have l1: "4 < length (elems (tree st))" by simp
    note sp = second_pass_retimed[OF l1, of w' 5 a b ?ps w]
    have l2: "4 < length (elems (fst ?sp))" using l1 by (simp add: second_pass_length)
    note tp = third_pass_retimed[OF l2, of g w' 5 "snd ?sp" a b "child_text_regions st" w]
    show ?thesis
    proof (cases "third_pass g w 5 (snd ?sp) (fst ?sp) (child_text_regions st)")
      case (Inl e)
      then show ?thesis using Inr by (simp add: cp i fp sp tp)
    next
      case r3: (Inr x)
      then obtain d2 cs os where
        x: "third_pass g w 5 (snd ?sp) (fst ?sp) (child_text_regions st) = Inr (d2, cs, os)"
        by (cases x) auto
      from third_pass_length[OF x] l2 have l3: "4 < length (elems d2)" by simp
      note fo = fourth_pass_retimed[OF l3, of g w' 5 "snd ?sp @ cs" a b 0 "text_lines st" w]
      show ?thesis
        using Inr x by (simp add: cp i fp sp tp fo split: sum.splits)
    qed
  qed
qed

text \<open>
  Claim C9. Two runs of \<^verbatim>\<open>convert_page\<close> on the same label file, image file and mapping,
  with any two clocks and any two sources of uuids, end alike: both raise the same
  exception, or both return the same warnings, the same count of orphan lines and trees
  that are equal once the texts of Created and LastChange are set to common values: the
  same elements with the same tags, attributes (the ids included, which are made from the
  position of the record and the count of orphan lines, never drawn from the generator)
  and sub-elements in the same order.
\<close>

theorem conversion_is_repeatable:
  "(case convert_page g fl w1 m label_file image_file of
      Inl e \<Rightarrow> Inl e
    | Inr (d, ws, n) \<Rightarrow> Inr (retimed a b d, ws, n)) =
   (case convert_page g fl w2 m label_file image_file of
      Inl e \<Rightarrow> Inl e
    | Inr (d, ws, n) \<Rightarrow> Inr (retimed a b d, ws, n))"
proof (cases label_file)
  case None
  then show ?thesis by (simp add: convert_page_def)
next
  case lf: (Some lines)
  show ?thesis
  proof (cases image_file)
    case None
    then show ?thesis using lf by (simp add: convert_page_def)
  next
    case (Some t)
    then obtain img_name iw ih where im: "image_file = Some (img_name, iw, ih)"
      by (cases t) auto
    show ?thesis
      unfolding lf im
        convert_page_retimed[where w = w1 and w' = w2]
        convert_page_retimed[where w = w2 and w' = w2]
        retimed_page[where ?w1.0 = w1 and ?w2.0 = w2] ..
  qed
qed

section \<open>How the lists of children grow\<close>

lemma children_add_node:
  "a < length es \<Longrightarrow>
     children (add_node es p e ! a) = children (es ! a) @ (if a = p then [length es] else [])"
  by (simp add: children_add_node_parent nth_add_node_other)

lemma children_add_text_line:
  "a < length (elems d) \<Longrightarrow>
     children (elems (fst (add_text_line w d p pts (Some i))) ! a)
       = children (elems d ! a) @ (if a = p then [length (elems d)] else [])"
  by (simp add: add_text_line_nodes nth_add_node_other children_add_node)

lemma children_add_region:
  "a < length (elems d) \<Longrightarrow>
     children (elems (fst (add_region w d p et pts (Some i) rt)) ! a)
       = children (elems d ! a) @ (if a = p then [length (elems d)] else [])"
  by (simp add: add_region_nodes nth_add_node_other children_add_node)

lemma children_orphan_branch:
  "a < length (elems d) \<Longrightarrow>
     children (elems (fst (orphan_branch w page d n line)) ! a)
       = children (elems d ! a) @ (if a = page then [length (elems d)] else [])"
  by (simp add: orphan_branch_eq children_add_text_line children_add_region)

lemma fourth_pass_line_grows:
  assumes "fourth_pass_line g w page regions (d, n) line = Inr (d1, n1)"
    and "a < length (elems d)"
  shows "length (elems d) \<le> length (elems d1)
     \<and> (\<exists>new. children (elems d1 ! a) = children (elems d ! a) @ new
            \<and> (\<forall>c\<in>set new. length (elems d) \<le> c))"
  using fourth_pass_line_result[of regions g w page d n line]
proof
  assume "\<exists>tgt. (\<exists>r\<in>set regions. r_element r = Some tgt)
       \<and> fourth_pass_line g w page regions (d, n) line =
           Inr (fst (add_text_line w d tgt (l_points line) (Some (l_id line))), n)"
  then obtain tgt where
    "fourth_pass_line g w page regions (d, n) line =
           Inr (fst (add_text_line w d tgt (l_points line) (Some (l_id line))), n)"
    by blast
  with assms(1) have d1: "d1 = fst (add_text_line w d tgt (l_points line) (Some (l_id line)))"
    by simp
  show ?thesis
    unfolding d1 using assms(2) by (simp add: children_add_text_line)
next
  assume "fourth_pass_line g w page regions (d, n) line = Inr (orphan_branch w page d n line)"
  with assms(1) have d1: "d1 = fst (orphan_branch w page d n line)"
    by (cases "orphan_branch w page d n line") simp
  show ?thesis
    unfolding d1 using assms(2) by (simp add: children_orphan_branch)
qed

lemma fourth_pass_grows:
  assumes "fourth_pass g w page regions (d, n) lines = Inr (d', n')"
    and "a < length (elems d)"
  shows "length (elems d) \<le> length (elems d')
     \<and> (\<exists>new. children (elems d' ! a) = children (elems d ! a) @ new
            \<and> (\<forall>c\<in>set new. length (elems d) \<le> c))"
  using assms
proof (induction lines arbitrary: d n)
  case Nil
  then show ?case by simp
next
  case (Cons line lines)
  from Cons.prems(1) obtain d1 n1 where
    s: "fourth_pass_line g w page regions (d, n) line = Inr (d1, n1)"
    and r: "fourth_pass g w page regions (d1, n1) lines = Inr (d', n')"
    by (auto split: sum.splits)
  from fourth_pass_line_grows[OF s Cons.prems(2)] obtain new1 where
    l1: "length (elems d) \<le> length (elems d1)"
    and c1: "children (elems d1 ! a) = children (elems d ! a) @ new1"
    and b1: "\<forall>c\<in>set new1. length (elems d) \<le> c"
    by blast
  from l1 Cons.prems(2) have a1: "a < length (elems d1)" by simp
  from Cons.IH[OF r a1] obtain new2 where
    l2: "length (elems d1) \<le> length (elems d')"
    and c2: "children (elems d' ! a) = children (elems d1 ! a) @ new2"
    and b2: "\<forall>c\<in>set new2. length (elems d1) \<le> c"
    by blast
  have "children (elems d' ! a) = children (elems d ! a) @ (new1 @ new2)"
    using c1 c2 by simp
  moreover have "\<forall>c\<in>set (new1 @ new2). length (elems d) \<le> c"
    using b1 b2 l1 by auto
  moreover have "length (elems d) \<le> length (elems d')" using l1 l2 by simp
  ultimately show ?case by blast
qed

text \<open>
  What stays of one step of the fourth pass at the end of the loop: the elements that the
  step appended are not touched again, and the element that received the first of them
  keeps it in its list of children.
\<close>

lemma fourth_pass_keeps_new:
  assumes rest: "fourth_pass g w page regions (d1, n1) rest = Inr (d', n')"
    and page: "page < k"
    and regs: "\<forall>r\<in>set regions. \<forall>e. r_element r = Some e \<longrightarrow> e < k"
    and a: "k \<le> a" "a < length (elems d1)"
  shows "elems d' ! a = elems d1 ! a"
proof -
  have 1: "a \<noteq> page" using page a by simp
  have 2: "\<forall>r\<in>set regions. r_element r \<noteq> Some a" using regs a by fastforce
  from fourth_pass_frame[OF rest a(2) 1 2] show ?thesis .
qed

lemma orphan_branch_stays:
  assumes rest: "fourth_pass g w page regions (orphan_branch w page d n line) rest = Inr (d', n')"
    and page: "page < length (elems d)"
    and regs: "\<forall>r\<in>set regions. \<forall>e. r_element r = Some e \<longrightarrow> e < length (elems d)"
  shows "(\<exists>more. children (elems d' ! page) = children (elems d ! page) @ length (elems d) # more)
     \<and> (\<forall>i<4. elems d' ! (length (elems d) + i)
                 = elems (fst (orphan_branch w page d n line)) ! (length (elems d) + i))"
proof -
  let ?d1 = "fst (orphan_branch w page d n line)"
  have e: "orphan_branch w page d n line = (?d1, Suc n)" by (simp add: orphan_branch_eq)
  from rest e have r: "fourth_pass g w page regions (?d1, Suc n) rest = Inr (d', n')" by simp
  have p1: "page < length (elems ?d1)" using page by simp
  from fourth_pass_grows[OF r p1] obtain new where
    "children (elems d' ! page) = children (elems ?d1 ! page) @ new" by blast
  then have "children (elems d' ! page) = children (elems d ! page) @ length (elems d) # new"
    using page by (simp add: children_orphan_branch)
  moreover have "elems d' ! (length (elems d) + i) = elems ?d1 ! (length (elems d) + i)"
    if "i < 4" for i
    using fourth_pass_keeps_new[OF r page regs, of "length (elems d) + i"] that by simp
  ultimately show ?thesis by blast
qed

lemma degenerate_no_region:
  assumes "invalid_polygon g (l_points line) \<or> polygon_area g (l_points line) \<le> 0"
  shows "\<forall>r\<in>set regions. \<not> (0 < line_area_of g (l_points line) \<and> r_element r \<noteq> None
        \<and> overlap_val g (l_points line) (r_points r)
            > line_area_of g (l_points line) * min_overlap_threshold)"
proof -
  have "\<not> 0 < line_area_of g (l_points line)"
  proof (cases "invalid_polygon g (l_points line)")
    case True
    then show ?thesis by (simp add: line_area_of_invalid)
  next
    case False
    with assms have "polygon_area g (l_points line) \<le> 0" by simp
    with False show ?thesis by (simp add: line_area_of_valid)
  qed
  then show ?thesis by simp
qed

text \<open>
  Claim C8. A line whose polygon is invalid (it cannot be built, or is not valid) or has
  no area takes the orphan branch whatever the regions are. The inner loop selects no
  region. The step of the loop appends four elements to the tree: a TextRegion with the
  id of an orphan region, made the last child of Page, its Coords, the TextLine of the
  line as the region's second child, and the Coords of the line; and it adds one to the
  counter of orphan lines. The loop goes on from that tree, and at its end the four
  elements are as the step made them, with the region still a child of Page at its place.
\<close>

theorem degenerate_line_is_orphan:
  assumes "invalid_polygon g (l_points line) \<or> polygon_area g (l_points line) \<le> 0"
  shows "find_region g (l_points line) (line_area_of g (l_points line)) regions (None, Infinity)
           = Inr (None, Infinity)
     \<and> fourth_pass_line g w page regions (d, n) line =
         Inr (d\<lparr>elems := append_child (elems d) page (length (elems d)) @
               [\<lparr>tag = ''TextRegion'',
                 attrib = (''id'', ''r_orphan'' @ fmt04 n) #
                   (if dict_get (l_config line) ''parent_type'' ''paragraph'' = [] then []
                    else [(''type'', dict_get (l_config line) ''parent_type'' ''paragraph'')]),
                 elem_text = None,
                 children = [length (elems d) + 1, length (elems d) + 2]\<rparr>,
                coords_elem (l_points line),
                \<lparr>tag = ''TextLine'', attrib = [(''id'', l_id line)], elem_text = None,
                 children = [length (elems d) + 3]\<rparr>,
                coords_elem (l_points line)]\<rparr>,
              Suc n)
     \<and> fourth_pass g w page regions (d, n) (line # rest) =
         fourth_pass g w page regions
           (d\<lparr>elems := append_child (elems d) page (length (elems d)) @
               [\<lparr>tag = ''TextRegion'',
                 attrib = (''id'', ''r_orphan'' @ fmt04 n) #
                   (if dict_get (l_config line) ''parent_type'' ''paragraph'' = [] then []
                    else [(''type'', dict_get (l_config line) ''parent_type'' ''paragraph'')]),
                 elem_text = None,
                 children = [length (elems d) + 1, length (elems d) + 2]\<rparr>,
                coords_elem (l_points line),
                \<lparr>tag = ''TextLine'', attrib = [(''id'', l_id line)], elem_text = None,
                 children = [length (elems d) + 3]\<rparr>,
                coords_elem (l_points line)]\<rparr>,
            Suc n) rest
     \<and> (\<forall>d' n'.
          page < length (elems d)
          \<and> (\<forall>r\<in>set regions. \<forall>e. r_element r = Some e \<longrightarrow> e < length (elems d))
          \<and> fourth_pass g w page regions (d, n) (line # rest) = Inr (d', n')
          \<longrightarrow> (\<exists>more. children (elems d' ! page)
                        = children (elems d ! page) @ length (elems d) # more)
              \<and> elems d' ! length (elems d) =
                  \<lparr>tag = ''TextRegion'',
                   attrib = (''id'', ''r_orphan'' @ fmt04 n) #
                     (if dict_get (l_config line) ''parent_type'' ''paragraph'' = [] then []
                      else [(''type'', dict_get (l_config line) ''parent_type'' ''paragraph'')]),
                   elem_text = None,
                   children = [length (elems d) + 1, length (elems d) + 2]\<rparr>
              \<and> elems d' ! (length (elems d) + 1) = coords_elem (l_points line)
              \<and> elems d' ! (length (elems d) + 2) =
                  \<lparr>tag = ''TextLine'', attrib = [(''id'', l_id line)], elem_text = None,
                   children = [length (elems d) + 3]\<rparr>
              \<and> elems d' ! (length (elems d) + 3) = coords_elem (l_points line))"
proof -
  note none = degenerate_no_region[OF assms, of regions]
  have f: "find_region g (l_points line) (line_area_of g (l_points line)) regions (None, Infinity)
           = Inr (None, Infinity)"
    using find_region_none[OF none, of "(None, Infinity)"] .
  have s: "fourth_pass_line g w page regions (d, n) line = Inr (orphan_branch w page d n line)"
    using fourth_pass_line_orphan[OF none] .
  have l: "fourth_pass g w page regions (d, n) (line # rest)
      = fourth_pass g w page regions (orphan_branch w page d n line) rest"
    by (simp add: s)
  have k: "(\<exists>more. children (elems d' ! page) = children (elems d ! page) @ length (elems d) # more)
     \<and> (\<forall>i<4. elems d' ! (length (elems d) + i)
                 = elems (fst (orphan_branch w page d n line)) ! (length (elems d) + i))"
    if "page < length (elems d)"
      and "\<forall>r\<in>set regions. \<forall>e. r_element r = Some e \<longrightarrow> e < length (elems d)"
      and "fourth_pass g w page regions (d, n) (line # rest) = Inr (d', n')" for d' n'
    using orphan_branch_stays[OF _ that(1,2), of g w n line rest d' n'] that(3) l by simp
  have k': "(\<exists>more. children (elems d' ! page) = children (elems d ! page) @ length (elems d) # more)
     \<and> elems d' ! (length (elems d) + 0) = elems (fst (orphan_branch w page d n line)) ! (length (elems d) + 0)
     \<and> elems d' ! (length (elems d) + 1) = elems (fst (orphan_branch w page d n line)) ! (length (elems d) + 1)
     \<and> elems d' ! (length (elems d) + 2) = elems (fst (orphan_branch w page d n line)) ! (length (elems d) + 2)
     \<and> elems d' ! (length (elems d) + 3) = elems (fst (orphan_branch w page d n line)) ! (length (elems d) + 3)"
    if "page < length (elems d)"
      and "\<forall>r\<in>set regions. \<forall>e. r_element r = Some e \<longrightarrow> e < length (elems d)"
      and "fourth_pass g w page regions (d, n) (line # rest) = Inr (d', n')" for d' n'
  proof -
    from k[OF that] have m: "\<exists>more. children (elems d' ! page)
        = children (elems d ! page) @ length (elems d) # more"
      and a: "\<forall>i<4. elems d' ! (length (elems d) + i)
                 = elems (fst (orphan_branch w page d n line)) ! (length (elems d) + i)"
      by blast+
    from a[rule_format, of 0] a[rule_format, of 1] a[rule_format, of 2] a[rule_format, of 3] m
    show ?thesis by simp
  qed
  show ?thesis
    using f s l k'
    by (simp add: orphan_branch_elems nth_append)
qed

lemma placed_line_stays:
  assumes rest: "fourth_pass g w page regions (fst (add_text_line w d el pts (Some i)), n) rest
      = Inr (d', n')"
    and page: "page < length (elems d)"
    and regs: "\<forall>r\<in>set regions. \<forall>e. r_element r = Some e \<longrightarrow> e < length (elems d)"
    and el: "el < length (elems d)"
  shows "(\<exists>more. children (elems d' ! el) = children (elems d ! el) @ length (elems d) # more)
     \<and> elems d' ! length (elems d) =
         \<lparr>tag = ''TextLine'', attrib = [(''id'', i)], elem_text = None,
          children = [Suc (length (elems d))]\<rparr>
     \<and> elems d' ! Suc (length (elems d)) = coords_elem pts
     \<and> (\<forall>a<length (elems d). a \<noteq> el \<longrightarrow>
          (\<exists>more. children (elems d' ! a) = children (elems d ! a) @ more
               \<and> length (elems d) \<notin> set more))"
proof -
  let ?d1 = "fst (add_text_line w d el pts (Some i))"
  have g: "\<exists>new. children (elems d' ! a) = children (elems ?d1 ! a) @ new
            \<and> (\<forall>c\<in>set new. length (elems ?d1) \<le> c)" if "a < length (elems d)" for a
    using fourth_pass_grows[OF rest, of a] that by simp
  from g[OF el] have 1: "\<exists>more. children (elems d' ! el)
      = children (elems d ! el) @ length (elems d) # more"
    using el by (auto simp: children_add_text_line)
  have 2: "elems d' ! length (elems d) = elems ?d1 ! length (elems d)"
    using fourth_pass_keeps_new[OF rest page regs, of "length (elems d)"] by simp
  have 3: "elems d' ! Suc (length (elems d)) = elems ?d1 ! Suc (length (elems d))"
    using fourth_pass_keeps_new[OF rest page regs, of "Suc (length (elems d))"] by simp
  have 4: "\<exists>more. children (elems d' ! a) = children (elems d ! a) @ more
               \<and> length (elems d) \<notin> set more" if "a < length (elems d)" "a \<noteq> el" for a
  proof -
    from g[OF that(1)] obtain new where
      n: "children (elems d' ! a) = children (elems ?d1 ! a) @ new"
        "\<forall>c\<in>set new. length (elems ?d1) \<le> c" by blast
    from n(2) have "length (elems d) \<notin> set new" by fastforce
    with n(1) that show ?thesis by (simp add: children_add_text_line)
  qed
  from 1 2 3 4 show ?thesis
    by (simp add: add_text_line_Some nth_append)
qed

lemma inside_qualifies:
  assumes "0 < polygon_area g lp" "r_element r \<noteq> None"
    "overlap_val g lp (r_points r) = polygon_area g lp"
  shows "qualifies g lp r"
  using assms by (simp add: qualifies_def)

text \<open>
  Claim C1. A line whose polygon is valid and has positive area, at its turn in the loop
  of the fourth pass. A region qualifies when it has an element and its overlap with the
  line exceeds 0.1 times the line's area. When the region \<open>r\<close> qualifies, every qualifying
  region before it in the list has a strictly greater area and every qualifying region
  after it an area that is not smaller (\<open>r\<close> is the first of the smallest qualifying
  regions), the step appends the TextLine and its Coords to the tree and makes the
  TextLine the last child of the element of \<open>r\<close>, changing nothing else; the loop goes on
  from that tree, and at its end the TextLine and its Coords are as the step made them,
  the TextLine is still a child of the element of \<open>r\<close> at its place, and no other element
  that was there has received it. Whenever some region qualifies there is such a region
  \<open>r\<close>. In particular, when the line lies inside two regions A and B (its overlap with
  each is its own area) and B has the smaller area, the TextLine goes to the element of
  B in both orders of the list.
\<close>

theorem line_goes_to_smallest_region:
  assumes valid: "\<not> invalid_polygon g (l_points line)"
    and pos: "0 < polygon_area g (l_points line)"
  shows
    "(\<forall>pre r post.
        regions = pre @ r # post \<and> qualifies g (l_points line) r
        \<and> (\<forall>q\<in>set pre. qualifies g (l_points line) q
               \<longrightarrow> polygon_area g (r_points r) < polygon_area g (r_points q))
        \<and> (\<forall>q\<in>set post. qualifies g (l_points line) q
               \<longrightarrow> polygon_area g (r_points r) \<le> polygon_area g (r_points q))
        \<longrightarrow> (\<exists>el. r_element r = Some el
              \<and> fourth_pass_line g w page regions (d, n) line =
                  Inr (d\<lparr>elems := append_child (elems d) el (length (elems d)) @
                        [\<lparr>tag = ''TextLine'', attrib = [(''id'', l_id line)], elem_text = None,
                          children = [Suc (length (elems d))]\<rparr>,
                         coords_elem (l_points line)]\<rparr>, n)
              \<and> fourth_pass g w page regions (d, n) (line # rest) =
                  fourth_pass g w page regions
                    (d\<lparr>elems := append_child (elems d) el (length (elems d)) @
                        [\<lparr>tag = ''TextLine'', attrib = [(''id'', l_id line)], elem_text = None,
                          children = [Suc (length (elems d))]\<rparr>,
                         coords_elem (l_points line)]\<rparr>, n) rest
              \<and> (\<forall>d' n'.
                   page < length (elems d)
                   \<and> (\<forall>q\<in>set regions. \<forall>e. r_element q = Some e \<longrightarrow> e < length (elems d))
                   \<and> fourth_pass g w page regions (d, n) (line # rest) = Inr (d', n')
                   \<longrightarrow> (\<exists>more. children (elems d' ! el)
                                 = children (elems d ! el) @ length (elems d) # more)
                       \<and> elems d' ! length (elems d) =
                           \<lparr>tag = ''TextLine'', attrib = [(''id'', l_id line)], elem_text = None,
                            children = [Suc (length (elems d))]\<rparr>
                       \<and> elems d' ! Suc (length (elems d)) = coords_elem (l_points line)
                       \<and> (\<forall>a<length (elems d). a \<noteq> el \<longrightarrow>
                            (\<exists>more. children (elems d' ! a) = children (elems d ! a) @ more
                                 \<and> length (elems d) \<notin> set more)))))
     \<and> ((\<exists>r\<in>set regions. qualifies g (l_points line) r) \<longrightarrow>
          (\<exists>pre r post.
             regions = pre @ r # post \<and> qualifies g (l_points line) r
             \<and> (\<forall>q\<in>set pre. qualifies g (l_points line) q
                    \<longrightarrow> polygon_area g (r_points r) < polygon_area g (r_points q))
             \<and> (\<forall>q\<in>set post. qualifies g (l_points line) q
                    \<longrightarrow> polygon_area g (r_points r) \<le> polygon_area g (r_points q))))
     \<and> (\<forall>A B.
          (regions = [A, B] \<or> regions = [B, A])
          \<and> r_element A \<noteq> None \<and> r_element B \<noteq> None
          \<and> overlap_val g (l_points line) (r_points A) = polygon_area g (l_points line)
          \<and> overlap_val g (l_points line) (r_points B) = polygon_area g (l_points line)
          \<and> polygon_area g (r_points B) < polygon_area g (r_points A)
          \<longrightarrow> (\<exists>el. r_element B = Some el
                \<and> fourth_pass_line g w page regions (d, n) line =
                    Inr (d\<lparr>elems := append_child (elems d) el (length (elems d)) @
                          [\<lparr>tag = ''TextLine'', attrib = [(''id'', l_id line)], elem_text = None,
                            children = [Suc (length (elems d))]\<rparr>,
                           coords_elem (l_points line)]\<rparr>, n)))"
proof (intro conjI impI allI)
  fix pre r post
  assume a: "regions = pre @ r # post \<and> qualifies g (l_points line) r
        \<and> (\<forall>q\<in>set pre. qualifies g (l_points line) q
               \<longrightarrow> polygon_area g (r_points r) < polygon_area g (r_points q))
        \<and> (\<forall>q\<in>set post. qualifies g (l_points line) q
               \<longrightarrow> polygon_area g (r_points r) \<le> polygon_area g (r_points q))"
  then obtain el where el: "r_element r = Some el"
    and s: "fourth_pass_line g w page regions (d, n) line =
         Inr (fst (add_text_line w d el (l_points line) (Some (l_id line))), n)"
    using fourth_pass_line_first_min[OF valid pos, of r pre post w page d n] by blast
  have l: "fourth_pass g w page regions (d, n) (line # rest) =
      fourth_pass g w page regions
        (fst (add_text_line w d el (l_points line) (Some (l_id line))), n) rest"
    by (simp add: s)
  have k: "(\<exists>more. children (elems d' ! el) = children (elems d ! el) @ length (elems d) # more)
       \<and> elems d' ! length (elems d) =
           \<lparr>tag = ''TextLine'', attrib = [(''id'', l_id line)], elem_text = None,
            children = [Suc (length (elems d))]\<rparr>
       \<and> elems d' ! Suc (length (elems d)) = coords_elem (l_points line)
       \<and> (\<forall>a<length (elems d). a \<noteq> el \<longrightarrow>
            (\<exists>more. children (elems d' ! a) = children (elems d ! a) @ more
                 \<and> length (elems d) \<notin> set more))"
    if h: "page < length (elems d)
         \<and> (\<forall>q\<in>set regions. \<forall>e. r_element q = Some e \<longrightarrow> e < length (elems d))
         \<and> fourth_pass g w page regions (d, n) (line # rest) = Inr (d', n')" for d' n'
  proof -
    from h have pg: "page < length (elems d)"
      and regs: "\<forall>q\<in>set regions. \<forall>e. r_element q = Some e \<longrightarrow> e < length (elems d)"
      and f: "fourth_pass g w page regions (d, n) (line # rest) = Inr (d', n')"
      by blast+
    from a el regs have e: "el < length (elems d)" by auto
    from f l have r: "fourth_pass g w page regions
        (fst (add_text_line w d el (l_points line) (Some (l_id line))), n) rest = Inr (d', n')"
      by simp
    from placed_line_stays[OF r pg regs e] show ?thesis .
  qed
  show "\<exists>el. r_element r = Some el
              \<and> fourth_pass_line g w page regions (d, n) line =
                  Inr (d\<lparr>elems := append_child (elems d) el (length (elems d)) @
                        [\<lparr>tag = ''TextLine'', attrib = [(''id'', l_id line)], elem_text = None,
                          children = [Suc (length (elems d))]\<rparr>,
                         coords_elem (l_points line)]\<rparr>, n)
              \<and> fourth_pass g w page regions (d, n) (line # rest) =
                  fourth_pass g w page regions
                    (d\<lparr>elems := append_child (elems d) el (length (elems d)) @
                        [\<lparr>tag = ''TextLine'', attrib = [(''id'', l_id line)], elem_text = None,
                          children = [Suc (length (elems d))]\<rparr>,
                         coords_elem (l_points line)]\<rparr>, n) rest
              \<and> (\<forall>d' n'.
                   page < length (elems d)
                   \<and> (\<forall>q\<in>set regions. \<forall>e. r_element q = Some e \<longrightarrow> e < length (elems d))
                   \<and> fourth_pass g w page regions (d, n) (line # rest) = Inr (d', n')
                   \<longrightarrow> (\<exists>more. children (elems d' ! el)
                                 = children (elems d ! el) @ length (elems d) # more)
                       \<and> elems d' ! length (elems d) =
                           \<lparr>tag = ''TextLine'', attrib = [(''id'', l_id line)], elem_text = None,
                            children = [Suc (length (elems d))]\<rparr>
                       \<and> elems d' ! Suc (length (elems d)) = coords_elem (l_points line)
                       \<and> (\<forall>a<length (elems d). a \<noteq> el \<longrightarrow>
                            (\<exists>more. children (elems d' ! a) = children (elems d ! a) @ more
                                 \<and> length (elems d) \<notin> set more)))"
  proof -
    have x: "fst (add_text_line w d el (l_points line) (Some (l_id line)))
        = d\<lparr>elems := append_child (elems d) el (length (elems d)) @
                        [\<lparr>tag = ''TextLine'', attrib = [(''id'', l_id line)], elem_text = None,
                          children = [Suc (length (elems d))]\<rparr>,
                         coords_elem (l_points line)]\<rparr>"
      by (simp add: add_text_line_Some)
    note s' = s[unfolded x] and l' = l[unfolded x]
    have k': "\<forall>d' n'.
                   page < length (elems d)
                   \<and> (\<forall>q\<in>set regions. \<forall>e. r_element q = Some e \<longrightarrow> e < length (elems d))
                   \<and> fourth_pass g w page regions (d, n) (line # rest) = Inr (d', n')
                   \<longrightarrow> (\<exists>more. children (elems d' ! el)
                                 = children (elems d ! el) @ length (elems d) # more)
                       \<and> elems d' ! length (elems d) =
                           \<lparr>tag = ''TextLine'', attrib = [(''id'', l_id line)], elem_text = None,
                            children = [Suc (length (elems d))]\<rparr>
                       \<and> elems d' ! Suc (length (elems d)) = coords_elem (l_points line)
                       \<and> (\<forall>a<length (elems d). a \<noteq> el \<longrightarrow>
                            (\<exists>more. children (elems d' ! a) = children (elems d ! a) @ more
                                 \<and> length (elems d) \<notin> set more))"
      using k by blast
    show ?thesis
      by (rule exI[of _ el], intro conjI; (fact el | fact s' | fact l' | fact k'))
  qed
next
  assume "\<exists>r\<in>set regions. qualifies g (l_points line) r"
  then show "\<exists>pre r post.
             regions = pre @ r # post \<and> qualifies g (l_points line) r
             \<and> (\<forall>q\<in>set pre. qualifies g (l_points line) q
                    \<longrightarrow> polygon_area g (r_points r) < polygon_area g (r_points q))
             \<and> (\<forall>q\<in>set post. qualifies g (l_points line) q
                    \<longrightarrow> polygon_area g (r_points r) \<le> polygon_area g (r_points q))"
    by (rule first_min_exists)
next
  fix A B
  assume a: "(regions = [A, B] \<or> regions = [B, A])
          \<and> r_element A \<noteq> None \<and> r_element B \<noteq> None
          \<and> overlap_val g (l_points line) (r_points A) = polygon_area g (l_points line)
          \<and> overlap_val g (l_points line) (r_points B) = polygon_area g (l_points line)
          \<and> polygon_area g (r_points B) < polygon_area g (r_points A)"
  then have qA: "qualifies g (l_points line) A" and qB: "qualifies g (l_points line) B"
    using inside_qualifies[OF pos] by blast+
  from a consider "regions = [A] @ B # []" | "regions = [] @ B # [A]" by auto
  then have "\<exists>el. r_element B = Some el
                \<and> fourth_pass_line g w page regions (d, n) line =
                    Inr (fst (add_text_line w d el (l_points line) (Some (l_id line))), n)"
  proof cases
    case 1
    show ?thesis
      unfolding 1
      using a qA qB by (intro fourth_pass_line_first_min[OF valid pos]) auto
  next
    case 2
    show ?thesis
      unfolding 2
      using a qA qB by (intro fourth_pass_line_first_min[OF valid pos]) auto
  qed
  then show "\<exists>el. r_element B = Some el
                \<and> fourth_pass_line g w page regions (d, n) line =
                    Inr (d\<lparr>elems := append_child (elems d) el (length (elems d)) @
                          [\<lparr>tag = ''TextLine'', attrib = [(''id'', l_id line)], elem_text = None,
                            children = [Suc (length (elems d))]\<rparr>,
                           coords_elem (l_points line)]\<rparr>, n)"
    by (simp add: add_text_line_Some)
qed

lemma example_regions_in_tree:
  "0 < length (elems nested_tree)"
  "\<forall>r\<in>set [region_A, region_B]. \<forall>e. r_element r = Some e \<longrightarrow> e < length (elems nested_tree)"
  by (simp_all add: region_A_def region_B_def nested_tree_def)

lemma inner_line_in_B:
  "fourth_pass_line box_geometry example_world 0 [region_A, region_B] (d, n) inner_line =
     Inr (fst (add_text_line example_world d 3 (l_points inner_line) (Some ''l0002'')), n)"
proof -
  have "\<exists>el. r_element region_B = Some el
     \<and> fourth_pass_line box_geometry example_world 0 ([region_A] @ region_B # []) (d, n) inner_line =
         Inr (fst (add_text_line example_world d el (l_points inner_line) (Some (l_id inner_line))), n)"
    using inner_line_facts by (intro fourth_pass_line_first_min) auto
  then show ?thesis by (simp add: region_B_def inner_line_def)
qed

theorem degenerate_line_is_orphan_witness:
  "invalid_polygon box_geometry (l_points flat_line)
   \<and> fourth_pass_line box_geometry example_world 0 [region_A, region_B] (nested_tree, 0) flat_line
       = Inr (flat_orphan_tree, 1)
   \<and> fourth_pass box_geometry example_world 0 [region_A, region_B] (nested_tree, 0)
        [flat_line, inner_line]
       = Inr (fst (add_text_line example_world flat_orphan_tree 3 (l_points inner_line)
                     (Some ''l0002'')), 1)
   \<and> (\<exists>more. children (elems (fst (add_text_line example_world flat_orphan_tree 3
                  (l_points inner_line) (Some ''l0002''))) ! 0) = [1] @ 5 # more)
   \<and> elems (fst (add_text_line example_world flat_orphan_tree 3 (l_points inner_line)
                (Some ''l0002''))) ! 5
       = \<lparr>tag = ''TextRegion'', attrib = [(''id'', ''r_orphan0000''), (''type'', ''paragraph'')],
          elem_text = None, children = [6, 7]\<rparr>
   \<and> elems (fst (add_text_line example_world flat_orphan_tree 3 (l_points inner_line)
                (Some ''l0002''))) ! 7
       = \<lparr>tag = ''TextLine'', attrib = [(''id'', ''l0004'')], elem_text = None, children = [8]\<rparr>"
proof -
  let ?d' = "fst (add_text_line example_world flat_orphan_tree 3 (l_points inner_line)
                (Some ''l0002''))"
  have i: "invalid_polygon box_geometry (l_points flat_line)"
    by (simp add: invalid_polygon_def box_geometry_def bbox_def flat_line_def)
  then have deg: "invalid_polygon box_geometry (l_points flat_line)
      \<or> polygon_area box_geometry (l_points flat_line) \<le> 0" by simp
  note t = degenerate_line_is_orphan[OF deg, of "[region_A, region_B]" example_world 0
      nested_tree 0 "[inner_line]"]
  have v: "length (elems nested_tree) = 5" "l_id flat_line = ''l0004''"
    "l_points flat_line = [(3, 3), (5, 3), (5, 3), (3, 3)]"
    "dict_get (l_config flat_line) ''parent_type'' ''paragraph'' = ''paragraph''"
    "children (elems nested_tree ! 0) = [1]"
    by (simp_all add: nested_tree_def flat_line_def dict_get_def)
  have x: "nested_tree\<lparr>elems := append_child (elems nested_tree) 0 5 @
               [\<lparr>tag = ''TextRegion'',
                 attrib = [(''id'', ''r_orphan'' @ fmt04 0), (''type'', ''paragraph'')],
                 elem_text = None, children = [6, 7]\<rparr>,
                coords_elem [(3, 3), (5, 3), (5, 3), (3, 3)],
                \<lparr>tag = ''TextLine'', attrib = [(''id'', ''l0004'')], elem_text = None,
                 children = [8]\<rparr>,
                coords_elem [(3, 3), (5, 3), (5, 3), (3, 3)]]\<rparr> = flat_orphan_tree"
    by (simp add: nested_tree_def flat_orphan_tree_def append_child_def fmt04_0)
  from t have s: "fourth_pass_line box_geometry example_world 0 [region_A, region_B]
      (nested_tree, 0) flat_line = Inr (flat_orphan_tree, 1)"
    by (simp add: v x del: append.simps)
  from t have "fourth_pass box_geometry example_world 0 [region_A, region_B] (nested_tree, 0)
        [flat_line, inner_line]
      = fourth_pass box_geometry example_world 0 [region_A, region_B] (flat_orphan_tree, 1)
          [inner_line]"
    by (simp add: v x del: append.simps fourth_pass.simps)
  then have l: "fourth_pass box_geometry example_world 0 [region_A, region_B] (nested_tree, 0)
        [flat_line, inner_line] = Inr (?d', 1)"
    by (simp add: inner_line_in_B)
  from t l example_regions_in_tree have
    "(\<exists>more. children (elems ?d' ! 0) = [1] @ 5 # more)
     \<and> elems ?d' ! 5
       = \<lparr>tag = ''TextRegion'', attrib = [(''id'', ''r_orphan'' @ fmt04 0), (''type'', ''paragraph'')],
          elem_text = None, children = [6, 7]\<rparr>
     \<and> elems ?d' ! 7
       = \<lparr>tag = ''TextLine'', attrib = [(''id'', ''l0004'')], elem_text = None, children = [8]\<rparr>"
    by (simp add: v del: append.simps fourth_pass.simps)
  with i s l show ?thesis by (simp add: fmt04_0 del: append.simps)
qed

theorem line_goes_to_smallest_region_witness:
  "fourth_pass_line box_geometry example_world 0 [region_A, region_B] (nested_tree, 0) inner_line
     = Inr (placed_tree, 0)
   \<and> fourth_pass_line box_geometry example_world 0 [region_B, region_A] (nested_tree, 0) inner_line
     = Inr (placed_tree, 0)
   \<and> fourth_pass box_geometry example_world 0 [region_A, region_B] (nested_tree, 0)
        [inner_line, outer_line]
     = Inr (orphan_branch example_world 0 placed_tree 0 outer_line)
   \<and> (\<exists>more. children (elems (fst (orphan_branch example_world 0 placed_tree 0 outer_line)) ! 3)
               = [4] @ 5 # more)
   \<and> elems (fst (orphan_branch example_world 0 placed_tree 0 outer_line)) ! 5
       = \<lparr>tag = ''TextLine'', attrib = [(''id'', ''l0002'')], elem_text = None, children = [6]\<rparr>
   \<and> elems (fst (orphan_branch example_world 0 placed_tree 0 outer_line)) ! 6
       = coords_elem [(3, 3), (5, 3), (5, 4), (3, 4)]
   \<and> (\<exists>more. children (elems (fst (orphan_branch example_world 0 placed_tree 0 outer_line)) ! 1)
               = [2, 3] @ more \<and> 5 \<notin> set more)"
proof -
  let ?d' = "fst (orphan_branch example_world 0 placed_tree 0 outer_line)"
  note t1 = line_goes_to_smallest_region[OF inner_line_facts(1,2),
      of "[region_A, region_B]" example_world 0 nested_tree 0 "[outer_line]"]
  note t2 = line_goes_to_smallest_region[OF inner_line_facts(1,2),
      of "[region_B, region_A]" example_world 0 nested_tree 0 "[outer_line]"]
  have v: "length (elems nested_tree) = 5" "l_id inner_line = ''l0002''"
    "l_points inner_line = [(3, 3), (5, 3), (5, 4), (3, 4)]"
    "r_element region_B = Some 3" "r_element region_A = Some 1"
    "children (elems nested_tree ! 3) = [4]" "children (elems nested_tree ! 1) = [2, 3]"
    by (simp_all add: nested_tree_def inner_line_def region_A_def region_B_def)
  have x: "nested_tree\<lparr>elems := append_child (elems nested_tree) 3 5 @
              [\<lparr>tag = ''TextLine'', attrib = [(''id'', ''l0002'')], elem_text = None,
                children = [6]\<rparr>,
               coords_elem [(3, 3), (5, 3), (5, 4), (3, 4)]]\<rparr> = placed_tree"
    by (simp add: nested_tree_def placed_tree_def append_child_def)
  have split: "[region_A, region_B] = [region_A] @ region_B # []
        \<and> qualifies box_geometry (l_points inner_line) region_B
        \<and> (\<forall>q\<in>set [region_A]. qualifies box_geometry (l_points inner_line) q
               \<longrightarrow> polygon_area box_geometry (r_points region_B)
                     < polygon_area box_geometry (r_points q))
        \<and> (\<forall>q\<in>set []. qualifies box_geometry (l_points inner_line) q
               \<longrightarrow> polygon_area box_geometry (r_points region_B)
                     \<le> polygon_area box_geometry (r_points q))"
    using inner_line_facts by simp
  have inside: "overlap_val box_geometry (l_points inner_line) (r_points region_A)
        = polygon_area box_geometry (l_points inner_line)"
    "overlap_val box_geometry (l_points inner_line) (r_points region_B)
        = polygon_area box_geometry (l_points inner_line)"
    by (simp_all add: overlap_val_def calculate_polygon_overlap_def overlap_try_def
        polygon_area_def box_geometry_def bbox_def inner_line_def region_A_def region_B_def)
  from t1[THEN conjunct2, THEN conjunct2, rule_format, of region_A region_B] inside
    inner_line_facts(5)
  have s1: "fourth_pass_line box_geometry example_world 0 [region_A, region_B] (nested_tree, 0)
      inner_line = Inr (placed_tree, 0)"
    by (simp add: v x del: append.simps)
  from t2[THEN conjunct2, THEN conjunct2, rule_format, of region_A region_B] inside
    inner_line_facts(5)
  have s2: "fourth_pass_line box_geometry example_world 0 [region_B, region_A] (nested_tree, 0)
      inner_line = Inr (placed_tree, 0)"
    by (simp add: v x del: append.simps)
  from t1[THEN conjunct1, rule_format, of "[region_A]" region_B "[]", OF split]
  have l0: "fourth_pass box_geometry example_world 0 [region_A, region_B] (nested_tree, 0)
        [inner_line, outer_line]
      = fourth_pass box_geometry example_world 0 [region_A, region_B] (placed_tree, 0) [outer_line]"
    and k: "\<forall>d' n'.
      0 < length (elems nested_tree)
      \<and> (\<forall>q\<in>set [region_A, region_B]. \<forall>e. r_element q = Some e \<longrightarrow> e < length (elems nested_tree))
      \<and> fourth_pass box_geometry example_world 0 [region_A, region_B] (nested_tree, 0)
           [inner_line, outer_line] = Inr (d', n')
      \<longrightarrow> (\<exists>more. children (elems d' ! 3) = [4] @ 5 # more)
          \<and> elems d' ! 5 =
              \<lparr>tag = ''TextLine'', attrib = [(''id'', ''l0002'')], elem_text = None,
               children = [6]\<rparr>
          \<and> elems d' ! 6 = coords_elem [(3, 3), (5, 3), (5, 4), (3, 4)]
          \<and> (\<forall>a<5. a \<noteq> 3 \<longrightarrow>
               (\<exists>more. children (elems d' ! a) = children (elems nested_tree ! a) @ more
                    \<and> 5 \<notin> set more))"
    by (simp_all add: v x del: append.simps fourth_pass.simps)
  have l: "fourth_pass box_geometry example_world 0 [region_A, region_B] (nested_tree, 0)
        [inner_line, outer_line] = Inr (orphan_branch example_world 0 placed_tree 0 outer_line)"
    unfolding l0 using not_qualifies_orphan[OF outer_line_no_region] by simp
  have e: "orphan_branch example_world 0 placed_tree 0 outer_line = (?d', 1)"
    by (simp add: orphan_branch_eq)
  from k[rule_format, of ?d' 1] l e example_regions_in_tree
  have f: "(\<exists>more. children (elems ?d' ! 3) = [4] @ 5 # more)
          \<and> elems ?d' ! 5 =
              \<lparr>tag = ''TextLine'', attrib = [(''id'', ''l0002'')], elem_text = None,
               children = [6]\<rparr>
          \<and> elems ?d' ! 6 = coords_elem [(3, 3), (5, 3), (5, 4), (3, 4)]
          \<and> (\<forall>a<5. a \<noteq> 3 \<longrightarrow>
               (\<exists>more. children (elems ?d' ! a) = children (elems nested_tree ! a) @ more
                    \<and> 5 \<notin> set more))"
    by simp
  then have o: "\<forall>a<5. a \<noteq> 3 \<longrightarrow>
               (\<exists>more. children (elems ?d' ! a) = children (elems nested_tree ! a) @ more
                    \<and> 5 \<notin> set more)"
    by blast
  have "\<exists>more. children (elems ?d' ! 1) = [2, 3] @ more \<and> 5 \<notin> set more"
    using o[rule_format, of 1] v(7) by simp
  with f s1 s2 l show ?thesis by simp
qed

section \<open>The loop of the third pass\<close>

lemma third_pass_child_cases:
  "third_pass_child g w page parents d c =
      Inr (fst (add_region w d page ''TextRegion'' (r_points c) (Some (r_id c)) (r_type c)),
           c\<lparr>r_element := Some (length (elems d))\<rparr>, True)
   \<or> (\<exists>bp. (\<exists>p\<in>set parents. r_element p = Some bp)
        \<and> third_pass_child g w page parents d c =
            Inr (fst (add_region w d bp ''TextRegion'' (r_points c) (Some (r_id c)) (r_type c)),
                 c\<lparr>r_element := Some (length (elems d))\<rparr>, False))"
  using find_best_parent_result[of g d "r_points c" parents "1 / 2"]
  by (auto simp: third_pass_child_def add_region_Some)

lemma third_pass_child_page:
  "\<forall>p\<in>set parents. containment_val g (r_points c) (r_points p) \<le> 1 / 2 \<Longrightarrow>
     third_pass_child g w page parents d c =
       Inr (fst (add_region w d page ''TextRegion'' (r_points c) (Some (r_id c)) (r_type c)),
            c\<lparr>r_element := Some (length (elems d))\<rparr>, True)"
  by (simp add: third_pass_child_def find_best_parent_none add_region_Some)

lemma third_pass_child_parent:
  assumes "1 / 2 < containment_val g (r_points c) (r_points p)"
    and "\<forall>q\<in>set pre. containment_val g (r_points c) (r_points q)
                            < containment_val g (r_points c) (r_points p)"
    and "\<forall>q\<in>set post. containment_val g (r_points c) (r_points q)
                            \<le> containment_val g (r_points c) (r_points p)"
    and "element_truthy d (r_element p)"
  shows "\<exists>bp. r_element p = Some bp
     \<and> third_pass_child g w page (pre @ p # post) d c =
         Inr (fst (add_region w d bp ''TextRegion'' (r_points c) (Some (r_id c)) (r_type c)),
              c\<lparr>r_element := Some (length (elems d))\<rparr>, False)"
proof -
  from assms(4) obtain bp where bp: "r_element p = Some bp"
    by (auto simp: element_truthy_def split: option.splits)
  have "find_best_parent g d (r_points c) (pre @ p # post) (1 / 2) = Inr (r_element p)"
    using assms by (intro find_best_parent_first_max) auto
  with bp show ?thesis by (simp add: third_pass_child_def add_region_Some)
qed

lemma third_pass_child_grows:
  assumes "third_pass_child g w page parents d c = Inr (d1, c1, o1)"
    and "a < length (elems d)"
  shows "length (elems d) \<le> length (elems d1)
     \<and> (\<exists>new. children (elems d1 ! a) = children (elems d ! a) @ new
            \<and> (\<forall>x\<in>set new. length (elems d) \<le> x))"
  using third_pass_child_cases[of g w page parents d c] assms
  by (auto simp: children_add_region)

lemma third_pass_child_frame:
  assumes "third_pass_child g w page parents d c = Inr (d1, c1, o1)"
    and "a < length (elems d)" "a \<noteq> page" "\<forall>r\<in>set parents. r_element r \<noteq> Some a"
  shows "elems d1 ! a = elems d ! a"
  using third_pass_child_cases[of g w page parents d c] assms
  by (auto simp: nth_add_region_other)

lemma third_pass_child_keeps_ok:
  assumes "third_pass_child g w page parents d c = Inr (d1, c1, o1)" "regions_ok d xs"
  shows "regions_ok d1 xs"
  using third_pass_child_cases[of g w page parents d c] assms
  by (auto simp: regions_ok_add_region)

lemma third_pass_Cons_Inr:
  assumes "third_pass g w page parents d (c # cs) = Inr (d', cs', os)"
  shows "\<exists>d1 c1 o1 cs2 os2. third_pass_child g w page parents d c = Inr (d1, c1, o1)
     \<and> third_pass g w page parents d1 cs = Inr (d', cs2, os2)
     \<and> cs' = c1 # cs2"
  using assms by (auto split: sum.splits prod.splits)

lemma third_pass_grows:
  assumes "third_pass g w page parents d cs = Inr (d', cs', os)"
    and "a < length (elems d)"
  shows "length (elems d) \<le> length (elems d')
     \<and> (\<exists>new. children (elems d' ! a) = children (elems d ! a) @ new
            \<and> (\<forall>x\<in>set new. length (elems d) \<le> x))"
  using assms
proof (induction cs arbitrary: d cs' os)
  case Nil
  then show ?case by simp
next
  case (Cons c cs)
  from third_pass_Cons_Inr[OF Cons.prems(1)] obtain d1 c1 o1 cs2 os2 where
    s: "third_pass_child g w page parents d c = Inr (d1, c1, o1)"
    and r: "third_pass g w page parents d1 cs = Inr (d', cs2, os2)"
    by blast
  from third_pass_child_grows[OF s Cons.prems(2)] obtain new1 where
    l1: "length (elems d) \<le> length (elems d1)"
    and c1: "children (elems d1 ! a) = children (elems d ! a) @ new1"
    and b1: "\<forall>x\<in>set new1. length (elems d) \<le> x"
    by blast
  from l1 Cons.prems(2) have a1: "a < length (elems d1)" by simp
  from Cons.IH[OF r a1] obtain new2 where
    l2: "length (elems d1) \<le> length (elems d')"
    and c2: "children (elems d' ! a) = children (elems d1 ! a) @ new2"
    and b2: "\<forall>x\<in>set new2. length (elems d1) \<le> x"
    by blast
  have "children (elems d' ! a) = children (elems d ! a) @ (new1 @ new2)"
    using c1 c2 by simp
  moreover have "\<forall>x\<in>set (new1 @ new2). length (elems d) \<le> x"
    using b1 b2 l1 by auto
  moreover have "length (elems d) \<le> length (elems d')" using l1 l2 by simp
  ultimately show ?case by blast
qed

lemma third_pass_frame:
  assumes "third_pass g w page parents d cs = Inr (d', cs', os)"
    and "a < length (elems d)" "a \<noteq> page" "\<forall>r\<in>set parents. r_element r \<noteq> Some a"
  shows "elems d' ! a = elems d ! a"
  using assms(1,2)
proof (induction cs arbitrary: d cs' os)
  case Nil
  then show ?case by simp
next
  case (Cons c cs)
  from third_pass_Cons_Inr[OF Cons.prems(1)] obtain d1 c1 o1 cs2 os2 where
    s: "third_pass_child g w page parents d c = Inr (d1, c1, o1)"
    and r: "third_pass g w page parents d1 cs = Inr (d', cs2, os2)"
    by blast
  from third_pass_child_grows[OF s Cons.prems(2)] Cons.prems(2)
  have a1: "a < length (elems d1)" by simp
  from Cons.IH[OF r a1] third_pass_child_frame[OF s Cons.prems(2) assms(3,4)]
  show ?case by simp
qed

lemma third_pass_keeps_ok:
  assumes "third_pass g w page parents d cs = Inr (d', cs', os)" "regions_ok d xs"
  shows "regions_ok d' xs"
  using assms
proof (induction cs arbitrary: d cs' os)
  case Nil
  then show ?case by simp
next
  case (Cons c cs)
  from third_pass_Cons_Inr[OF Cons.prems(1)] obtain d1 c1 o1 cs2 os2 where
    s: "third_pass_child g w page parents d c = Inr (d1, c1, o1)"
    and r: "third_pass g w page parents d1 cs = Inr (d', cs2, os2)"
    by blast
  from Cons.IH[OF r third_pass_child_keeps_ok[OF s Cons.prems(2)]] show ?case .
qed

lemma third_pass_total: "\<exists>d' cs' os. third_pass g w page parents d cs = Inr (d', cs', os)"
proof (induction cs arbitrary: d)
  case Nil
  then show ?case by simp
next
  case (Cons c cs)
  from third_pass_child_cases[of g w page parents d c] obtain d1 c1 o1 where
    s: "third_pass_child g w page parents d c = Inr (d1, c1, o1)" by blast
  from Cons.IH[of d1] obtain d' cs' os where
    r: "third_pass g w page parents d1 cs = Inr (d', cs', os)" by blast
  show ?case by (simp add: s r)
qed

lemma third_pass_append:
  assumes "third_pass g w page parents d xs = Inr (d1, cs1, os1)"
    and "third_pass g w page parents d1 ys = Inr (d2, cs2, os2)"
  shows "third_pass g w page parents d (xs @ ys) = Inr (d2, cs1 @ cs2, os1 @ os2)
     \<and> length cs1 = length xs"
  using assms
proof (induction xs arbitrary: d cs1 os1)
  case Nil
  then show ?case by simp
next
  case (Cons c cs)
  from third_pass_Cons_Inr[OF Cons.prems(1)] obtain da c1 o1 csa osa where
    s: "third_pass_child g w page parents d c = Inr (da, c1, o1)"
    and r: "third_pass g w page parents da cs = Inr (d1, csa, osa)"
    and e: "cs1 = c1 # csa"
    by blast
  from Cons.prems(1) s r have o: "os1 = (if o1 then r_id c # osa else osa)" by simp
  from Cons.IH[OF r Cons.prems(2)] show ?case by (simp add: s e o)
qed

lemma second_pass_parents:
  assumes "second_pass w page d0 ps = (d1, parents)"
  shows "regions_ok d1 parents \<and> length (elems d0) \<le> length (elems d1)"
  using second_pass_regions_ok[of w page d0 ps] second_pass_length[of w page d0 ps] assms
  by simp

text \<open>
  What stays of one step of the third pass at the end of the loop, when the parents are
  elements that were in the tree before the step.
\<close>

lemma placed_region_stays:
  assumes rest: "third_pass g w page parents
        (fst (add_region w d tgt ''TextRegion'' pts (Some i) rt)) after = Inr (d', cs2, os2)"
    and page: "page < length (elems d)"
    and ok: "regions_ok d parents"
    and tgt: "tgt < length (elems d)"
  shows "(\<exists>more. children (elems d' ! tgt) = children (elems d ! tgt) @ length (elems d) # more)
     \<and> elems d' ! length (elems d) =
         \<lparr>tag = ''TextRegion'', attrib = region_attrib ''TextRegion'' i rt, elem_text = None,
          children = [Suc (length (elems d))]\<rparr>
     \<and> elems d' ! Suc (length (elems d)) = coords_elem pts"
proof -
  let ?d1 = "fst (add_region w d tgt ''TextRegion'' pts (Some i) rt)"
  have t1: "tgt < length (elems ?d1)" using tgt by simp
  from third_pass_grows[OF rest t1] obtain new where
    "children (elems d' ! tgt) = children (elems ?d1 ! tgt) @ new" by blast
  then have 1: "\<exists>more. children (elems d' ! tgt) = children (elems d ! tgt) @ length (elems d) # more"
    using tgt by (simp add: children_add_region)
  have np: "\<forall>r\<in>set parents. r_element r \<noteq> Some a" if "length (elems d) \<le> a" for a
    using regions_ok_element[OF ok] that by fastforce
  have 2: "elems d' ! length (elems d) = elems ?d1 ! length (elems d)"
    using third_pass_frame[OF rest, of "length (elems d)"] page np by simp
  have 3: "elems d' ! Suc (length (elems d)) = elems ?d1 ! Suc (length (elems d))"
    using third_pass_frame[OF rest, of "Suc (length (elems d))"] page np by simp
  from 1 2 3 show ?thesis by (simp add: add_region_Some nth_append)
qed

text \<open>
  Claim C2. A child region \<open>c\<close> at its turn in the loop of the third pass, with the parents
  that the second pass has made. The loop reaches the child and ends. The step for the
  child appends a TextRegion with the child's id and type and its Coords to the tree, and
  at the end of the loop both are as the step made them. When no parent has a containment
  ratio above 0.5 (a best ratio of exactly 0.5 included), the step makes the new region
  the last child of Page and nothing else changes. When the parent \<open>p\<close> has a ratio above
  0.5, every parent before it in the list a strictly smaller ratio and every parent after
  it one that is not greater (\<open>p\<close> is the first parent that achieves the greatest ratio),
  the step makes the new region the last child of the element of \<open>p\<close>. At the end of the
  loop the new region is still a child of that element at its place. Whenever some ratio
  exceeds 0.5 there is such a parent.
\<close>

theorem nestable_region_placement:
  assumes sp: "second_pass w page d0 ps = (d1, parents)"
    and pg: "page < length (elems d0)"
  shows "\<exists>d cs1 os1 d' cs' os.
      third_pass g w page parents d1 before = Inr (d, cs1, os1)
    \<and> third_pass g w page parents d1 (before @ c # after) = Inr (d', cs', os)
    \<and> cs' ! length before = c\<lparr>r_element := Some (length (elems d))\<rparr>
    \<and> elems d' ! length (elems d) =
         \<lparr>tag = ''TextRegion'', attrib = region_attrib ''TextRegion'' (r_id c) (r_type c),
          elem_text = None, children = [Suc (length (elems d))]\<rparr>
    \<and> elems d' ! Suc (length (elems d)) = coords_elem (r_points c)
    \<and> ((\<forall>p\<in>set parents. containment_val g (r_points c) (r_points p) \<le> 1 / 2) \<longrightarrow>
          third_pass_child g w page parents d c =
            Inr (d\<lparr>elems := append_child (elems d) page (length (elems d)) @
                  [\<lparr>tag = ''TextRegion'',
                    attrib = region_attrib ''TextRegion'' (r_id c) (r_type c),
                    elem_text = None, children = [Suc (length (elems d))]\<rparr>,
                   coords_elem (r_points c)]\<rparr>,
                 c\<lparr>r_element := Some (length (elems d))\<rparr>, True)
          \<and> (\<exists>more. children (elems d' ! page)
                       = children (elems d ! page) @ length (elems d) # more))
    \<and> (\<forall>pre p post.
          parents = pre @ p # post
          \<and> 1 / 2 < containment_val g (r_points c) (r_points p)
          \<and> (\<forall>q\<in>set pre. containment_val g (r_points c) (r_points q)
                            < containment_val g (r_points c) (r_points p))
          \<and> (\<forall>q\<in>set post. containment_val g (r_points c) (r_points q)
                            \<le> containment_val g (r_points c) (r_points p))
          \<longrightarrow> (\<exists>bp. r_element p = Some bp
                \<and> third_pass_child g w page parents d c =
                    Inr (d\<lparr>elems := append_child (elems d) bp (length (elems d)) @
                          [\<lparr>tag = ''TextRegion'',
                            attrib = region_attrib ''TextRegion'' (r_id c) (r_type c),
                            elem_text = None, children = [Suc (length (elems d))]\<rparr>,
                           coords_elem (r_points c)]\<rparr>,
                         c\<lparr>r_element := Some (length (elems d))\<rparr>, False)
                \<and> (\<exists>more. children (elems d' ! bp)
                             = children (elems d ! bp) @ length (elems d) # more)))
    \<and> ((\<exists>p\<in>set parents. 1 / 2 < containment_val g (r_points c) (r_points p)) \<longrightarrow>
          (\<exists>pre p post.
             parents = pre @ p # post
             \<and> 1 / 2 < containment_val g (r_points c) (r_points p)
             \<and> (\<forall>q\<in>set pre. containment_val g (r_points c) (r_points q)
                               < containment_val g (r_points c) (r_points p))
             \<and> (\<forall>q\<in>set post. containment_val g (r_points c) (r_points q)
                               \<le> containment_val g (r_points c) (r_points p))))"
proof -
  from second_pass_parents[OF sp] have ok1: "regions_ok d1 parents"
    and l01: "length (elems d0) \<le> length (elems d1)" by simp_all
  from third_pass_total[of g w page parents d1 before] obtain d cs1 os1 where
    b: "third_pass g w page parents d1 before = Inr (d, cs1, os1)" by blast
  have ok: "regions_ok d parents" using third_pass_keeps_ok[OF b ok1] .
  have page: "page < length (elems d)"
  proof (cases "elems d1 = []")
    case True
    with pg l01 show ?thesis by simp
  next
    case False
    then have "0 < length (elems d1)" by simp
    from third_pass_grows[OF b this] pg l01 show ?thesis by simp
  qed
  let ?k = "length (elems d)"
  let ?R = "\<lparr>tag = ''TextRegion'', attrib = region_attrib ''TextRegion'' (r_id c) (r_type c),
          elem_text = None, children = [Suc ?k]\<rparr>"
  let ?c' = "c\<lparr>r_element := Some ?k\<rparr>"
  let ?step = "\<lambda>t. fst (add_region w d t ''TextRegion'' (r_points c) (Some (r_id c)) (r_type c))"
  have x: "?step t = d\<lparr>elems := append_child (elems d) t ?k @ [?R, coords_elem (r_points c)]\<rparr>"
    for t by (simp add: add_region_Some)
  from third_pass_child_cases[of g w page parents d c] obtain tgt orph where
    s: "third_pass_child g w page parents d c = Inr (?step tgt, ?c', orph)"
    and tgt: "tgt < ?k"
    using page regions_ok_element[OF ok] by blast
  from third_pass_total[of g w page parents "?step tgt" after] obtain d' cs2 os2 where
    r: "third_pass g w page parents (?step tgt) after = Inr (d', cs2, os2)" by blast
  have one: "third_pass g w page parents d (c # after)
      = Inr (d', ?c' # cs2, (if orph then r_id c # os2 else os2))"
    by (simp add: s r)
  from third_pass_append[OF b one] have
    whole: "third_pass g w page parents d1 (before @ c # after)
      = Inr (d', cs1 @ ?c' # cs2, os1 @ (if orph then r_id c # os2 else os2))"
    and len: "length cs1 = length before" by simp_all
  have nth: "(cs1 @ ?c' # cs2) ! length before = ?c'" using len by (simp add: nth_append)
  note stay = placed_region_stays[OF r page ok tgt]
  have e1: "elems d' ! ?k = ?R" and e2: "elems d' ! Suc ?k = coords_elem (r_points c)"
    and ch: "\<exists>more. children (elems d' ! tgt) = children (elems d ! tgt) @ ?k # more"
    using stay by blast+
  have c1: "(\<forall>p\<in>set parents. containment_val g (r_points c) (r_points p) \<le> 1 / 2) \<longrightarrow>
          third_pass_child g w page parents d c =
            Inr (d\<lparr>elems := append_child (elems d) page ?k @ [?R, coords_elem (r_points c)]\<rparr>,
                 ?c', True)
          \<and> (\<exists>more. children (elems d' ! page) = children (elems d ! page) @ ?k # more)"
  proof
    assume "\<forall>p\<in>set parents. containment_val g (r_points c) (r_points p) \<le> 1 / 2"
    from third_pass_child_page[OF this, of w page d]
    have sp': "third_pass_child g w page parents d c = Inr (?step page, ?c', True)" .
    with s have "?step tgt = ?step page" by simp
    with r have r': "third_pass g w page parents (?step page) after = Inr (d', cs2, os2)"
      by simp
    from placed_region_stays[OF r' page ok page] sp'
    show "third_pass_child g w page parents d c =
            Inr (d\<lparr>elems := append_child (elems d) page ?k @ [?R, coords_elem (r_points c)]\<rparr>,
                 ?c', True)
          \<and> (\<exists>more. children (elems d' ! page) = children (elems d ! page) @ ?k # more)"
      unfolding x by blast
  qed
  have c2: "\<forall>pre p post.
          parents = pre @ p # post
          \<and> 1 / 2 < containment_val g (r_points c) (r_points p)
          \<and> (\<forall>q\<in>set pre. containment_val g (r_points c) (r_points q)
                            < containment_val g (r_points c) (r_points p))
          \<and> (\<forall>q\<in>set post. containment_val g (r_points c) (r_points q)
                            \<le> containment_val g (r_points c) (r_points p))
          \<longrightarrow> (\<exists>bp. r_element p = Some bp
                \<and> third_pass_child g w page parents d c =
                    Inr (d\<lparr>elems := append_child (elems d) bp ?k @ [?R, coords_elem (r_points c)]\<rparr>,
                         ?c', False)
                \<and> (\<exists>more. children (elems d' ! bp) = children (elems d ! bp) @ ?k # more))"
  proof (intro allI impI)
    fix pre p post
    assume a: "parents = pre @ p # post
          \<and> 1 / 2 < containment_val g (r_points c) (r_points p)
          \<and> (\<forall>q\<in>set pre. containment_val g (r_points c) (r_points q)
                            < containment_val g (r_points c) (r_points p))
          \<and> (\<forall>q\<in>set post. containment_val g (r_points c) (r_points q)
                            \<le> containment_val g (r_points c) (r_points p))"
    then have pin: "p \<in> set parents" by simp
    with regions_ok_truthy[OF ok] have t: "element_truthy d (r_element p)" by blast
    from a third_pass_child_parent[of g c p pre post d w page, OF _ _ _ t]
    obtain bp where bp: "r_element p = Some bp"
      and sp': "third_pass_child g w page parents d c = Inr (?step bp, ?c', False)"
      by auto
    from regions_ok_element[OF ok pin bp] have bl: "bp < ?k" .
    from sp' s have "?step tgt = ?step bp" by simp
    with r have r': "third_pass g w page parents (?step bp) after = Inr (d', cs2, os2)"
      by simp
    from placed_region_stays[OF r' page ok bl] sp' bp
    show "\<exists>bp. r_element p = Some bp
                \<and> third_pass_child g w page parents d c =
                    Inr (d\<lparr>elems := append_child (elems d) bp ?k @ [?R, coords_elem (r_points c)]\<rparr>,
                         ?c', False)
                \<and> (\<exists>more. children (elems d' ! bp) = children (elems d ! bp) @ ?k # more)"
      unfolding x by blast
  qed
  have c3: "(\<exists>p\<in>set parents. 1 / 2 < containment_val g (r_points c) (r_points p)) \<longrightarrow>
          (\<exists>pre p post.
             parents = pre @ p # post
             \<and> 1 / 2 < containment_val g (r_points c) (r_points p)
             \<and> (\<forall>q\<in>set pre. containment_val g (r_points c) (r_points q)
                               < containment_val g (r_points c) (r_points p))
             \<and> (\<forall>q\<in>set post. containment_val g (r_points c) (r_points q)
                               \<le> containment_val g (r_points c) (r_points p)))"
    using first_max_exists[of parents "1 / 2" "\<lambda>p. containment_val g (r_points c) (r_points p)"]
    by blast
  show ?thesis
    apply (rule exI[of _ d], rule exI[of _ cs1], rule exI[of _ os1], rule exI[of _ d'],
        rule exI[of _ "cs1 @ ?c' # cs2"],
        rule exI[of _ "os1 @ (if orph then r_id c # os2 else os2)"])
    apply (intro conjI)
           apply (fact b)
          apply (fact whole)
         apply (fact nth)
        apply (fact e1)
       apply (fact e2)
      apply (fact c1)
     apply (fact c2)
    apply (fact c3)
    done
qed

lemma example_second_pass:
  "second_pass example_world 5 \<lparr>elems = page_elems example_world ''a.png'' 100 100, uuid_calls = 0\<rparr>
      [example_parent1\<lparr>r_element := None\<rparr>, example_parent2\<lparr>r_element := None\<rparr>]
    = (two_regions_tree,
       [example_parent1\<lparr>r_element := Some 6\<rparr>, example_parent2\<lparr>r_element := Some 8\<rparr>])"
  by (simp add: second_pass_Cons add_region_Some two_regions_tree_def example_parent1_def
      example_parent2_def region_attrib_def append_child_def page_elems_def
      del: second_pass.simps(2))

lemma example_second_pass_one:
  "second_pass example_world 5 \<lparr>elems = page_elems example_world ''a.png'' 100 100, uuid_calls = 0\<rparr>
      [example_parent1\<lparr>r_element := None\<rparr>]
    = (fst (add_region example_world
              \<lparr>elems = page_elems example_world ''a.png'' 100 100, uuid_calls = 0\<rparr> 5
              ''TextRegion'' (r_points example_parent1) (Some ''r0000'') None),
       [example_parent1\<lparr>r_element := Some 6\<rparr>])"
  by (simp add: second_pass_Cons example_parent1_def del: second_pass.simps(2))

text \<open>
  The example child lies to one half in the first parent and to three quarters in the
  second. With both parents it goes under the second (address 8); with the first parent
  alone, whose ratio is exactly 0.5, it goes under Page (address 5).
\<close>

theorem nestable_region_placement_witness:
  "(\<exists>d' cs' os.
      third_pass box_geometry example_world 5
        [example_parent1\<lparr>r_element := Some 6\<rparr>, example_parent2\<lparr>r_element := Some 8\<rparr>]
        two_regions_tree [example_child] = Inr (d', cs', os)
      \<and> cs' ! 0 = example_child\<lparr>r_element := Some 10\<rparr>
      \<and> elems d' ! 10 =
          \<lparr>tag = ''TextRegion'', attrib = [(''id'', ''r0002'')], elem_text = None,
           children = [11]\<rparr>
      \<and> elems d' ! 11 = coords_elem [(0, 0), (4, 0), (4, 4), (0, 4)]
      \<and> (\<exists>more. children (elems d' ! 8) = [9] @ 10 # more))
   \<and> (\<exists>d' cs' os.
      third_pass box_geometry example_world 5 [example_parent1\<lparr>r_element := Some 6\<rparr>]
        (fst (add_region example_world
                \<lparr>elems = page_elems example_world ''a.png'' 100 100, uuid_calls = 0\<rparr> 5
                ''TextRegion'' (r_points example_parent1) (Some ''r0000'') None))
        [example_child] = Inr (d', cs', os)
      \<and> elems d' ! 8 =
          \<lparr>tag = ''TextRegion'', attrib = [(''id'', ''r0002'')], elem_text = None,
           children = [9]\<rparr>
      \<and> (\<exists>more. children (elems d' ! 5) = [6] @ 8 # more))"
proof -
  let ?D0 = "\<lparr>elems = page_elems example_world ''a.png'' 100 100, uuid_calls = 0\<rparr>"
  let ?P1 = "example_parent1\<lparr>r_element := Some 6\<rparr>"
  let ?P2 = "example_parent2\<lparr>r_element := Some 8\<rparr>"
  let ?D1 = "fst (add_region example_world ?D0 5 ''TextRegion'' (r_points example_parent1)
                (Some ''r0000'') None)"
  have pg: "5 < length (elems ?D0)" by simp
  have c: "r_id example_child = ''r0002''" "r_type example_child = None"
    "r_points example_child = [(0, 0), (4, 0), (4, 4), (0, 4)]"
    by (simp_all add: example_child_def)
  have sc: "containment_val box_geometry (r_points example_child) (r_points ?P1) = 1 / 2"
    "containment_val box_geometry (r_points example_child) (r_points ?P2) = 3 / 4"
    using example_scores by simp_all
  have two: "length (elems two_regions_tree) = 10" "children (elems two_regions_tree ! 8) = [9]"
    by (simp_all add: two_regions_tree_def nth_append)
  have one: "length (elems ?D1) = 8" "children (elems ?D1 ! 5) = [6]"
    by (simp_all add: children_add_region page_elems_def)
  from nestable_region_placement[OF example_second_pass pg, of box_geometry "[]" example_child "[]"]
  obtain d cs1 os1 d' cs' os where
    b: "third_pass box_geometry example_world 5 [?P1, ?P2] two_regions_tree [] = Inr (d, cs1, os1)" and
    r: "third_pass box_geometry example_world 5 [?P1, ?P2] two_regions_tree ([] @ example_child # []) = Inr (d', cs', os)" and
    n: "cs' ! length ([]::region_info list) = example_child\<lparr>r_element := Some (length (elems d))\<rparr>" and
    e1: "elems d' ! length (elems d) =
         \<lparr>tag = ''TextRegion'', attrib = region_attrib ''TextRegion'' (r_id example_child) (r_type example_child),
          elem_text = None, children = [Suc (length (elems d))]\<rparr>" and
    e2: "elems d' ! Suc (length (elems d)) = coords_elem (r_points example_child)" and
    c2: "(\<forall>pre p post.
          [?P1, ?P2] = pre @ p # post
          \<and> 1 / 2 < containment_val box_geometry (r_points example_child) (r_points p)
          \<and> (\<forall>q\<in>set pre. containment_val box_geometry (r_points example_child) (r_points q)
                            < containment_val box_geometry (r_points example_child) (r_points p))
          \<and> (\<forall>q\<in>set post. containment_val box_geometry (r_points example_child) (r_points q)
                            \<le> containment_val box_geometry (r_points example_child) (r_points p))
          \<longrightarrow> (\<exists>bp. r_element p = Some bp
                \<and> third_pass_child box_geometry example_world 5 [?P1, ?P2] d example_child =
                    Inr (d\<lparr>elems := append_child (elems d) bp (length (elems d)) @
                          [\<lparr>tag = ''TextRegion'',
                            attrib = region_attrib ''TextRegion'' (r_id example_child) (r_type example_child),
                            elem_text = None, children = [Suc (length (elems d))]\<rparr>,
                           coords_elem (r_points example_child)]\<rparr>,
                         example_child\<lparr>r_element := Some (length (elems d))\<rparr>, False)
                \<and> (\<exists>more. children (elems d' ! bp)
                             = children (elems d ! bp) @ length (elems d) # more)))"
    by (elim exE conjE) (rule that; assumption)
  from b have d: "d = two_regions_tree" by simp
  have "[?P1, ?P2] = [?P1] @ ?P2 # []
          \<and> 1 / 2 < containment_val box_geometry (r_points example_child) (r_points ?P2)
          \<and> (\<forall>q\<in>set [?P1]. containment_val box_geometry (r_points example_child) (r_points q)
                            < containment_val box_geometry (r_points example_child) (r_points ?P2))
          \<and> (\<forall>q\<in>set []. containment_val box_geometry (r_points example_child) (r_points q)
                            \<le> containment_val box_geometry (r_points example_child) (r_points ?P2))"
    using sc by simp
  from c2[rule_format, OF this] obtain bp where
    bp: "r_element ?P2 = Some bp"
    and m: "\<exists>more. children (elems d' ! bp) = children (elems d ! bp) @ length (elems d) # more"
    by blast
  from bp have "bp = 8" by simp
  with m have ch: "\<exists>more. children (elems d' ! 8) = [9] @ 10 # more"
    by (simp add: d two)
  have A: "\<exists>d' cs' os.
      third_pass box_geometry example_world 5 [?P1, ?P2] two_regions_tree [example_child]
        = Inr (d', cs', os)
      \<and> cs' ! 0 = example_child\<lparr>r_element := Some 10\<rparr>
      \<and> elems d' ! 10 =
          \<lparr>tag = ''TextRegion'', attrib = [(''id'', ''r0002'')], elem_text = None,
           children = [11]\<rparr>
      \<and> elems d' ! 11 = coords_elem [(0, 0), (4, 0), (4, 4), (0, 4)]
      \<and> (\<exists>more. children (elems d' ! 8) = [9] @ 10 # more)"
    using r n e1 e2 ch by (simp add: d two c region_attrib_def del: third_pass.simps)
  from nestable_region_placement[OF example_second_pass_one pg, of box_geometry "[]"
      example_child "[]"]
  obtain da csa osa db csb osb where
    b': "third_pass box_geometry example_world 5 [?P1] ?D1 [] = Inr (da, csa, osa)" and
    r': "third_pass box_geometry example_world 5 [?P1] ?D1 ([] @ example_child # []) = Inr (db, csb, osb)" and
    e1': "elems db ! length (elems da) =
         \<lparr>tag = ''TextRegion'', attrib = region_attrib ''TextRegion'' (r_id example_child) (r_type example_child),
          elem_text = None, children = [Suc (length (elems da))]\<rparr>" and
    c1': "((\<forall>p\<in>set [?P1]. containment_val box_geometry (r_points example_child) (r_points p) \<le> 1 / 2) \<longrightarrow>
          third_pass_child box_geometry example_world 5 [?P1] da example_child =
            Inr (da\<lparr>elems := append_child (elems da) 5 (length (elems da)) @
                  [\<lparr>tag = ''TextRegion'',
                    attrib = region_attrib ''TextRegion'' (r_id example_child) (r_type example_child),
                    elem_text = None, children = [Suc (length (elems da))]\<rparr>,
                   coords_elem (r_points example_child)]\<rparr>,
                 example_child\<lparr>r_element := Some (length (elems da))\<rparr>, True)
          \<and> (\<exists>more. children (elems db ! 5)
                       = children (elems da ! 5) @ length (elems da) # more))"
    by (elim exE conjE) (rule that; assumption)
  from b' have da: "da = ?D1" by simp
  from c1' sc have ch': "\<exists>more. children (elems db ! 5) = [6] @ 8 # more"
    by (simp add: da one)
  have B: "\<exists>d' cs' os.
      third_pass box_geometry example_world 5 [?P1] ?D1 [example_child] = Inr (d', cs', os)
      \<and> elems d' ! 8 =
          \<lparr>tag = ''TextRegion'', attrib = [(''id'', ''r0002'')], elem_text = None,
           children = [9]\<rparr>
      \<and> (\<exists>more. children (elems d' ! 5) = [6] @ 8 # more)"
    using r' e1' ch' by (simp add: da one c region_attrib_def del: third_pass.simps)
  from A B show ?thesis by blast
qed

end
